(* ===== verification/Prelude.thy ===== *)
theory Prelude
  imports Main "HOL-Library.List_Lexorder" "HOL-Library.Char_ord"
    "HOL-Library.Product_Lexorder" "HOL-Library.AList" "HOL-Library.Multiset"
begin

text \<open>
  What every component of the development shares.

  \<^item> Python exceptions are values of \<open>py_error\<close>, those of the program's own classes
    \<open>Refused class message\<close>; a fallible function returns
    \<open>py_error + 'a\<close>, \<open>Inl\<close> for the exception.  \<open>rbind\<close> sequences two
    such steps, \<open>mapM\<close> is a list comprehension whose body may raise, and
    \<open>collectM\<close> is a loop that only appends to a result list.
  \<^item> A Python \<open>str\<close> is a HOL \<open>string\<close> that holds the UTF-8 bytes of the
    text.  Equality, concatenation and the order of two texts agree with Python's, which
    compares code points; \<open>py_len\<close> counts code points.
  \<^item> A Python \<open>dict\<close> is an association list in insertion order; \<open>AList.update\<close>
    is assignment (it keeps the position of a key that is present), \<open>setdefault\<close>
    keeps the first value and \<open>group_put\<close> is \<open>defaultdict(list)[k].append(v)\<close>.
\<close>

named_theorems result_simps \<open>rewriting of the error monad\<close>
named_theorems dict_simps \<open>lookups in dictionaries after an update\<close>

section \<open>Exceptions\<close>

datatype py_error =
    KeyError string
  | ValueError string
  | TypeError string
  | AttributeError string
  | RuntimeError string
  | StopIteration
  | OverflowError string
  | Refused string string

type_synonym 'a result = "py_error + 'a"

definition rbind :: "'a result \<Rightarrow> ('a \<Rightarrow> 'b result) \<Rightarrow> 'b result" where
  "rbind m f = (case m of Inl e \<Rightarrow> Inl e | Inr x \<Rightarrow> f x)"

lemma rbind_Inl [simp]: "rbind (Inl e) f = Inl e"
  by (simp add: rbind_def)

lemma rbind_Inr [simp]: "rbind (Inr x) f = f x"
  by (simp add: rbind_def)

lemma rbind_eq_Inr [result_simps]: "rbind m f = Inr y \<longleftrightarrow> (\<exists>x. m = Inr x \<and> f x = Inr y)"
  by (cases m) simp_all

fun mapM :: "('a \<Rightarrow> 'b result) \<Rightarrow> 'a list \<Rightarrow> 'b list result" where
  "mapM f [] = Inr []"
| "mapM f (x # xs) = rbind (f x) (\<lambda>y. rbind (mapM f xs) (\<lambda>ys. Inr (y # ys)))"

lemma mapM_eq_Inr [result_simps]:
  "mapM f xs = Inr ys \<longleftrightarrow> list_all2 (\<lambda>x y. f x = Inr y) xs ys"
  by (induction xs arbitrary: ys) (auto simp: result_simps list_all2_Cons1)

lemma mapM_total: "(\<And>x. x \<in> set xs \<Longrightarrow> f x = Inr (g x)) \<Longrightarrow> mapM f xs = Inr (map g xs)"
  by (induction xs) auto

lemma mapM_member:
  assumes "mapM f xs = Inr ys"
  shows "y \<in> set ys \<longleftrightarrow> (\<exists>x \<in> set xs. f x = Inr y)"
  using assms by (induction xs arbitrary: ys) (fastforce simp: result_simps)+

definition collectM :: "('a \<Rightarrow> 'b list result) \<Rightarrow> 'a list \<Rightarrow> 'b list result" where
  "collectM f xs = rbind (mapM f xs) (\<lambda>yss. Inr (concat yss))"

lemma collectM_simps [simp]:
  "collectM f [] = Inr []"
  "collectM f (x # xs) = rbind (f x) (\<lambda>ys. rbind (collectM f xs) (\<lambda>zs. Inr (ys @ zs)))"
  by (auto simp: collectM_def rbind_def split: sum.splits)

lemma collectM_member:
  assumes "collectM f xs = Inr ys"
  shows "y \<in> set ys \<longleftrightarrow> (\<exists>x \<in> set xs. \<exists>zs. f x = Inr zs \<and> y \<in> set zs)"
  using assms by (induction xs arbitrary: ys) (fastforce simp: result_simps)+

lemma collectM_ok:
  assumes "collectM f xs = Inr ys" and "x \<in> set xs"
  shows "\<exists>zs. f x = Inr zs \<and> set zs \<subseteq> set ys"
  using assms by (induction xs arbitrary: ys) (fastforce simp: result_simps)+

lemma collectM_eq_Nil:
  "collectM f xs = Inr [] \<longleftrightarrow> (\<forall>x \<in> set xs. f x = Inr [])"
  by (induction xs) (auto simp: result_simps)

lemma collectM_total:
  "(\<And>x. x \<in> set xs \<Longrightarrow> f x = Inr (g x)) \<Longrightarrow> collectM f xs = Inr (concat (map g xs))"
  by (induction xs) auto

lemma concat_map_mset:
  assumes "mset xs = mset ys"
  shows "mset (concat (map g xs)) = mset (concat (map g ys))"
  using arg_cong [OF assms, of "image_mset (\<lambda>x. mset (g x))"]
  by (simp add: mset_concat comp_def sum_mset_sum_list [symmetric])

lemma collectM_mset:
  assumes "mset xs = mset ys" and "collectM f xs = Inr rs"
  shows "\<exists>rs'. collectM f ys = Inr rs' \<and> mset rs' = mset rs"
proof -
  have sets: "set xs = set ys" using assms(1) by (rule mset_eq_setD)
  define g where "g x = projr (f x)" for x
  have g: "f x = Inr (g x)" if "x \<in> set xs" for x
    using collectM_ok [OF assms(2) that] by (auto simp: g_def)
  have "collectM f ys = Inr (concat (map g ys))"
    by (rule collectM_total) (simp add: g sets)
  moreover have "collectM f xs = Inr (concat (map g xs))"
    by (rule collectM_total) (rule g)
  with assms(2) have "rs = concat (map g xs)" by simp
  ultimately show ?thesis using concat_map_mset [OF assms(1), of g] by simp
qed

text \<open>A loop whose body appends to several lists at once: the appended items in order.\<close>

definition append_results :: "'a list result \<Rightarrow> 'a list result \<Rightarrow> 'a list result" where
  "append_results m n = rbind m (\<lambda>xs. rbind n (\<lambda>ys. Inr (xs @ ys)))"

lemma append_results_Inr [simp]: "append_results (Inr xs) (Inr ys) = Inr (xs @ ys)"
  by (simp add: append_results_def)

lemma append_results_eq [result_simps]:
  "append_results m n = Inr zs \<longleftrightarrow> (\<exists>xs ys. m = Inr xs \<and> n = Inr ys \<and> zs = xs @ ys)"
  by (auto simp: append_results_def result_simps)

section \<open>Texts\<close>

text \<open>The number of code points of a UTF-8 text: the bytes that do not continue one.\<close>

definition py_len :: "string \<Rightarrow> nat" where
  "py_len s = length (filter (\<lambda>c. \<not> (128 \<le> (of_char c :: nat) \<and> of_char c < (192 :: nat))) s)"

definition digit_char :: "nat \<Rightarrow> char" where
  "digit_char d = char_of (48 + d)"

fun string_of_nat :: "nat \<Rightarrow> string" where
  "string_of_nat n = (if n < 10 then [digit_char n]
     else string_of_nat (n div 10) @ [digit_char (n mod 10)])"

declare string_of_nat.simps [simp del]

text \<open>The number a text of digits stands for, and that no two numbers are written alike.\<close>

fun digits_value :: "nat \<Rightarrow> string \<Rightarrow> nat" where
  "digits_value a [] = a"
| "digits_value a (c # cs) = digits_value (10 * a + (of_char c - 48)) cs"

lemma digits_value_append: "digits_value a (xs @ ys) = digits_value (digits_value a xs) ys"
  by (induction a xs rule: digits_value.induct) auto

lemma digits_value_string_of_nat: "digits_value 0 (string_of_nat n) = n"
proof (induction n rule: string_of_nat.induct)
  case (1 n)
  show ?case
  proof (cases "n < 10")
    case True
    then show ?thesis by (subst string_of_nat.simps) (simp add: digit_char_def of_char_of)
  next
    case False
    then show ?thesis
      using 1 by (subst string_of_nat.simps) (simp add: digits_value_append digit_char_def of_char_of)
  qed
qed

lemma string_of_nat_inject [simp]: "string_of_nat m = string_of_nat n \<longleftrightarrow> m = n"
  by (metis digits_value_string_of_nat)

definition string_of_int :: "int \<Rightarrow> string" where
  "string_of_int i = (if i < 0 then CHR ''-'' # string_of_nat (nat (- i)) else string_of_nat (nat i))"

fun join :: "string \<Rightarrow> string list \<Rightarrow> string" where
  "join sep [] = []"
| "join sep [x] = x"
| "join sep (x # xs) = x @ sep @ join sep xs"

fun starts_with :: "string \<Rightarrow> string \<Rightarrow> bool" where
  "starts_with [] s = True"
| "starts_with (p # ps) [] = False"
| "starts_with (p # ps) (c # cs) = (p = c \<and> starts_with ps cs)"

lemma starts_with_append [simp]: "starts_with p (p @ s)"
  by (induction p) auto

lemma starts_with_iff: "starts_with p s \<longleftrightarrow> (\<exists>t. s = p @ t)"
  by (induction p s rule: starts_with.induct) auto

fun contains :: "string \<Rightarrow> string \<Rightarrow> bool" where
  "contains p [] = (p = [])"
| "contains p (c # cs) = (starts_with p (c # cs) \<or> contains p cs)"

lemma contains_iff: "contains p s \<longleftrightarrow> (\<exists>u v. s = u @ p @ v)"
proof (induction s)
  case Nil
  then show ?case by auto
next
  case (Cons c cs)
  show ?case
    by (auto simp: starts_with_iff Cons Cons_eq_append_conv)
qed

section \<open>Dictionaries\<close>

definition dict_of :: "('k \<times> 'v) list \<Rightarrow> ('k \<times> 'v) list" where
  "dict_of kvs = fold (\<lambda>(k, v). AList.update k v) kvs []"

definition setdefault :: "'k \<Rightarrow> 'v \<Rightarrow> ('k \<times> 'v) list \<Rightarrow> ('k \<times> 'v) list" where
  "setdefault k v d = (if map_of d k = None then d @ [(k, v)] else d)"

fun group_put :: "'k \<Rightarrow> 'v \<Rightarrow> ('k \<times> 'v list) list \<Rightarrow> ('k \<times> 'v list) list" where
  "group_put k v [] = [(k, [v])]"
| "group_put k v ((k', vs) # d) = (if k' = k then (k', vs @ [v]) # d else (k', vs) # group_put k v d)"

definition group_by :: "('k \<times> 'v) list \<Rightarrow> ('k \<times> 'v list) list" where
  "group_by kvs = fold (\<lambda>(k, v). group_put k v) kvs []"

definition group_get :: "('k \<times> 'v list) list \<Rightarrow> 'k \<Rightarrow> 'v list" where
  "group_get d k = (case map_of d k of None \<Rightarrow> [] | Some vs \<Rightarrow> vs)"

lemma map_of_fold_update:
  "map_of (fold (\<lambda>(k, v). AList.update k v) kvs d) k = (map_of d ++ map_of (rev kvs)) k"
  by (induction kvs arbitrary: d) (auto simp: update_conv map_add_def split: option.splits)

lemma map_of_dict_of [dict_simps]: "map_of (dict_of kvs) = map_of (rev kvs)"
  by (rule ext) (simp add: dict_of_def map_of_fold_update)

lemma distinct_dict_of: "distinct (map fst (dict_of kvs))"
proof -
  have "distinct (map fst d) \<Longrightarrow> distinct (map fst (fold (\<lambda>(k, v). AList.update k v) kvs d))" for d
    by (induction kvs arbitrary: d) (auto simp: distinct_update)
  then show ?thesis by (simp add: dict_of_def)
qed

lemma dict_of_mem_iff: "(k, v) \<in> set (dict_of kvs) \<longleftrightarrow> map_of (rev kvs) k = Some v"
  by (metis distinct_dict_of map_of_dict_of map_of_eq_Some_iff)

lemma keys_dict_of: "fst ` set (dict_of kvs) = fst ` set kvs"
proof -
  have "fst ` set (dict_of kvs) = dom (map_of (rev kvs))"
    by (metis dom_map_of_conv_image_fst map_of_dict_of)
  then show ?thesis by (simp add: dom_map_of_conv_image_fst)
qed

lemma dict_of_values: "(k, v) \<in> set (dict_of kvs) \<Longrightarrow> (k, v) \<in> set kvs"
  by (auto simp: dict_of_mem_iff dest: map_of_SomeD)

lemma setdefault_map_of [dict_simps]:
  "map_of (setdefault k v d) = (case map_of d k of None \<Rightarrow> (map_of d)(k \<mapsto> v) | Some _ \<Rightarrow> map_of d)"
  by (rule ext) (auto simp: setdefault_def map_add_def split: option.splits)

lemma group_put_get:
  "group_get (group_put k v d) k' = (if k' = k then group_get d k @ [v] else group_get d k')"
  by (induction k v d rule: group_put.induct) (auto simp: group_get_def split: option.splits)

lemma group_by_fold_get:
  "group_get (fold (\<lambda>(k, v). group_put k v) kvs d) k
     = group_get d k @ map snd (filter (\<lambda>e. fst e = k) kvs)"
  by (induction kvs arbitrary: d) (auto simp: group_put_get)

lemma group_get_group_by [dict_simps]:
  "group_get (group_by kvs) k = map snd (filter (\<lambda>e. fst e = k) kvs)"
  by (simp add: group_by_def group_by_fold_get) (simp add: group_get_def)

lemma keys_group_put: "fst ` set (group_put k v d) = insert k (fst ` set d)"
  by (induction k v d rule: group_put.induct) auto

lemma keys_group_by: "fst ` set (group_by kvs) = fst ` set kvs"
proof -
  have "fst ` set (fold (\<lambda>(k, v). group_put k v) kvs d) = fst ` set kvs \<union> fst ` set d"
    for d :: "('a \<times> 'b list) list"
  proof (induction kvs arbitrary: d)
    case (Cons e kvs)
    then show ?case by (cases e) (simp add: keys_group_put)
  qed simp
  then show ?thesis by (simp add: group_by_def)
qed

lemma distinct_group_put: "distinct (map fst d) \<Longrightarrow> distinct (map fst (group_put k v d))"
proof (induction k v d rule: group_put.induct)
  case (2 k v k' vs d)
  then show ?case using keys_group_put[of k v d] by auto
qed simp

lemma distinct_group_by: "distinct (map fst (group_by kvs))"
proof -
  have "distinct (map fst d) \<Longrightarrow> distinct (map fst (fold (\<lambda>(k, v). group_put k v) kvs d))"
    for d :: "('a \<times> 'b list) list"
    by (induction kvs arbitrary: d) (auto simp: distinct_group_put)
  then show ?thesis by (simp add: group_by_def)
qed

lemma group_by_mem:
  "(k, vs) \<in> set (group_by kvs) \<Longrightarrow> vs = map snd (filter (\<lambda>e. fst e = k) kvs)"
  by (metis distinct_group_by group_get_def group_get_group_by map_of_eq_Some_iff option.simps(5))

lemma dict_of_distinct:
  assumes "distinct (map fst kvs)"
  shows "set (dict_of kvs) = set kvs"
proof -
  have "distinct (map fst (rev kvs))" using assms by (simp add: rev_map [symmetric])
  then have "map_of (rev kvs) k = Some v \<longleftrightarrow> (k, v) \<in> set kvs" for k v
    using map_of_eq_Some_iff [of "rev kvs" k v] by simp
  then show ?thesis by (auto simp: dict_of_mem_iff)
qed

text \<open>A comprehension with a condition, from keys that are all different.\<close>

lemma distinct_concat_keys:
  assumes one: "\<And>x. f x = [] \<or> (\<exists>v. f x = [(key x, v)])" and "distinct (map key xs)"
  shows "distinct (map fst (concat (map f xs)))"
  using assms(2)
proof (induction xs)
  case (Cons x xs)
  have "fst ` set (concat (map f xs)) \<subseteq> key ` set xs"
  proof
    fix k
    assume "k \<in> fst ` set (concat (map f xs))"
    then obtain y v where "y \<in> set xs" "(k, v) \<in> set (f y)" by auto
    with one [of y] show "k \<in> key ` set xs" by auto
  qed
  moreover have "key x \<notin> key ` set xs" using Cons.prems by simp
  ultimately have "key x \<notin> fst ` set (concat (map f xs))" by blast
  moreover have "distinct (map fst (concat (map f xs)))" using Cons by simp
  ultimately show ?case using one [of x]
    by (elim disjE exE) (simp_all only: list.map concat.simps append_Nil append_Cons distinct.simps set_map fst_conv simp_thms)
qed simp

section \<open>Lists\<close>

definition enumerate_list :: "'a list \<Rightarrow> (nat \<times> 'a) list" where
  "enumerate_list xs = zip [0..<length xs] xs"

lemma enumerate_list_mem: "(i, x) \<in> set (enumerate_list xs) \<longleftrightarrow> i < length xs \<and> xs ! i = x"
  by (force simp: enumerate_list_def set_zip)

lemma enumerate_list_snd: "snd ` set (enumerate_list xs) = set xs"
  by (metis enumerate_list_def length_map map_nth map_snd_zip set_map)

lemma enumerate_list_ex: "r \<in> set xs \<longleftrightarrow> (\<exists>i. (i, r) \<in> set (enumerate_list xs))"
  by (simp only: enumerate_list_mem in_set_conv_nth [of r xs])

lemma map_snd_enumerate [simp]: "map (\<lambda>ix. h (snd ix)) (enumerate_list xs) = map h xs"
proof -
  have "map snd (enumerate_list xs) = xs" by (simp add: enumerate_list_def)
  then have "map h (map snd (enumerate_list xs)) = map h xs" by simp
  then show ?thesis by (simp add: comp_def)
qed

lemma distinct_enumerate: "distinct (enumerate_list xs)"
  by (simp add: enumerate_list_def distinct_zipI1)

lemma length_le_1_distinct:
  "(\<forall>n. length (filter (\<lambda>x. f x = n) xs) \<le> 1) \<longleftrightarrow> distinct (map f xs)"
proof (induction xs)
  case (Cons x xs)
  have "(\<forall>n. length (filter (\<lambda>y. f y = n) (x # xs)) \<le> 1) \<longleftrightarrow>
      filter (\<lambda>y. f y = f x) xs = [] \<and> (\<forall>n. length (filter (\<lambda>y. f y = n) xs) \<le> 1)" (is "?l \<longleftrightarrow> ?r")
  proof
    assume l: ?l
    from spec [OF l, of "f x"] have "filter (\<lambda>y. f y = f x) xs = []" by simp
    moreover have "length (filter (\<lambda>y. f y = n) xs) \<le> 1" for n
      using spec [OF l, of n] by (simp split: if_splits)
    ultimately show ?r by blast
  next
    assume ?r
    then show ?l by auto
  qed
  also have "filter (\<lambda>y. f y = f x) xs = [] \<longleftrightarrow> f x \<notin> set (map f xs)"
    by (auto simp: filter_empty_conv) (metis imageI)
  finally show ?case using Cons by simp
qed simp

lemma enumerate_all: "(\<forall>ix \<in> set (enumerate_list xs). P (snd ix)) \<longleftrightarrow> (\<forall>x \<in> set xs. P x)"
  unfolding enumerate_list_snd [of xs, symmetric] by simp

definition sorted_set :: "'a::linorder list \<Rightarrow> 'a list" where
  "sorted_set xs = sort (remdups xs)"

lemma set_sorted_set [simp]: "set (sorted_set xs) = set xs"
  by (simp add: sorted_set_def)

lemma sorted_set_cong: "set xs = set ys \<Longrightarrow> sorted_set xs = sorted_set ys"
  by (simp add: sorted_set_def sorted_list_of_set_sort_remdups [symmetric])

lemma distinct_sorted_set [simp]: "distinct (sorted_set xs)"
  by (simp add: sorted_set_def)

lemma sorted_sorted_set [simp]: "sorted (sorted_set xs)"
  by (simp add: sorted_set_def)

lemma sorted_set_Nil_iff [simp]: "sorted_set xs = [] \<longleftrightarrow> xs = []"
  by (metis set_empty set_sorted_set)

lemma sort_mset_cong: "mset xs = mset ys \<Longrightarrow> sort xs = sort (ys :: 'a::linorder list)"
  by (metis properties_for_sort sorted_sort mset_sort)

lemma concat_map_Nil: "concat (map f xs) = [] \<longleftrightarrow> (\<forall>x \<in> set xs. f x = [])"
  by simp

section \<open>Groups\<close>

lemma length_group_get: "length (group_get (group_by kvs) k) = length (filter (\<lambda>x. x = k) (map fst kvs))"
proof -
  have "length (map snd (filter (\<lambda>e. fst e = k) kvs)) = length (filter (\<lambda>x. x = k) (map fst kvs))"
    by (induction kvs) auto
  then show ?thesis by (simp add: dict_simps)
qed

lemma group_get_empty: "group_get (group_by kvs) k = [] \<longleftrightarrow> k \<notin> fst ` set kvs"
  by (force simp: dict_simps filter_empty_conv)

lemma group_by_map_of: "map_of (group_by kvs) k = None \<longleftrightarrow> k \<notin> fst ` set kvs"
  by (simp add: map_of_eq_None_iff keys_group_by)

lemma group_by_mem_get: "(k, vs) \<in> set (group_by kvs) \<longleftrightarrow> k \<in> fst ` set kvs \<and> vs = group_get (group_by kvs) k"
proof
  assume a: "(k, vs) \<in> set (group_by kvs)"
  then have "k \<in> fst ` set (group_by kvs)" by force
  then show "k \<in> fst ` set kvs \<and> vs = group_get (group_by kvs) k"
    using group_by_mem [OF a] by (simp add: keys_group_by dict_simps)
next
  assume a: "k \<in> fst ` set kvs \<and> vs = group_get (group_by kvs) k"
  then have "k \<in> fst ` set (group_by kvs)" by (simp add: keys_group_by)
  then obtain ws where w: "(k, ws) \<in> set (group_by kvs)" by force
  with a show "(k, vs) \<in> set (group_by kvs)" using group_by_mem [OF w] by (simp add: dict_simps)
qed

lemma group_by_all:
  "(\<forall>e \<in> set (group_by kvs). P (fst e) (snd e)) \<longleftrightarrow> (\<forall>k \<in> fst ` set kvs. P k (group_get (group_by kvs) k))"
proof -
  have "(\<forall>e \<in> set (group_by kvs). P (fst e) (snd e)) \<longleftrightarrow> (\<forall>k vs. (k, vs) \<in> set (group_by kvs) \<longrightarrow> P k vs)" by force
  then show ?thesis unfolding group_by_mem_get by blast
qed

text \<open>The keys of a table built from the numbered elements of a list.\<close>

lemma map_fst_concat_enumerate:
  assumes "\<And>i x. map fst (h (i, x)) = keys x"
  shows "map fst (concat (map h (enumerate_list xs))) = concat (map keys xs)"
proof -
  have "map fst (concat (map h ixs)) = concat (map (\<lambda>ix. keys (snd ix)) ixs)" for ixs
  proof (induction ixs)
    case (Cons ix ixs)
    then show ?case using assms [of "fst ix" "snd ix"] by simp
  qed simp
  then show ?thesis by simp
qed

lemma count_distinct:
  "(\<forall>k \<in> set ks. length (filter (\<lambda>x. x = k) ks) \<le> 1) \<longleftrightarrow> distinct ks"
proof -
  have "(\<forall>k. length (filter (\<lambda>x. x = k) ks) \<le> 1) \<longleftrightarrow> (\<forall>k \<in> set ks. length (filter (\<lambda>x. x = k) ks) \<le> 1)"
  proof (intro iffI ballI allI)
    fix k
    assume a: "\<forall>k \<in> set ks. length (filter (\<lambda>x. x = k) ks) \<le> 1"
    show "length (filter (\<lambda>x. x = k) ks) \<le> 1"
    proof (cases "k \<in> set ks")
      case False
      then have "filter (\<lambda>x. x = k) ks = []" by (auto simp: filter_empty_conv)
      then show ?thesis by simp
    qed (use a in blast)
  qed blast
  with length_le_1_distinct [of "\<lambda>x. x" ks] show ?thesis by simp
qed

end
