(* ===== verification/Json.thy ===== *)
theory Json
  imports Prelude
begin

text \<open>
  The parsed YAML/JSON values the repository's loaders produce, and the few Python
  operations its code applies to them: \<open>isinstance\<close> tests, \<open>dict.get\<close>,
  subscription, truth value, iteration, \<open>str\<close> and \<open>repr\<close>.

  \<^item> A \<open>dict\<close> is \<open>JObj\<close> with its items in insertion order.  The loaders never
    build a dictionary with two equal keys; \<open>map_of\<close> reads the first.
  \<^item> \<open>JList\<close> is a \<open>list\<close> or, after \<open>_deep_freeze\<close>, a \<open>tuple\<close>.
  \<^item> A float is kept as the text \<open>repr\<close> gives for it.
\<close>

datatype json =
    JNull
  | JBool bool
  | JInt int
  | JFloat string
  | JStr string
  | JList "json list"
  | JObj "(string \<times> json) list"

section \<open>Type tests\<close>

fun is_mapping :: "json \<Rightarrow> bool" where
  "is_mapping (JObj _) = True"
| "is_mapping _ = False"

fun is_str :: "json \<Rightarrow> bool" where
  "is_str (JStr _) = True"
| "is_str _ = False"

fun str_of :: "json \<Rightarrow> string option" where
  "str_of (JStr s) = Some s"
| "str_of _ = None"

fun is_list :: "json \<Rightarrow> bool" where
  "is_list (JList _) = True"
| "is_list _ = False"

lemma is_mapping_iff: "is_mapping j \<longleftrightarrow> (\<exists>kvs. j = JObj kvs)"
  by (cases j) auto

lemma str_of_eq_Some [simp]: "str_of j = Some s \<longleftrightarrow> j = JStr s"
  by (cases j) auto

lemma Some_eq_str_of [simp]: "Some s = str_of j \<longleftrightarrow> j = JStr s"
  by (cases j) auto

lemma is_str_iff: "is_str j \<longleftrightarrow> (\<exists>s. j = JStr s)"
  by (cases j) auto

fun truthy :: "json \<Rightarrow> bool" where
  "truthy JNull = False"
| "truthy (JBool b) = b"
| "truthy (JInt i) = (i \<noteq> 0)"
| "truthy (JFloat t) = (t \<noteq> ''0.0'' \<and> t \<noteq> ''-0.0'')"
| "truthy (JStr s) = (s \<noteq> [])"
| "truthy (JList xs) = (xs \<noteq> [])"
| "truthy (JObj kvs) = (kvs \<noteq> [])"

section \<open>Equality\<close>

text \<open>
  \<open>==\<close> of Python: numbers are compared by value, a \<open>bool\<close> being a number, and mappings without regard to
  the order of their keys.  A float is compared with an integer through its text, which is exact below
  \<open>10 ^ 16\<close>.
\<close>

definition integral_float :: "string \<Rightarrow> int option" where
  "integral_float t =
     (let neg = (t \<noteq> [] \<and> hd t = CHR ''-''); u = (if neg then tl t else t);
          whole = takeWhile (\<lambda>c. c \<noteq> CHR ''.'') u in
      if whole \<noteq> [] \<and> list_all (\<lambda>c. 48 \<le> (of_char c :: nat) \<and> (of_char c :: nat) \<le> 57) whole
         \<and> drop (length whole) u = ''.0''
      then Some (if neg then - int (digits_value 0 whole) else int (digits_value 0 whole)) else None)"

fun number_of :: "json \<Rightarrow> int option" where
  "number_of (JBool b) = Some (if b then 1 else 0)"
| "number_of (JInt i) = Some i"
| "number_of (JFloat t) = integral_float t"
| "number_of _ = None"

fun py_eq :: "json \<Rightarrow> json \<Rightarrow> bool"
  and py_eq_items :: "json list \<Rightarrow> json list \<Rightarrow> bool"
  and py_eq_fields :: "(string \<times> json) list \<Rightarrow> (string \<times> json) list \<Rightarrow> bool" where
  "py_eq (JObj kvs) w = (case w of JObj kvs' \<Rightarrow> length kvs = length kvs' \<and> py_eq_fields kvs kvs' | _ \<Rightarrow> False)"
| "py_eq (JList xs) w = (case w of JList ys \<Rightarrow> py_eq_items xs ys | _ \<Rightarrow> False)"
| "py_eq v w = (case (number_of v, number_of w) of
     (Some i, Some j) \<Rightarrow> i = j
   | _ \<Rightarrow> v = w \<and> v \<noteq> JFloat ''nan'')"
| "py_eq_items [] ys \<longleftrightarrow> ys = []"
| "py_eq_items (x # xs) ys = (case ys of [] \<Rightarrow> False | y # ys' \<Rightarrow> py_eq x y \<and> py_eq_items xs ys')"
| "py_eq_fields [] kvs' \<longleftrightarrow> True"
| "py_eq_fields ((k, v) # kvs) kvs' \<longleftrightarrow>
     (case map_of kvs' k of None \<Rightarrow> False | Some w \<Rightarrow> py_eq v w) \<and> py_eq_fields kvs kvs'"

lemma py_eq_JStr [simp]: "py_eq (JStr s) w \<longleftrightarrow> w = JStr s"
  by (cases w) (auto split: option.splits)

lemma py_eq_examples:
  "py_eq (JObj [(''a'', JInt 1), (''b'', JNull)]) (JObj [(''b'', JNull), (''a'', JFloat ''1.0'')])"
  "py_eq (JBool True) (JInt 1)" "\<not> py_eq (JInt 1) (JStr ''1'')" "\<not> py_eq (JFloat ''1.5'') (JInt 1)"
  "py_eq (JFloat ''-0.0'') (JFloat ''0.0'')"
  by code_simp+

section \<open>Reading a mapping\<close>

text \<open>
  \<open>jget d k\<close> is \<open>d.get(k)\<close> of a value already known to be a mapping; \<open>get_attr\<close>
  is the same call on a value nobody checked, so that a non-mapping raises.
\<close>

fun jlookup :: "json \<Rightarrow> string \<Rightarrow> json option" where
  "jlookup (JObj kvs) k = map_of kvs k"
| "jlookup _ k = None"

definition jget :: "json \<Rightarrow> string \<Rightarrow> json" where
  "jget d k = (case jlookup d k of None \<Rightarrow> JNull | Some v \<Rightarrow> v)"

definition jget_default :: "json \<Rightarrow> string \<Rightarrow> json \<Rightarrow> json" where
  "jget_default d k v = (case jlookup d k of None \<Rightarrow> v | Some w \<Rightarrow> w)"

definition jitem :: "json \<Rightarrow> string \<Rightarrow> json result" where
  "jitem d k =
     (case d of
        JObj kvs \<Rightarrow> (case map_of kvs k of None \<Rightarrow> Inl (KeyError k) | Some v \<Rightarrow> Inr v)
      | _ \<Rightarrow> Inl (TypeError ''not subscriptable by a string''))"

definition get_attr :: "json \<Rightarrow> string \<Rightarrow> json \<Rightarrow> json result" where
  "get_attr d k dflt =
     (if is_mapping d then Inr (jget_default d k dflt) else Inl (AttributeError ''get''))"

lemma jget_JObj [simp]: "jget (JObj kvs) k = (case map_of kvs k of None \<Rightarrow> JNull | Some v \<Rightarrow> v)"
  by (simp add: jget_def)

lemma jget_non_mapping: "\<not> is_mapping d \<Longrightarrow> jget d k = JNull"
  by (cases d) (auto simp: jget_def)

lemma jget_StrD: "jget d k = JStr s \<Longrightarrow> jlookup d k = Some (JStr s)"
  by (auto simp: jget_def split: option.splits)

section \<open>Iteration\<close>

text \<open>
  \<open>utf8_chars\<close> splits a text at the bytes that start a code point, as iterating over a
  \<open>str\<close> does.
\<close>

definition continuation_byte :: "char \<Rightarrow> bool" where
  "continuation_byte c \<longleftrightarrow> 128 \<le> (of_char c :: nat) \<and> (of_char c :: nat) < 192"

function utf8_chars :: "string \<Rightarrow> string list" where
  "utf8_chars [] = []"
| "utf8_chars (c # cs) =
     (c # takeWhile continuation_byte cs) # utf8_chars (dropWhile continuation_byte cs)"
  by pat_completeness auto
termination
  by (relation "measure length") (auto simp: length_dropWhile_le le_imp_less_Suc)

definition py_iter :: "json \<Rightarrow> json list result" where
  "py_iter v =
     (case v of
        JList xs \<Rightarrow> Inr xs
      | JObj kvs \<Rightarrow> Inr (map (\<lambda>kv. JStr (fst kv)) kvs)
      | JStr s \<Rightarrow> Inr (map JStr (utf8_chars s))
      | _ \<Rightarrow> Inl (TypeError ''object is not iterable''))"

text \<open>\<open>for x in value or ()\<close>\<close>

definition iter_or_empty :: "json \<Rightarrow> json list result" where
  "iter_or_empty v = (if truthy v then py_iter v else Inr [])"

lemma iter_or_empty_JList [simp]: "iter_or_empty (JList xs) = Inr xs"
  by (simp add: iter_or_empty_def py_iter_def)

lemma iter_or_empty_JNull [simp]: "iter_or_empty JNull = Inr []"
  by (simp add: iter_or_empty_def)

lemma iter_or_empty_mapping:
  assumes "iter_or_empty v = Inr xs" and "x \<in> set xs" and "is_mapping x"
  shows "v = JList xs"
  using assms
  by (cases v) (auto simp: iter_or_empty_def py_iter_def split: if_splits)

text \<open>
  \<open>_items(document, key)\<close>, defined alike in \<open>derivation.py\<close> and
  \<open>validation.py\<close>.
\<close>

definition items :: "json \<Rightarrow> string \<Rightarrow> json list" where
  "items document key =
     (if \<not> is_mapping document then []
      else (case jget document key of JList vs \<Rightarrow> vs | _ \<Rightarrow> []))"

section \<open>Texts of values\<close>

definition hex_digit :: "nat \<Rightarrow> char" where
  "hex_digit d = (if d < 10 then char_of (48 + d) else char_of (87 + d))"

definition repr_char :: "char \<Rightarrow> char \<Rightarrow> string" where
  "repr_char q c =
     (let n = of_char c :: nat in
      if c = q then [CHR 92, q]
      else if n = 92 then [CHR 92, CHR 92]
      else if n = 10 then [CHR 92, CHR ''n'']
      else if n = 13 then [CHR 92, CHR ''r'']
      else if n = 9 then [CHR 92, CHR ''t'']
      else if n < 32 \<or> n = 127 then [CHR 92, CHR ''x'', hex_digit (n div 16), hex_digit (n mod 16)]
      else [c])"

text \<open>
  \<open>repr\<close> of a \<open>str\<close>: single quotes, unless the text has one and no double quote.
  Code points above 127 are taken to be printable, which \<open>repr\<close> keeps.
\<close>

definition repr_str :: "string \<Rightarrow> string" where
  "repr_str s =
     (let q = (if CHR 39 \<in> set s \<and> CHR 34 \<notin> set s then CHR 34 else CHR 39)
      in q # concat (map (repr_char q) s) @ [q])"

definition repr_tuple :: "string list \<Rightarrow> string" where
  "repr_tuple xs = (case xs of [x] \<Rightarrow> ''('' @ x @ '',)'' | _ \<Rightarrow> ''('' @ join '', '' xs @ '')'')"

definition repr_list :: "string list \<Rightarrow> string" where
  "repr_list xs = ''['' @ join '', '' xs @ '']''"

text \<open>\<open>repr\<close> and \<open>str\<close> of a frozen registry value.\<close>

fun frozen_repr :: "json \<Rightarrow> string" where
  "frozen_repr JNull = ''None''"
| "frozen_repr (JBool b) = (if b then ''True'' else ''False'')"
| "frozen_repr (JInt i) = string_of_int i"
| "frozen_repr (JFloat t) = t"
| "frozen_repr (JStr s) = repr_str s"
| "frozen_repr (JList xs) = repr_tuple (map frozen_repr xs)"
| "frozen_repr (JObj kvs) =
     ''mappingproxy({'' @ join '', '' (map (\<lambda>kv. repr_str (fst kv) @ '': '' @ frozen_repr (snd kv)) kvs) @ ''})''"

fun frozen_str :: "json \<Rightarrow> string" where
  "frozen_str (JStr s) = s"
| "frozen_str v = frozen_repr v"

text \<open>The same for a value that was not frozen: lists and dictionaries print as such.\<close>

fun plain_repr :: "json \<Rightarrow> string" where
  "plain_repr JNull = ''None''"
| "plain_repr (JBool b) = (if b then ''True'' else ''False'')"
| "plain_repr (JInt i) = string_of_int i"
| "plain_repr (JFloat t) = t"
| "plain_repr (JStr s) = repr_str s"
| "plain_repr (JList xs) = repr_list (map plain_repr xs)"
| "plain_repr (JObj kvs) =
     ''{'' @ join '', '' (map (\<lambda>kv. repr_str (fst kv) @ '': '' @ plain_repr (snd kv)) kvs) @ ''}''"

fun plain_str :: "json \<Rightarrow> string" where
  "plain_str (JStr s) = s"
| "plain_str v = plain_repr v"

section \<open>Membership in a set of texts\<close>

text \<open>
  \<open>value in {texts}\<close>: only a text can be a member, and a value that cannot be hashed (a
  frozen mapping, or a tuple that holds one) raises.
\<close>

fun frozen_hashable :: "json \<Rightarrow> bool" where
  "frozen_hashable (JObj _) = False"
| "frozen_hashable (JList xs) = (\<forall>x \<in> set xs. frozen_hashable x)"
| "frozen_hashable _ = True"

definition frozen_member :: "json \<Rightarrow> string list \<Rightarrow> bool result" where
  "frozen_member v texts =
     (if frozen_hashable v then Inr (case v of JStr s \<Rightarrow> s \<in> set texts | _ \<Rightarrow> False)
      else Inl (TypeError ''unhashable type''))"

lemma frozen_member_JStr [simp]: "frozen_member (JStr s) texts = Inr (s \<in> set texts)"
  by (simp add: frozen_member_def)

lemma frozen_member_TrueD: "frozen_member v texts = Inr True \<Longrightarrow> \<exists>s. v = JStr s \<and> s \<in> set texts"
  by (cases v) (auto simp: frozen_member_def split: if_splits)

text \<open>The texts among the values of a key, where the code keeps only non-empty ones.\<close>

definition text_ids :: "json list \<Rightarrow> string \<Rightarrow> string list" where
  "text_ids values key =
     concat (map (\<lambda>v. if is_mapping v then
                        (case jget v key of JStr s \<Rightarrow> (if s \<noteq> [] then [s] else []) | _ \<Rightarrow> [])
                      else []) values)"

lemma text_ids_mem:
  "s \<in> set (text_ids values key) \<longleftrightarrow>
     s \<noteq> [] \<and> (\<exists>v \<in> set values. is_mapping v \<and> jget v key = JStr s)"
  by (force simp: text_ids_def split: json.splits if_splits)

end
