(* ===== verification/Contracts.thy ===== *)
theory Contracts
  imports Json
begin

text \<open>
  The frozen contracts of \<open>semantic_planning/contracts.py\<close>: validation issues with
  their order, the reports, the registry snapshot and the bundle of source documents, and
  \<open>_canonical_issues\<close> of \<open>validation.py\<close>, which every report goes through.
\<close>

section \<open>Issues\<close>

datatype issue = ValidationIssue (issue_path: string) (issue_code: string) (issue_message: string)

definition issue_key :: "issue \<Rightarrow> string \<times> string \<times> string" where
  "issue_key i = (issue_path i, issue_code i, issue_message i)"

lemma issue_key_inj: "issue_key i = issue_key j \<longleftrightarrow> i = j"
  by (cases i; cases j) (simp add: issue_key_def)

instantiation issue :: linorder
begin

definition less_eq_issue :: "issue \<Rightarrow> issue \<Rightarrow> bool" where
  "less_eq_issue i j \<longleftrightarrow> issue_key i \<le> issue_key j"

definition less_issue :: "issue \<Rightarrow> issue \<Rightarrow> bool" where
  "less_issue i j \<longleftrightarrow> issue_key i < issue_key j"

instance
  by standard (auto simp: less_eq_issue_def less_issue_def issue_key_inj dest: antisym)

end

text \<open>\<open>sorted(issues, key=lambda item: (item.path, item.code, item.message))\<close>\<close>

definition sorted_issues :: "issue list \<Rightarrow> issue list" where
  "sorted_issues issues = sort_key issue_key issues"

lemma sorted_issues_sort: "sorted_issues issues = sort issues"
  unfolding sorted_issues_def
proof (rule sort_key_inj_key_eq)
  show "mset issues = mset (sort issues)" by simp
  show "inj_on issue_key (set issues)" by (auto simp: inj_on_def issue_key_inj)
  show "sorted (map issue_key (sort issues))"
    unfolding sorted_map
    by (rule sorted_wrt_mono_rel [OF _ sorted_sort [of issues]]) (simp add: less_eq_issue_def)
qed

text \<open>
  A dictionary keyed by the three fields drops repetitions; the values are then sorted.
\<close>

definition canonical_issues :: "issue list \<Rightarrow> issue list" where
  "canonical_issues issues =
     sorted_issues (map snd (dict_of (map (\<lambda>i. (issue_key i, i)) issues)))"

lemma dict_of_issue_values:
  "(k, i) \<in> set (dict_of (map (\<lambda>i. (issue_key i, i)) issues)) \<longleftrightarrow> i \<in> set issues \<and> k = issue_key i"
proof
  assume "(k, i) \<in> set (dict_of (map (\<lambda>i. (issue_key i, i)) issues))"
  then show "i \<in> set issues \<and> k = issue_key i" by (auto dest: dict_of_values)
next
  assume a: "i \<in> set issues \<and> k = issue_key i"
  let ?kvs = "map (\<lambda>i. (issue_key i, i)) issues"
  from a have "(k, i) \<in> set ?kvs" by simp
  then have "k \<in> fst ` set (dict_of ?kvs)" unfolding keys_dict_of by force
  then obtain j where j: "(k, j) \<in> set (dict_of ?kvs)" by force
  then have "k = issue_key j" by (auto dest: dict_of_values)
  with a j show "(k, i) \<in> set (dict_of ?kvs)" by (simp add: issue_key_inj)
qed

lemma set_canonical_issues [simp]: "set (canonical_issues issues) = set issues"
proof -
  have "i \<in> snd ` set (dict_of (map (\<lambda>i. (issue_key i, i)) issues)) \<longleftrightarrow> i \<in> set issues" for i
  proof
    assume "i \<in> set issues"
    then have "(issue_key i, i) \<in> set (dict_of (map (\<lambda>i. (issue_key i, i)) issues))"
      by (simp add: dict_of_issue_values)
    then show "i \<in> snd ` set (dict_of (map (\<lambda>i. (issue_key i, i)) issues))" by force
  qed (auto simp: dict_of_issue_values)
  then show ?thesis by (auto simp: canonical_issues_def sorted_issues_sort)
qed

lemma distinct_canonical_issues: "distinct (canonical_issues issues)"
proof -
  let ?d = "dict_of (map (\<lambda>i. (issue_key i, i)) issues)"
  have "distinct (map fst ?d)" by (rule distinct_dict_of)
  moreover have keys: "map fst ?d = map issue_key (map snd ?d)"
    unfolding map_map by (rule map_cong [OF refl]) (auto simp: dict_of_issue_values)
  ultimately have "distinct (map issue_key (map snd ?d))" by simp
  then have "distinct (map snd ?d)" by (simp only: distinct_map)
  then show ?thesis by (simp add: canonical_issues_def sorted_issues_sort)
qed

lemma canonical_issues_eq: "canonical_issues issues = sorted_set issues"
proof (rule sorted_distinct_set_unique)
  show "sorted (canonical_issues issues)" by (simp add: canonical_issues_def sorted_issues_sort)
  show "distinct (canonical_issues issues)" by (rule distinct_canonical_issues)
qed auto

lemma canonical_issues_Nil [simp]: "canonical_issues issues = [] \<longleftrightarrow> issues = []"
  by (simp add: canonical_issues_eq)

section \<open>Reports\<close>

record validation_report =
  report_valid :: bool
  report_issues :: "issue list"

record goal_report =
  goal_valid :: bool
  goal_issues :: "issue list"
  reachable_fact_types :: "string list"
  capability_gaps :: "string list"

section \<open>Snapshot and sources\<close>

record snapshot_source =
  source_path :: string
  document_version :: int
  digest :: string

record registry_snapshot =
  snapshot_version :: int
  canonicalization_version :: int
  snapshot_id :: string
  sources_of :: "snapshot_source list"

definition snapshot_source_to_dict :: "snapshot_source \<Rightarrow> json" where
  "snapshot_source_to_dict item =
     JObj [(''path'', JStr (source_path item)),
           (''documentVersion'', JInt (document_version item)),
           (''digest'', JStr (digest item))]"

definition registry_snapshot_to_dict :: "registry_snapshot \<Rightarrow> json" where
  "registry_snapshot_to_dict s =
     JObj [(''snapshotVersion'', JInt (snapshot_version s)),
           (''canonicalizationVersion'', JInt (canonicalization_version s)),
           (''snapshotId'', JStr (snapshot_id s)),
           (''sources'', JList (map snapshot_source_to_dict (sources_of s)))]"

text \<open>
  Freezing replaces dictionaries and lists by read-only views of the same content, which
  the values of \<open>json\<close> already are.
\<close>

record source_documents =
  capabilities_doc :: json
  executor_bindings_doc :: json
  fact_types_doc :: json
  relations_doc :: json
  semantic_types_doc :: json

definition documents_by_path :: "source_documents \<Rightarrow> (string \<times> json) list" where
  "documents_by_path docs =
     [(''ontology/capability-relations.yaml'', relations_doc docs),
      (''ontology/fact-types.yaml'', fact_types_doc docs),
      (''registry/capabilities.yaml'', capabilities_doc docs),
      (''registry/executor-bindings.yaml'', executor_bindings_doc docs)]
     @ (if truthy (semantic_types_doc docs)
        then [(''registry/semantic-types.yaml'', semantic_types_doc docs)] else [])"

end
