(* ===== verification/Derivation.thy ===== *)
theory Derivation
  imports Contracts
begin

text \<open>
  \<open>semantic_planning/derivation.py\<close>: producer-to-consumer data edges computed from the
  registry documents alone.  The documents are raw values, so every \<open>isinstance\<close> test
  of the code is a branch here and iterating over a scalar raises.

  The view is characterised exactly (which edge appears when), its diagnostics are shown to
  cover every input the registry leaves open, and the view is shown not to depend on the
  order in which capabilities are listed.
\<close>

section \<open>The view\<close>

datatype derived_edge = DerivedDataEdge
  (edge_consumer: string) (edge_input: string) (edge_producer: string) (edge_output: string)
  (edge_fact_type: string) (edge_field: string) (edge_semantic_type: string)

datatype diagnostic = DerivationDiagnostic
  (diag_kind: string) (diag_consumer: string) (diag_input: string) (diag_fact_type: string)
  (diag_semantic_type: string) (diag_candidate_kind: string) (diag_candidates: "string list")

definition edge_key where
  "edge_key e = (edge_consumer e, edge_input e, edge_producer e, edge_output e,
     edge_fact_type e, edge_field e, edge_semantic_type e)"

definition diag_key where
  "diag_key d = (diag_kind d, diag_consumer d, diag_input d, diag_fact_type d,
     diag_semantic_type d, diag_candidate_kind d, diag_candidates d)"

lemma edge_key_inj: "edge_key e = edge_key f \<longleftrightarrow> e = f"
  by (cases e; cases f) (simp add: edge_key_def)

lemma diag_key_inj: "diag_key d = diag_key e \<longleftrightarrow> d = e"
  by (cases d; cases e) (simp add: diag_key_def)

instantiation derived_edge :: linorder
begin

definition less_eq_derived_edge :: "derived_edge \<Rightarrow> derived_edge \<Rightarrow> bool" where
  "less_eq_derived_edge e f \<longleftrightarrow> edge_key e \<le> edge_key f"

definition less_derived_edge :: "derived_edge \<Rightarrow> derived_edge \<Rightarrow> bool" where
  "less_derived_edge e f \<longleftrightarrow> edge_key e < edge_key f"

instance
proof
  fix e f g :: derived_edge
  show "e < f \<longleftrightarrow> e \<le> f \<and> \<not> f \<le> e"
    unfolding less_eq_derived_edge_def less_derived_edge_def by (rule less_le_not_le)
  show "e \<le> e" unfolding less_eq_derived_edge_def by (rule order_refl)
  show "e \<le> f \<Longrightarrow> f \<le> g \<Longrightarrow> e \<le> g"
    unfolding less_eq_derived_edge_def by (rule order_trans)
  show "e \<le> f \<Longrightarrow> f \<le> e \<Longrightarrow> e = f"
    unfolding less_eq_derived_edge_def by (metis edge_key_inj order_antisym)
  show "e \<le> f \<or> f \<le> e"
    unfolding less_eq_derived_edge_def by (rule linear)
qed

end

instantiation diagnostic :: linorder
begin

definition less_eq_diagnostic :: "diagnostic \<Rightarrow> diagnostic \<Rightarrow> bool" where
  "less_eq_diagnostic d e \<longleftrightarrow> diag_key d \<le> diag_key e"

definition less_diagnostic :: "diagnostic \<Rightarrow> diagnostic \<Rightarrow> bool" where
  "less_diagnostic d e \<longleftrightarrow> diag_key d < diag_key e"

instance
proof
  fix e f g :: diagnostic
  show "e < f \<longleftrightarrow> e \<le> f \<and> \<not> f \<le> e"
    unfolding less_eq_diagnostic_def less_diagnostic_def by (rule less_le_not_le)
  show "e \<le> e" unfolding less_eq_diagnostic_def by (rule order_refl)
  show "e \<le> f \<Longrightarrow> f \<le> g \<Longrightarrow> e \<le> g"
    unfolding less_eq_diagnostic_def by (rule order_trans)
  show "e \<le> f \<Longrightarrow> f \<le> e \<Longrightarrow> e = f"
    unfolding less_eq_diagnostic_def by (metis diag_key_inj order_antisym)
  show "e \<le> f \<or> f \<le> e"
    unfolding less_eq_diagnostic_def by (rule linear)
qed

end

record derived_view =
  view_edges :: "derived_edge list"
  view_diagnostics :: "diagnostic list"

definition relation_id :: "derived_edge \<Rightarrow> string" where
  "relation_id e = ''derived.dependsOn.'' @ edge_consumer e @ ''~'' @ edge_producer e"

definition edge_to_dict :: "derived_edge \<Rightarrow> json" where
  "edge_to_dict e = JObj
     [(''relationId'', JStr (relation_id e)),
      (''consumerCapabilityId'', JStr (edge_consumer e)),
      (''consumerInputName'', JStr (edge_input e)),
      (''producerCapabilityId'', JStr (edge_producer e)),
      (''producerOutputName'', JStr (edge_output e)),
      (''factTypeId'', JStr (edge_fact_type e)),
      (''factFieldName'', JStr (edge_field e)),
      (''semanticType'', JStr (edge_semantic_type e))]"

definition to_relation :: "derived_edge \<Rightarrow> json" where
  "to_relation e = JObj
     [(''relationId'', JStr (relation_id e)),
      (''relationType'', JStr ''dependsOn''),
      (''capabilityId'', JStr (edge_consumer e)),
      (''dependsOnCapabilityId'', JStr (edge_producer e)),
      (''origin'', JStr ''derived'')]"

definition diagnostic_to_dict :: "diagnostic \<Rightarrow> json" where
  "diagnostic_to_dict d = JObj
     [(''kind'', JStr (diag_kind d)),
      (''consumerCapabilityId'', JStr (diag_consumer d)),
      (''consumerInputName'', JStr (diag_input d)),
      (''factTypeId'', JStr (diag_fact_type d)),
      (''semanticType'', JStr (diag_semantic_type d)),
      (''candidateKind'', JStr (diag_candidate_kind d)),
      (''candidates'', JList (map JStr (diag_candidates d)))]"

definition view_to_dict :: "derived_view \<Rightarrow> json" where
  "view_to_dict v = JObj
     [(''edges'', JList (map edge_to_dict (view_edges v))),
      (''diagnostics'', JList (map diagnostic_to_dict (view_diagnostics v)))]"

text \<open>One relation for each relation id, the first edge's.\<close>

definition relations_dict :: "derived_edge list \<Rightarrow> (string \<times> json) list" where
  "relations_dict edges = fold (\<lambda>e. setdefault (relation_id e) (to_relation e)) edges []"

definition to_relations :: "derived_view \<Rightarrow> json list" where
  "to_relations v = map snd (relations_dict (view_edges v))"

section \<open>Deriving\<close>

definition fact_type_index :: "source_documents \<Rightarrow> (string \<times> json) list" where
  "fact_type_index docs =
     dict_of (concat (map (\<lambda>ft. if is_mapping ft then
                                  (case str_of (jget ft ''factTypeId'') of
                                     Some i \<Rightarrow> [(i, ft)] | None \<Rightarrow> [])
                                else [])
                          (items (fact_types_doc docs) ''factTypes'')))"

definition active_capabilities :: "source_documents \<Rightarrow> json list" where
  "active_capabilities docs =
     filter (\<lambda>c. is_mapping c \<and> jget c ''status'' = JStr ''active'')
       (items (capabilities_doc docs) ''capabilities'')"

definition producer_output :: "string \<Rightarrow> json \<Rightarrow> ((string \<times> string) \<times> (string \<times> string)) list" where
  "producer_output capability_id output =
     (if \<not> is_mapping output then []
      else (case (str_of (jget output ''factTypeRef''), str_of (jget output ''name''),
                  str_of (jget output ''semanticType'')) of
              (Some fact_type_ref, Some name, Some semantic_type) \<Rightarrow>
                [((fact_type_ref, semantic_type), (capability_id, name))]
            | _ \<Rightarrow> []))"

definition producer_entries ::
    "json \<Rightarrow> ((string \<times> string) \<times> (string \<times> string)) list result" where
  "producer_entries capability =
     (case str_of (jget capability ''capabilityId'') of
        None \<Rightarrow> Inr []
      | Some capability_id \<Rightarrow>
          rbind (iter_or_empty (jget capability ''outputs''))
            (\<lambda>outputs. Inr (concat (map (producer_output capability_id) outputs))))"

definition producers_by_fact_type_and_semantic_type ::
    "json list \<Rightarrow> ((string \<times> string) \<times> (string \<times> string) list) list result" where
  "producers_by_fact_type_and_semantic_type capabilities =
     rbind (collectM producer_entries capabilities)
       (\<lambda>entries. Inr (map (\<lambda>(key, value). (key, sort value)) (group_by entries)))"

definition fields_with_cardinality :: "json list \<Rightarrow> string \<Rightarrow> string \<Rightarrow> string list" where
  "fields_with_cardinality field_list semantic_type cardinality =
     concat (map (\<lambda>field.
       if \<not> is_mapping field then []
       else (case str_of (jget field ''name'') of
               None \<Rightarrow> []
             | Some name \<Rightarrow>
                 if jget field ''semanticType'' = JStr semantic_type
                    \<and> jget field ''cardinality'' = JStr cardinality
                 then [name] else [])) field_list)"

definition matching_fields :: "json \<Rightarrow> string \<Rightarrow> (string list \<times> string list) result" where
  "matching_fields fact_type semantic_type =
     rbind (iter_or_empty (jget fact_type ''fields''))
       (\<lambda>field_list. Inr (fields_with_cardinality field_list semantic_type ''one'',
                          fields_with_cardinality field_list semantic_type ''many''))"

text \<open>What one iteration appends: an edge, a diagnostic, or nothing.\<close>

datatype derivation = Derived derived_edge | Undecided diagnostic

definition derive_decision ::
    "((string \<times> string) \<times> (string \<times> string) list) list \<Rightarrow> string \<Rightarrow> string \<Rightarrow> string \<Rightarrow> string
     \<Rightarrow> string list \<Rightarrow> string list \<Rightarrow> derivation list" where
  "derive_decision producers consumer_id input_name fact_type_id semantic_type
       scalar_fields list_fields =
     (if length scalar_fields > 1 then
        [Undecided (DerivationDiagnostic ''ambiguous'' consumer_id input_name fact_type_id
           semantic_type ''field'' scalar_fields)]
      else (case scalar_fields of
        [] \<Rightarrow>
          (if list_fields \<noteq> [] then
             [Undecided (DerivationDiagnostic ''needsReduction'' consumer_id input_name
                fact_type_id semantic_type ''field'' list_fields)]
           else [])
      | field # _ \<Rightarrow>
          (let candidates = filter (\<lambda>candidate. fst candidate \<noteq> consumer_id)
                              (group_get producers (fact_type_id, semantic_type))
           in if candidates = [] then []
              else if length candidates > 1 then
                [Undecided (DerivationDiagnostic ''ambiguous'' consumer_id input_name fact_type_id
                   semantic_type ''producerOutput''
                   (sort (map (\<lambda>(cap, output). cap @ ''.'' @ output) candidates)))]
              else
                [Derived (DerivedDataEdge consumer_id input_name (fst (hd candidates))
                   (snd (hd candidates)) fact_type_id field semantic_type)])))"

definition derive_input ::
    "(string \<times> json) list \<Rightarrow> ((string \<times> string) \<times> (string \<times> string) list) list \<Rightarrow> string
     \<Rightarrow> json \<Rightarrow> derivation list result" where
  "derive_input fact_types producers consumer_id input_field =
     (if \<not> is_mapping input_field then Inr []
      else (case (str_of (jget input_field ''satisfiableByFactType''),
                  str_of (jget input_field ''name''),
                  str_of (jget input_field ''semanticType'')) of
              (Some fact_type_id, Some input_name, Some semantic_type) \<Rightarrow>
                (case map_of fact_types fact_type_id of
                   None \<Rightarrow> Inr []
                 | Some fact_type \<Rightarrow>
                     rbind (matching_fields fact_type semantic_type)
                       (\<lambda>(scalar_fields, list_fields).
                          Inr (derive_decision producers consumer_id input_name fact_type_id
                                 semantic_type scalar_fields list_fields)))
            | _ \<Rightarrow> Inr []))"

definition derive_capability ::
    "(string \<times> json) list \<Rightarrow> ((string \<times> string) \<times> (string \<times> string) list) list
     \<Rightarrow> json \<Rightarrow> derivation list result" where
  "derive_capability fact_types producers capability =
     (case str_of (jget capability ''capabilityId'') of
        None \<Rightarrow> Inr []
      | Some consumer_id \<Rightarrow>
          rbind (iter_or_empty (jget capability ''inputs''))
            (collectM (derive_input fact_types producers consumer_id)))"

definition edges_of :: "derivation list \<Rightarrow> derived_edge list" where
  "edges_of ds = concat (map (\<lambda>d. case d of Derived e \<Rightarrow> [e] | Undecided _ \<Rightarrow> []) ds)"

definition diagnostics_of :: "derivation list \<Rightarrow> diagnostic list" where
  "diagnostics_of ds = concat (map (\<lambda>d. case d of Derived _ \<Rightarrow> [] | Undecided g \<Rightarrow> [g]) ds)"

definition derive_data_dependencies :: "source_documents \<Rightarrow> derived_view result" where
  "derive_data_dependencies docs =
     (let fact_types = fact_type_index docs; active = active_capabilities docs
      in rbind (producers_by_fact_type_and_semantic_type active)
           (\<lambda>producers. rbind (collectM (derive_capability fact_types producers) active)
              (\<lambda>ds. Inr \<lparr>view_edges = sort (edges_of ds),
                         view_diagnostics = sort (diagnostics_of ds)\<rparr>)))"


section \<open>What the documents declare\<close>

definition declares_input :: "source_documents \<Rightarrow> string \<Rightarrow> string \<Rightarrow> string \<Rightarrow> string \<Rightarrow> bool" where
  "declares_input docs consumer_id input_name fact_type_id semantic_type \<longleftrightarrow>
     (\<exists>cap \<in> set (active_capabilities docs). \<exists>inputs.
        jget cap ''capabilityId'' = JStr consumer_id \<and> jget cap ''inputs'' = JList inputs \<and>
        (\<exists>inp \<in> set inputs. is_mapping inp \<and>
           jget inp ''satisfiableByFactType'' = JStr fact_type_id \<and>
           jget inp ''name'' = JStr input_name \<and> jget inp ''semanticType'' = JStr semantic_type))"

definition publishes :: "source_documents \<Rightarrow> string \<Rightarrow> string \<Rightarrow> string \<Rightarrow> string \<Rightarrow> bool" where
  "publishes docs producer_id output_name fact_type_id semantic_type \<longleftrightarrow>
     (\<exists>cap \<in> set (active_capabilities docs). \<exists>outputs.
        jget cap ''capabilityId'' = JStr producer_id \<and> jget cap ''outputs'' = JList outputs \<and>
        (\<exists>out \<in> set outputs. is_mapping out \<and>
           jget out ''factTypeRef'' = JStr fact_type_id \<and>
           jget out ''name'' = JStr output_name \<and> jget out ''semanticType'' = JStr semantic_type))"

section \<open>The producer index\<close>

lemma group_get_map_values:
  "f [] = [] \<Longrightarrow> group_get (map (\<lambda>(k, v). (k, f v)) d) key = f (group_get d key)"
  by (induction d) (auto simp: group_get_def split: option.splits)

lemma producers_index_get:
  assumes "producers_by_fact_type_and_semantic_type caps = Inr ps"
  shows "\<exists>entries. collectM producer_entries caps = Inr entries \<and>
    (\<forall>key. group_get ps key = sort (map snd (filter (\<lambda>e. fst e = key) entries)))"
proof -
  from assms obtain entries where e: "collectM producer_entries caps = Inr entries"
    and ps: "ps = map (\<lambda>(key, value). (key, sort value)) (group_by entries)"
    by (auto simp: producers_by_fact_type_and_semantic_type_def result_simps)
  then show ?thesis by (simp add: group_get_map_values dict_simps)
qed

lemma producer_output_mem:
  "((f, st), (p, out)) \<in> set (producer_output c output) \<longleftrightarrow>
     c = p \<and> is_mapping output \<and> jget output ''factTypeRef'' = JStr f \<and>
     jget output ''name'' = JStr out \<and> jget output ''semanticType'' = JStr st"
  by (auto simp: producer_output_def split: option.splits)

lemma producer_entries_mem:
  assumes "producer_entries cap = Inr es"
  shows "((f, st), (p, out)) \<in> set es \<longleftrightarrow>
     (\<exists>outputs. jget cap ''capabilityId'' = JStr p \<and> jget cap ''outputs'' = JList outputs \<and>
        (\<exists>o' \<in> set outputs. is_mapping o' \<and> jget o' ''factTypeRef'' = JStr f \<and>
           jget o' ''name'' = JStr out \<and> jget o' ''semanticType'' = JStr st))"
proof (cases "str_of (jget cap ''capabilityId'')")
  case None
  then show ?thesis using assms by (auto simp: producer_entries_def)
next
  case (Some c)
  with assms obtain outputs where o: "iter_or_empty (jget cap ''outputs'') = Inr outputs"
    and es: "es = concat (map (producer_output c) outputs)"
    by (auto simp: producer_entries_def result_simps)
  have "is_mapping x \<Longrightarrow> x \<in> set outputs \<Longrightarrow> jget cap ''outputs'' = JList outputs" for x
    using iter_or_empty_mapping [OF o] by blast
  then show ?thesis using Some o
    by (auto simp: es producer_output_mem)
qed

lemma publishes_iff_entry:
  assumes "collectM producer_entries (active_capabilities docs) = Inr entries"
  shows "((f, st), (p, out)) \<in> set entries \<longleftrightarrow> publishes docs p out f st"
proof
  assume "((f, st), (p, out)) \<in> set entries"
  then show "publishes docs p out f st"
    using collectM_member [OF assms] by (fastforce simp: producer_entries_mem publishes_def)
next
  assume "publishes docs p out f st"
  then obtain cap outputs where cap: "cap \<in> set (active_capabilities docs)"
    and d: "jget cap ''capabilityId'' = JStr p" "jget cap ''outputs'' = JList outputs"
      "\<exists>o' \<in> set outputs. is_mapping o' \<and> jget o' ''factTypeRef'' = JStr f \<and>
         jget o' ''name'' = JStr out \<and> jget o' ''semanticType'' = JStr st"
    unfolding publishes_def by blast
  obtain es where es: "producer_entries cap = Inr es" "set es \<subseteq> set entries"
    using collectM_ok [OF assms cap] by blast
  with d show "((f, st), (p, out)) \<in> set entries"
    using producer_entries_mem [OF es(1), of f st p out] by blast
qed

lemma producers_index_mem:
  assumes "producers_by_fact_type_and_semantic_type (active_capabilities docs) = Inr ps"
  shows "(p, out) \<in> set (group_get ps (f, st)) \<longleftrightarrow> publishes docs p out f st"
proof -
  from producers_index_get [OF assms] obtain entries
    where e: "collectM producer_entries (active_capabilities docs) = Inr entries"
    and get: "\<forall>key. group_get ps key = sort (map snd (filter (\<lambda>e. fst e = key) entries))"
    by blast
  have "(p, out) \<in> set (group_get ps (f, st)) \<longleftrightarrow> ((f, st), (p, out)) \<in> set entries"
    by (force simp: get)
  then show ?thesis by (simp add: publishes_iff_entry [OF e])
qed

section \<open>Decisions\<close>

lemma Derived_decision:
  "Derived e \<in> set (derive_decision producers c i f st scalars many) \<longleftrightarrow>
     (\<exists>field p out. scalars = [field] \<and>
        filter (\<lambda>x. fst x \<noteq> c) (group_get producers (f, st)) = [(p, out)] \<and>
        e = DerivedDataEdge c i p out f field st)"
proof (cases scalars)
  case (Cons field rest)
  then show ?thesis
    by (cases "filter (\<lambda>x. fst x \<noteq> c) (group_get producers (f, st))")
       (auto simp: derive_decision_def Let_def)
qed (simp add: derive_decision_def)

lemma Undecided_decision:
  assumes "Undecided d \<in> set (derive_decision producers c i f st scalars many)"
  shows "diag_consumer d = c \<and> diag_input d = i \<and> diag_fact_type d = f \<and> diag_semantic_type d = st \<and>
    (diag_kind d = ''ambiguous'' \<and> 1 < length (diag_candidates d) \<or>
     diag_kind d = ''needsReduction'' \<and> diag_candidates d = many \<and> many \<noteq> [] \<and> scalars = [])"
  using assms
  by (auto simp: derive_decision_def Let_def split: list.splits if_splits)

lemma decision_cases:
  obtains (edge) e where "Derived e \<in> set (derive_decision producers c i f st scalars many)"
  | (diag) d where "Undecided d \<in> set (derive_decision producers c i f st scalars many)"
  | (no_field) "scalars = []" "many = []"
  | (no_producer) field where "scalars = [field]"
      "filter (\<lambda>x. fst x \<noteq> c) (group_get producers (f, st)) = []"
proof (cases scalars)
  case Nil
  then show thesis using that
    by (cases "many = []") (auto simp: derive_decision_def)
next
  case (Cons field rest)
  show thesis
  proof (cases rest)
    case Nil
    let ?cands = "filter (\<lambda>x. fst x \<noteq> c) (group_get producers (f, st))"
    consider "?cands = []" | "length ?cands > 1" | "length ?cands = 1"
      by (cases ?cands rule: list.exhaust) force+
    then show thesis
    proof cases
      case 1
      with Nil Cons that(4) show thesis by simp
    next
      case 2
      then have "?cands \<noteq> []" by auto
      with 2 Nil Cons that(2) show thesis by (simp add: derive_decision_def Let_def)
    next
      case 3
      then have "?cands \<noteq> []" by auto
      with 3 Nil Cons that(1) show thesis by (simp add: derive_decision_def Let_def)
    qed
  next
    case (Cons field' rest')
    with \<open>scalars = field # rest\<close> that(2) show thesis by (simp add: derive_decision_def)
  qed
qed

lemma edges_of_mem [simp]: "e \<in> set (edges_of ds) \<longleftrightarrow> Derived e \<in> set ds"
  by (force simp: edges_of_def split: derivation.splits)

lemma diagnostics_of_mem [simp]: "d \<in> set (diagnostics_of ds) \<longleftrightarrow> Undecided d \<in> set ds"
  by (force simp: diagnostics_of_def split: derivation.splits)

text \<open>Every appended item is the decision of one declared input, and every declared input is decided.\<close>

lemma derive_input_mem:
  assumes "derive_input fts ps c inp = Inr ds" and "x \<in> set ds"
  obtains f i st ft scalars many where "is_mapping inp"
    and "jget inp ''satisfiableByFactType'' = JStr f" and "jget inp ''name'' = JStr i"
    and "jget inp ''semanticType'' = JStr st" and "map_of fts f = Some ft"
    and "matching_fields ft st = Inr (scalars, many)"
    and "x \<in> set (derive_decision ps c i f st scalars many)"
  using assms
  by (auto simp: derive_input_def result_simps split: if_splits option.splits)

lemma derive_input_declared:
  assumes "derive_input fts ps c inp = Inr ds" and "is_mapping inp"
    and "jget inp ''satisfiableByFactType'' = JStr f" and "jget inp ''name'' = JStr i"
    and "jget inp ''semanticType'' = JStr st" and "map_of fts f = Some ft"
  shows "\<exists>scalars many. matching_fields ft st = Inr (scalars, many) \<and>
    ds = derive_decision ps c i f st scalars many"
  using assms by (auto simp: derive_input_def result_simps)

lemma derivation_item:
  assumes "collectM (derive_capability fts ps) (active_capabilities docs) = Inr ds" and "x \<in> set ds"
  obtains c i f st ft scalars many where "declares_input docs c i f st"
    and "map_of fts f = Some ft" and "matching_fields ft st = Inr (scalars, many)"
    and "x \<in> set (derive_decision ps c i f st scalars many)"
proof -
  obtain cap zs where cap: "cap \<in> set (active_capabilities docs)"
      and zs: "derive_capability fts ps cap = Inr zs" "x \<in> set zs"
    using collectM_member [OF assms(1), of x] assms(2) by blast
  then obtain c inputs where c: "jget cap ''capabilityId'' = JStr c"
      and inputs: "iter_or_empty (jget cap ''inputs'') = Inr inputs"
      and coll: "collectM (derive_input fts ps c) inputs = Inr zs"
    by (auto simp: derive_capability_def result_simps split: option.splits)
  obtain inp ds' where inp: "inp \<in> set inputs" "derive_input fts ps c inp = Inr ds'" "x \<in> set ds'"
    using collectM_member [OF coll, of x] zs(2) by blast
  from inp(2,3) obtain f i st ft scalars many where m: "is_mapping inp"
    "jget inp ''satisfiableByFactType'' = JStr f" "jget inp ''name'' = JStr i"
    "jget inp ''semanticType'' = JStr st" "map_of fts f = Some ft"
    "matching_fields ft st = Inr (scalars, many)"
    "x \<in> set (derive_decision ps c i f st scalars many)"
    by (rule derive_input_mem)
  have "jget cap ''inputs'' = JList inputs"
    using inputs inp(1) m(1) by (rule iter_or_empty_mapping)
  with cap c inp(1) m have "declares_input docs c i f st"
    unfolding declares_input_def by blast
  with m show thesis by (rule_tac that)
qed

lemma derivation_declared:
  assumes "collectM (derive_capability fts ps) (active_capabilities docs) = Inr ds"
    and "declares_input docs c i f st" and "map_of fts f = Some ft"
  shows "\<exists>scalars many. matching_fields ft st = Inr (scalars, many) \<and>
    set (derive_decision ps c i f st scalars many) \<subseteq> set ds"
proof -
  from assms(2) obtain cap inputs inp where cap: "cap \<in> set (active_capabilities docs)"
    and d: "jget cap ''capabilityId'' = JStr c" "jget cap ''inputs'' = JList inputs"
    and inp: "inp \<in> set inputs" "is_mapping inp" "jget inp ''satisfiableByFactType'' = JStr f"
      "jget inp ''name'' = JStr i" "jget inp ''semanticType'' = JStr st"
    unfolding declares_input_def by blast
  obtain zs where zs: "derive_capability fts ps cap = Inr zs" "set zs \<subseteq> set ds"
    using collectM_ok [OF assms(1) cap] by blast
  with d have coll: "collectM (derive_input fts ps c) inputs = Inr zs"
    by (simp add: derive_capability_def)
  obtain ds' where ds': "derive_input fts ps c inp = Inr ds'" "set ds' \<subseteq> set zs"
    using collectM_ok [OF coll inp(1)] by blast
  from derive_input_declared [OF ds'(1) inp(2-5) assms(3)] ds'(2) zs(2) show ?thesis by blast
qed

lemma derive_stages:
  assumes "derive_data_dependencies docs = Inr v"
  obtains ps ds where "producers_by_fact_type_and_semantic_type (active_capabilities docs) = Inr ps"
    and "collectM (derive_capability (fact_type_index docs) ps) (active_capabilities docs) = Inr ds"
    and "view_edges v = sort (edges_of ds)" and "view_diagnostics v = sort (diagnostics_of ds)"
  using assms by (auto simp: derive_data_dependencies_def Let_def result_simps)


section \<open>Properties of the view\<close>

text \<open>
  C12: every derived edge is justified by the documents: its consumer is an active capability
  that declares the input as satisfiable by the fact type, the fact type has exactly one
  scalar field of the input's semantic type, the producer is another active capability that
  publishes an output of that fact and semantic type, and no third capability publishes one.
\<close>

theorem derived_edge_sound:
  assumes "derive_data_dependencies docs = Inr v" and "e \<in> set (view_edges v)"
  shows "declares_input docs (edge_consumer e) (edge_input e) (edge_fact_type e) (edge_semantic_type e)
    \<and> (\<exists>ft many. map_of (fact_type_index docs) (edge_fact_type e) = Some ft
          \<and> matching_fields ft (edge_semantic_type e) = Inr ([edge_field e], many))
    \<and> publishes docs (edge_producer e) (edge_output e) (edge_fact_type e) (edge_semantic_type e)
    \<and> edge_producer e \<noteq> edge_consumer e
    \<and> (\<forall>p out. publishes docs p out (edge_fact_type e) (edge_semantic_type e) \<longrightarrow>
          p = edge_consumer e \<or> p = edge_producer e \<and> out = edge_output e)"
proof -
  from assms(1) obtain ps ds
    where ps: "producers_by_fact_type_and_semantic_type (active_capabilities docs) = Inr ps"
    and ds: "collectM (derive_capability (fact_type_index docs) ps) (active_capabilities docs) = Inr ds"
    and v: "view_edges v = sort (edges_of ds)"
    by (rule derive_stages)
  from assms(2) v have "Derived e \<in> set ds" by simp
  with ds obtain c i f st ft scalars many where decl: "declares_input docs c i f st"
    and ft: "map_of (fact_type_index docs) f = Some ft" "matching_fields ft st = Inr (scalars, many)"
    and "Derived e \<in> set (derive_decision ps c i f st scalars many)"
    by (rule derivation_item)
  from this(4) obtain field p out
    where sc: "scalars = [field]" and e: "e = DerivedDataEdge c i p out f field st"
    and cand: "filter (\<lambda>x. fst x \<noteq> c) (group_get ps (f, st)) = [(p, out)]"
    by (auto simp: Derived_decision)
  have mem: "(p', out') \<in> set (group_get ps (f, st)) \<and> p' \<noteq> c \<longleftrightarrow> p' = p \<and> out' = out" for p' out'
    using arg_cong [OF cand, of "\<lambda>xs. (p', out') \<in> set xs"] by simp
  have pub: "publishes docs p out f st" "p \<noteq> c"
    using mem [of p out] by (auto simp: producers_index_mem [OF ps])
  have uniq: "\<forall>p' out'. publishes docs p' out' f st \<longrightarrow> p' = c \<or> p' = p \<and> out' = out"
    using mem by (auto simp: producers_index_mem [OF ps])
  show ?thesis using decl ft pub uniq by (simp add: e sc)
qed

text \<open>
  C27: nothing the registry declares is dropped silently.  For every declared input of a known
  fact type the view has an edge or a diagnostic for it, unless the fact type has no field of
  the input's semantic type at all, or no other active capability publishes such an output.
\<close>

theorem derived_view_exhaustive:
  assumes "derive_data_dependencies docs = Inr v"
    and "declares_input docs c i f st" and "map_of (fact_type_index docs) f = Some ft"
  shows "(\<exists>e \<in> set (view_edges v). edge_consumer e = c \<and> edge_input e = i \<and>
            edge_fact_type e = f \<and> edge_semantic_type e = st)
    \<or> (\<exists>d \<in> set (view_diagnostics v). diag_consumer d = c \<and> diag_input d = i \<and>
            diag_fact_type d = f \<and> diag_semantic_type d = st)
    \<or> matching_fields ft st = Inr ([], [])
    \<or> (\<forall>p out. publishes docs p out f st \<longrightarrow> p = c)"
proof -
  from assms(1) obtain ps ds
    where ps: "producers_by_fact_type_and_semantic_type (active_capabilities docs) = Inr ps"
    and ds: "collectM (derive_capability (fact_type_index docs) ps) (active_capabilities docs) = Inr ds"
    and v: "view_edges v = sort (edges_of ds)" "view_diagnostics v = sort (diagnostics_of ds)"
    by (rule derive_stages)
  from derivation_declared [OF ds assms(2,3)] obtain scalars many
    where m: "matching_fields ft st = Inr (scalars, many)"
    and sub: "set (derive_decision ps c i f st scalars many) \<subseteq> set ds"
    by blast
  show ?thesis
  proof (cases rule: decision_cases [of ps c i f st scalars many])
    case (edge e)
    with sub v have "e \<in> set (view_edges v)" by auto
    then show ?thesis using edge by (force simp: Derived_decision)
  next
    case (diag d)
    with sub v have "d \<in> set (view_diagnostics v)" by auto
    then show ?thesis using Undecided_decision [OF diag] by blast
  next
    case no_field
    with m show ?thesis by simp
  next
    case (no_producer field)
    then have "\<forall>p out. publishes docs p out f st \<longrightarrow> p = c"
      by (auto simp: filter_empty_conv producers_index_mem [OF ps, symmetric])
    then show ?thesis by blast
  qed
qed

text \<open>
  A diagnostic never picks: an ambiguity names at least two candidates, a needed
  reduction names the list-valued fields of a fact type that has no scalar one, and each
  belongs to an input some active capability declares.
\<close>

theorem diagnostics_undecided:
  assumes "derive_data_dependencies docs = Inr v" and "d \<in> set (view_diagnostics v)"
  shows "declares_input docs (diag_consumer d) (diag_input d) (diag_fact_type d) (diag_semantic_type d)
    \<and> (diag_kind d = ''ambiguous'' \<and> 2 \<le> length (diag_candidates d)
       \<or> diag_kind d = ''needsReduction'' \<and> diag_candidates d \<noteq> [] \<and>
         (\<exists>ft. map_of (fact_type_index docs) (diag_fact_type d) = Some ft \<and>
               matching_fields ft (diag_semantic_type d) = Inr ([], diag_candidates d)))"
proof -
  from assms(1) obtain ps ds
    where ds: "collectM (derive_capability (fact_type_index docs) ps) (active_capabilities docs) = Inr ds"
    and v: "view_diagnostics v = sort (diagnostics_of ds)"
    by (rule derive_stages)
  from assms(2) v have "Undecided d \<in> set ds" by simp
  with ds obtain c i f st ft scalars many where decl: "declares_input docs c i f st"
    and ft: "map_of (fact_type_index docs) f = Some ft" "matching_fields ft st = Inr (scalars, many)"
    and d: "Undecided d \<in> set (derive_decision ps c i f st scalars many)"
    by (rule derivation_item)
  from Undecided_decision [OF d] decl ft show ?thesis by auto
qed

lemma sort_groups_mset_cong:
  assumes "mset xs = mset ys"
  shows "sort (map snd (filter P xs)) = sort (map snd (filter P ys))"
proof (rule sort_mset_cong)
  have "mset (filter P xs) = mset (filter P ys)" using assms by simp
  then show "mset (map snd (filter P xs)) = mset (map snd (filter P ys))" by simp
qed

lemma derive_capability_cong:
  assumes "\<And>key. group_get ps key = group_get ps' key"
  shows "derive_capability fts ps = derive_capability fts ps'"
proof -
  have "derive_decision ps = derive_decision ps'"
    unfolding derive_decision_def [abs_def] using ext [of "group_get ps" "group_get ps'", OF assms]
    by (simp only:)
  then have "derive_input fts ps = derive_input fts ps'"
    unfolding derive_input_def [abs_def] by (simp only:)
  then show ?thesis unfolding derive_capability_def [abs_def] by (simp only:)
qed

lemma edges_of_mset: "mset ds = mset ds' \<Longrightarrow> sort (edges_of ds) = sort (edges_of ds')"
  unfolding edges_of_def
  by (rule sort_mset_cong) (rule concat_map_mset)

lemma diagnostics_of_mset:
  "mset ds = mset ds' \<Longrightarrow> sort (diagnostics_of ds) = sort (diagnostics_of ds')"
  unfolding diagnostics_of_def
  by (rule sort_mset_cong) (rule concat_map_mset)

text \<open>
  C28: the view depends on which capabilities the registry lists, not on their order: two
  registries with the same capability entries in different orders derive the same view.
\<close>

theorem derive_order_independent:
  assumes caps: "mset (items (capabilities_doc docs) ''capabilities'')
                   = mset (items (capabilities_doc docs') ''capabilities'')"
    and fts: "fact_types_doc docs = fact_types_doc docs'"
    and v: "derive_data_dependencies docs = Inr v"
  shows "derive_data_dependencies docs' = Inr v"
proof -
  have active: "mset (active_capabilities docs) = mset (active_capabilities docs')"
    using caps by (simp add: active_capabilities_def)
  have index: "fact_type_index docs' = fact_type_index docs"
    using fts by (simp add: fact_type_index_def)
  from v obtain ps ds
    where ps: "producers_by_fact_type_and_semantic_type (active_capabilities docs) = Inr ps"
    and ds: "collectM (derive_capability (fact_type_index docs) ps) (active_capabilities docs) = Inr ds"
    and view: "view_edges v = sort (edges_of ds)" "view_diagnostics v = sort (diagnostics_of ds)"
    by (rule derive_stages)
  from ps obtain es where es: "collectM producer_entries (active_capabilities docs) = Inr es"
    and get: "\<forall>key. group_get ps key = sort (map snd (filter (\<lambda>e. fst e = key) es))"
    using producers_index_get by blast
  from collectM_mset [OF active es] obtain es'
    where es': "collectM producer_entries (active_capabilities docs') = Inr es'" "mset es' = mset es"
    by blast
  then obtain ps' where ps': "producers_by_fact_type_and_semantic_type (active_capabilities docs') = Inr ps'"
    by (simp add: producers_by_fact_type_and_semantic_type_def)
  then have get': "\<forall>key. group_get ps' key = sort (map snd (filter (\<lambda>e. fst e = key) es'))"
    using producers_index_get [of "active_capabilities docs'" ps'] es'(1) by auto
  have "derive_capability (fact_type_index docs) ps' = derive_capability (fact_type_index docs) ps"
    by (rule derive_capability_cong) (simp only: get get' sort_groups_mset_cong [OF es'(2)])
  with collectM_mset [OF active ds] obtain ds'
    where ds': "collectM (derive_capability (fact_type_index docs') ps') (active_capabilities docs') = Inr ds'"
      "mset ds' = mset ds"
    by (auto simp: index)
  have "derive_data_dependencies docs' =
      Inr \<lparr>view_edges = sort (edges_of ds'), view_diagnostics = sort (diagnostics_of ds')\<rparr>"
    using ps' ds'(1) by (simp add: derive_data_dependencies_def Let_def)
  also have "\<dots> = Inr v"
    using view edges_of_mset [OF ds'(2)] diagnostics_of_mset [OF ds'(2)] by simp
  finally show ?thesis .
qed


text \<open>The relations rendered from the edges: one dictionary entry for each relation id.\<close>

lemma relations_dict_fold:
  "map_of (fold (\<lambda>e. setdefault (relation_id e) (to_relation e)) edges d) k =
     (case map_of d k of
        Some r \<Rightarrow> Some r
      | None \<Rightarrow> map_option to_relation (find (\<lambda>e. relation_id e = k) edges))"
  by (induction edges arbitrary: d) (auto simp: dict_simps split: option.splits)

lemma distinct_setdefault: "distinct (map fst d) \<Longrightarrow> distinct (map fst (setdefault k v d))"
  by (auto simp: setdefault_def map_of_eq_None_iff)

lemma relations_dict_distinct: "distinct (map fst (relations_dict edges))"
proof -
  have "distinct (map fst d) \<Longrightarrow>
      distinct (map fst (fold (\<lambda>e. setdefault (relation_id e) (to_relation e)) edges d))" for d
    by (induction edges arbitrary: d) (auto simp: distinct_setdefault)
  then show ?thesis by (simp add: relations_dict_def)
qed

lemma relations_dict_mem:
  "(k, r) \<in> set (relations_dict edges) \<longleftrightarrow>
     (\<exists>e. find (\<lambda>e. relation_id e = k) edges = Some e \<and> r = to_relation e)"
proof -
  have "(k, r) \<in> set (relations_dict edges) \<longleftrightarrow> map_of (relations_dict edges) k = Some r"
    using relations_dict_distinct by (metis map_of_eq_Some_iff)
  then show ?thesis by (auto simp: relations_dict_def relations_dict_fold)
qed

definition relation_pair :: "json \<Rightarrow> json \<times> json" where
  "relation_pair r = (jget r ''capabilityId'', jget r ''dependsOnCapabilityId'')"

lemma relation_pair_to_relation [simp]:
  "relation_pair (to_relation e) = (JStr (edge_consumer e), JStr (edge_producer e))"
  by (simp add: relation_pair_def to_relation_def)

lemma append_separator_inj:
  "c \<notin> set a \<Longrightarrow> c \<notin> set a' \<Longrightarrow> a @ c # b = a' @ c # b' \<Longrightarrow> a = a' \<and> b = b'"
  by (induction a arbitrary: a') (auto simp: Cons_eq_append_conv append_eq_Cons_conv)

lemma relation_id_inj:
  assumes "CHR ''~'' \<notin> set (edge_consumer e)" and "CHR ''~'' \<notin> set (edge_consumer e')"
  shows "relation_id e = relation_id e' \<longleftrightarrow>
    edge_consumer e = edge_consumer e' \<and> edge_producer e = edge_producer e'"
  using append_separator_inj [OF assms] by (auto simp: relation_id_def)

text \<open>
  Where no consumer id contains the separator, the view renders exactly one
  \<open>dependsOn\<close> relation for each (consumer, producer) pair of its edges, and no other.
\<close>

theorem to_relations_one_per_pair:
  assumes sep: "\<forall>e \<in> set (view_edges v). CHR ''~'' \<notin> set (edge_consumer e)"
  shows "distinct (map relation_pair (to_relations v))
    \<and> set (map relation_pair (to_relations v))
        = (\<lambda>e. (JStr (edge_consumer e), JStr (edge_producer e))) ` set (view_edges v)"
proof
  let ?es = "view_edges v" and ?d = "relations_dict (view_edges v)"
  have entry: "\<exists>e \<in> set ?es. k = relation_id e \<and> r = to_relation e" if "(k, r) \<in> set ?d" for k r
    using that by (auto simp: relations_dict_mem find_Some_iff)
  have "inj_on (\<lambda>kr. relation_pair (snd kr)) (set ?d)"
  proof (rule inj_onI)
    fix x y
    assume xy: "x \<in> set ?d" "y \<in> set ?d" and eq: "relation_pair (snd x) = relation_pair (snd y)"
    obtain e where e: "e \<in> set ?es" "fst x = relation_id e" "snd x = to_relation e"
      using entry [of "fst x" "snd x"] xy(1) by auto
    obtain f where f: "f \<in> set ?es" "fst y = relation_id f" "snd y = to_relation f"
      using entry [of "fst y" "snd y"] xy(2) by auto
    have "fst x = fst y" using eq sep e f by (simp add: relation_id_inj)
    with xy show "x = y" using relations_dict_distinct [of ?es]
      by (metis eq_key_imp_eq_value prod.collapse)
  qed
  moreover have "distinct ?d" using relations_dict_distinct [of ?es] by (simp add: distinct_map)
  ultimately show "distinct (map relation_pair (to_relations v))"
    by (simp add: to_relations_def distinct_map comp_def)
  show "set (map relation_pair (to_relations v)) =
      (\<lambda>e. (JStr (edge_consumer e), JStr (edge_producer e))) ` set ?es" (is "?l = ?r")
  proof
    show "?l \<subseteq> ?r"
    proof
      fix p
      assume "p \<in> ?l"
      then obtain k r where kr: "(k, r) \<in> set ?d" "p = relation_pair r" by (auto simp: to_relations_def)
      with entry obtain e where "e \<in> set ?es" "r = to_relation e" by blast
      with kr(2) show "p \<in> ?r" by auto
    qed
    show "?r \<subseteq> ?l"
    proof
      fix p
      assume "p \<in> ?r"
      then obtain e where e: "e \<in> set ?es" "p = relation_pair (to_relation e)" by auto
      then obtain f where f: "find (\<lambda>x. relation_id x = relation_id e) ?es = Some f"
        by (cases "find (\<lambda>x. relation_id x = relation_id e) ?es") (auto simp: find_None_iff)
      then have "f \<in> set ?es" "relation_id f = relation_id e" by (auto simp: find_Some_iff)
      with sep e have "relation_pair (to_relation f) = p" by (simp add: relation_id_inj)
      moreover have "(relation_id e, to_relation f) \<in> set ?d" using f by (auto simp: relations_dict_mem)
      ultimately show "p \<in> ?l" by (force simp: to_relations_def)
    qed
  qed
qed

section \<open>A registry to evaluate on\<close>

definition demo_input :: "string \<Rightarrow> string \<Rightarrow> json" where
  "demo_input name semantic_type = JObj
     [(''name'', JStr name), (''semanticType'', JStr semantic_type), (''bindingKind'', JStr ''identifier''),
      (''required'', JBool True), (''satisfiableByFactType'', JStr ''Mat'')]"

definition demo_output :: "string \<Rightarrow> string \<Rightarrow> json" where
  "demo_output name semantic_type = JObj
     [(''name'', JStr name), (''semanticType'', JStr semantic_type), (''factTypeRef'', JStr ''Mat'')]"

definition demo_field :: "string \<Rightarrow> string \<Rightarrow> json" where
  "demo_field name semantic_type = JObj
     [(''name'', JStr name), (''semanticType'', JStr semantic_type), (''cardinality'', JStr ''one'')]"

definition demo_capability :: "string \<Rightarrow> json list \<Rightarrow> json list \<Rightarrow> json" where
  "demo_capability capability_id inputs outputs = JObj
     [(''capabilityId'', JStr capability_id), (''status'', JStr ''active''),
      (''inputs'', JList inputs), (''outputs'', JList outputs)]"

definition demo_info :: json where
  "demo_info = demo_capability ''Info'' [] [demo_output ''unit'' ''Unit'']"

definition demo_draft :: json where
  "demo_draft = demo_capability ''Draft'' [demo_input ''uom'' ''Unit'', demo_input ''group'' ''Grp''] []"

definition demo_material :: json where
  "demo_material = JObj [(''factTypeId'', JStr ''Mat''),
     (''fields'', JList [demo_field ''unit'' ''Unit'', demo_field ''g1'' ''Grp'', demo_field ''g2'' ''Grp''])]"

definition demo_documents :: "json list \<Rightarrow> source_documents" where
  "demo_documents caps = \<lparr>
     capabilities_doc = JObj [(''capabilities'', JList caps)],
     executor_bindings_doc = JNull,
     fact_types_doc = JObj [(''factTypes'', JList [demo_material])],
     relations_doc = JNull, semantic_types_doc = JNull\<rparr>"

definition demo_view :: derived_view where
  "demo_view = \<lparr>
     view_edges = [DerivedDataEdge ''Draft'' ''uom'' ''Info'' ''unit'' ''Mat'' ''unit'' ''Unit''],
     view_diagnostics = [DerivationDiagnostic ''ambiguous'' ''Draft'' ''group'' ''Mat'' ''Grp'' ''field'' [''g1'', ''g2'']]\<rparr>"

lemma demo_derive: "derive_data_dependencies (demo_documents [demo_draft, demo_info]) = Inr demo_view"
  by code_simp


definition demo_edge :: derived_edge where
  "demo_edge = DerivedDataEdge ''Draft'' ''uom'' ''Info'' ''unit'' ''Mat'' ''unit'' ''Unit''"

definition demo_diagnostic :: diagnostic where
  "demo_diagnostic = DerivationDiagnostic ''ambiguous'' ''Draft'' ''group'' ''Mat'' ''Grp'' ''field'' [''g1'', ''g2'']"

lemma demo_view_edges: "view_edges demo_view = [demo_edge]"
  by (simp add: demo_view_def demo_edge_def)

lemma demo_view_diagnostics: "view_diagnostics demo_view = [demo_diagnostic]"
  by (simp add: demo_view_def demo_diagnostic_def)

lemma derived_edge_sound_witness:
  "publishes (demo_documents [demo_draft, demo_info]) ''Info'' ''unit'' ''Mat'' ''Unit''
   \<and> \<not> publishes (demo_documents [demo_draft, demo_info]) ''Other'' ''unit'' ''Mat'' ''Unit''"
  using derived_edge_sound [OF demo_derive, of demo_edge]
  by (auto simp: demo_view_edges demo_edge_def)

lemma demo_declares_uom:
  "declares_input (demo_documents [demo_draft, demo_info]) ''Draft'' ''uom'' ''Mat'' ''Unit''"
  by (simp add: declares_input_def active_capabilities_def items_def demo_documents_def
      demo_draft_def demo_info_def demo_capability_def demo_input_def)

lemma demo_publishes:
  "publishes (demo_documents [demo_draft, demo_info]) ''Info'' ''unit'' ''Mat'' ''Unit''"
  by (simp add: publishes_def active_capabilities_def items_def demo_documents_def
      demo_draft_def demo_info_def demo_capability_def demo_output_def)

lemma demo_material_index:
  "map_of (fact_type_index (demo_documents caps)) ''Mat'' = Some demo_material"
  by (simp add: fact_type_index_def demo_documents_def items_def demo_material_def dict_of_def)

lemma demo_matching_unit: "matching_fields demo_material ''Unit'' = Inr ([''unit''], [])"
  by code_simp

lemma derived_view_exhaustive_witness:
  "\<exists>e \<in> set (view_edges demo_view). edge_consumer e = ''Draft'' \<and> edge_input e = ''uom''"
proof -
  have "\<not> (\<exists>d \<in> set (view_diagnostics demo_view). diag_input d = ''uom'')"
    by (simp add: demo_view_diagnostics demo_diagnostic_def)
  moreover have "\<not> (\<forall>p out. publishes (demo_documents [demo_draft, demo_info]) p out ''Mat'' ''Unit'' \<longrightarrow> p = ''Draft'')"
    using demo_publishes by fastforce
  ultimately show ?thesis
    using derived_view_exhaustive [OF demo_derive demo_declares_uom demo_material_index]
    unfolding demo_matching_unit by auto
qed

lemma diagnostics_undecided_witness:
  "declares_input (demo_documents [demo_draft, demo_info]) ''Draft'' ''group'' ''Mat'' ''Grp''
   \<and> 2 \<le> length (diag_candidates demo_diagnostic)"
  using diagnostics_undecided [OF demo_derive, of demo_diagnostic]
  by (simp add: demo_view_diagnostics) (simp add: demo_diagnostic_def)

lemma derive_order_independent_witness:
  "derive_data_dependencies (demo_documents [demo_info, demo_draft]) = Inr demo_view"
  by (rule derive_order_independent [OF _ _ demo_derive]) (simp_all add: demo_documents_def items_def)

lemma to_relations_one_per_pair_witness:
  "set (map relation_pair (to_relations demo_view)) = {(JStr ''Draft'', JStr ''Info'')}"
proof -
  have "\<forall>e \<in> set (view_edges demo_view). CHR ''~'' \<notin> set (edge_consumer e)"
    by (simp add: demo_view_edges demo_edge_def)
  from to_relations_one_per_pair [OF this] show ?thesis
    by (simp add: demo_view_edges demo_edge_def)
qed

end
