(* ===== verification/Search.thy ===== *)
theory Search
  imports Prelude
begin

text \<open>
  Depth-first search with three colours, as \<open>_validate_dependency_cycles\<close> writes it: a
  recursive \<open>visit\<close> over the sorted targets of a node, a stack of the nodes being
  visited and their positions on it, and a report for every edge back into the stack.
  Python bounds the recursion; \<open>limit\<close> is the number of nested calls left, and using it
  up raises.

  The search reports nothing exactly when no cycle is reachable from the roots, and a limit of
  as many calls as there are nodes is never used up.
\<close>

record 'a dfs =
  colour :: "'a \<Rightarrow> nat"
  stack :: "'a list"
  position :: "'a \<Rightarrow> nat option"

definition dfs_start :: "'a dfs" where
  "dfs_start = \<lparr>colour = (\<lambda>_. 0), stack = [], position = (\<lambda>_. None)\<rparr>"

definition dfs_enter :: "'a \<Rightarrow> 'a dfs \<Rightarrow> 'a dfs" where
  "dfs_enter v s = s\<lparr>colour := (colour s)(v := 1), stack := stack s @ [v],
                     position := (position s)(v := Some (length (stack s)))\<rparr>"

definition dfs_leave :: "'a \<Rightarrow> 'a dfs \<Rightarrow> 'a dfs" where
  "dfs_leave v s = s\<lparr>colour := (colour s)(v := 2), stack := butlast (stack s),
                     position := (position s)(v := None)\<rparr>"

definition dfs_cycle :: "'a \<Rightarrow> 'a dfs \<Rightarrow> 'a list result" where
  "dfs_cycle t s = (case position s t of
     None \<Rightarrow> Inl (KeyError ''positions'') | Some i \<Rightarrow> Inr (drop i (stack s) @ [t]))"

definition recursion_error :: py_error where
  "recursion_error = RuntimeError ''maximum recursion depth exceeded''"

fun dfs_targets :: "nat \<Rightarrow> ('a \<Rightarrow> ('a \<times> 'b) list) \<Rightarrow> ('a list \<Rightarrow> 'b \<Rightarrow> 'r) \<Rightarrow> ('a \<times> 'b) list
    \<Rightarrow> 'a dfs \<Rightarrow> ('a dfs \<times> 'r list) result" where
  "dfs_targets limit succs report [] s = Inr (s, [])"
| "dfs_targets limit succs report ((t, l) # ts) s =
     rbind
       (if colour s t = 0 then
          (case limit of
             0 \<Rightarrow> Inl recursion_error
           | Suc n \<Rightarrow> rbind (dfs_targets n succs report (succs t) (dfs_enter t s))
                        (\<lambda>(s1, rs). Inr (dfs_leave t s1, rs)))
        else if colour s t = 1 then rbind (dfs_cycle t s) (\<lambda>c. Inr (s, [report c l]))
        else Inr (s, []))
       (\<lambda>(s1, rs1). rbind (dfs_targets limit succs report ts s1)
          (\<lambda>(s2, rs2). Inr (s2, rs1 @ rs2)))"

definition dfs_visit :: "nat \<Rightarrow> ('a \<Rightarrow> ('a \<times> 'b) list) \<Rightarrow> ('a list \<Rightarrow> 'b \<Rightarrow> 'r) \<Rightarrow> 'a
    \<Rightarrow> 'a dfs \<Rightarrow> ('a dfs \<times> 'r list) result" where
  "dfs_visit limit succs report v s =
     (case limit of
        0 \<Rightarrow> Inl recursion_error
      | Suc n \<Rightarrow> rbind (dfs_targets n succs report (succs v) (dfs_enter v s))
                   (\<lambda>(s1, rs). Inr (dfs_leave v s1, rs)))"

fun dfs_roots :: "nat \<Rightarrow> ('a \<Rightarrow> ('a \<times> 'b) list) \<Rightarrow> ('a list \<Rightarrow> 'b \<Rightarrow> 'r) \<Rightarrow> 'a list
    \<Rightarrow> 'a dfs \<Rightarrow> ('a dfs \<times> 'r list) result" where
  "dfs_roots limit succs report [] s = Inr (s, [])"
| "dfs_roots limit succs report (v # vs) s =
     rbind (if colour s v = 0 then dfs_visit limit succs report v s else Inr (s, []))
       (\<lambda>(s1, rs1). rbind (dfs_roots limit succs report vs s1)
          (\<lambda>(s2, rs2). Inr (s2, rs1 @ rs2)))"

section \<open>Invariants\<close>

definition edges :: "('a \<Rightarrow> ('a \<times> 'b) list) \<Rightarrow> ('a \<times> 'a) set" where
  "edges succs = {(v, t). t \<in> fst ` set (succs v)}"

definition dfs_inv :: "('a \<Rightarrow> ('a \<times> 'b) list) \<Rightarrow> 'a dfs \<Rightarrow> bool" where
  "dfs_inv succs s \<longleftrightarrow>
     (\<forall>v. colour s v \<in> {0, 1, 2}) \<and> distinct (stack s) \<and>
     (\<forall>v. colour s v = 1 \<longleftrightarrow> v \<in> set (stack s)) \<and>
     (\<forall>v i. position s v = Some i \<longleftrightarrow> i < length (stack s) \<and> stack s ! i = v) \<and>
     (\<forall>i. Suc i < length (stack s) \<longrightarrow> (stack s ! i, stack s ! Suc i) \<in> edges succs)"

text \<open>The finished nodes are closed under edges and have no cycle among them.\<close>

definition black :: "'a dfs \<Rightarrow> 'a set" where
  "black s = {v. colour s v = 2}"

definition black_ok :: "('a \<Rightarrow> ('a \<times> 'b) list) \<Rightarrow> 'a dfs \<Rightarrow> bool" where
  "black_ok succs s \<longleftrightarrow> edges succs `` black s \<subseteq> black s \<and> acyclic (Restr (edges succs) (black s))"

lemma dfs_inv_grey: "dfs_inv succs s \<Longrightarrow> v \<in> set (stack s) \<longleftrightarrow> colour s v = 1"
  by (simp add: dfs_inv_def)

lemma dfs_inv_colours: "dfs_inv succs s \<Longrightarrow> colour s v = 0 \<or> colour s v = 1 \<or> colour s v = 2"
  unfolding dfs_inv_def by blast

lemma dfs_inv_start: "dfs_inv succs dfs_start"
  by (simp add: dfs_inv_def dfs_start_def)

lemma black_ok_start: "black_ok succs dfs_start"
  by (simp add: black_ok_def black_def dfs_start_def acyclic_def)

lemma dfs_enter_inv:
  assumes inv: "dfs_inv succs s" and white: "colour s v = 0"
    and edge: "stack s \<noteq> [] \<Longrightarrow> (last (stack s), v) \<in> edges succs"
  shows "dfs_inv succs (dfs_enter v s)"
proof -
  let ?s = "dfs_enter v s"
  have fresh: "v \<notin> set (stack s)" using white by (simp add: dfs_inv_grey [OF inv])
  have pos: "position s v = None" using inv fresh
    by (cases "position s v") (auto simp: dfs_inv_def)
  have "position ?s w = Some i \<longleftrightarrow> i < length (stack ?s) \<and> stack ?s ! i = w" for w i
  proof (cases "w = v")
    case True
    then show ?thesis using fresh by (auto simp: dfs_enter_def nth_append less_Suc_eq)
  next
    case False
    then have "position ?s w = Some i \<longleftrightarrow> position s w = Some i" by (simp add: dfs_enter_def)
    also have "\<dots> \<longleftrightarrow> i < length (stack s) \<and> stack s ! i = w" using inv by (simp add: dfs_inv_def)
    finally show ?thesis using False by (auto simp: dfs_enter_def nth_append less_Suc_eq)
  qed
  moreover have "(stack ?s ! i, stack ?s ! Suc i) \<in> edges succs" if i: "Suc i < length (stack ?s)" for i
  proof (cases "Suc i < length (stack s)")
    case True
    then show ?thesis using inv by (simp add: dfs_inv_def dfs_enter_def nth_append)
  next
    case False
    with i have len: "length (stack s) = Suc i" by (simp add: dfs_enter_def)
    then have "stack s \<noteq> []" by auto
    moreover from this have "last (stack s) = stack s ! i" using len by (simp add: last_conv_nth)
    ultimately show ?thesis using edge len by (simp add: dfs_enter_def nth_append)
  qed
  moreover have "colour ?s w = 1 \<longleftrightarrow> w \<in> set (stack ?s)" for w
    using dfs_inv_grey [OF inv, of w] by (simp add: dfs_enter_def)
  moreover have "colour ?s w \<in> {0, 1, 2}" for w
    using dfs_inv_colours [OF inv, of w] by (simp add: dfs_enter_def)
  moreover have "distinct (stack ?s)" using inv fresh by (simp add: dfs_enter_def dfs_inv_def)
  ultimately show ?thesis unfolding dfs_inv_def by blast
qed

lemma dfs_leave_inv:
  assumes inv: "dfs_inv succs s" and top: "stack s = st @ [v]"
  shows "dfs_inv succs (dfs_leave v s)"
proof -
  let ?s = "dfs_leave v s"
  have dist: "v \<notin> set st" "distinct st" using inv top by (auto simp: dfs_inv_def)
  have stack: "stack ?s = st" using top by (simp add: dfs_leave_def)
  have "position ?s w = Some i \<longleftrightarrow> i < length st \<and> st ! i = w" for w i
  proof (cases "w = v")
    case True
    then show ?thesis using dist by (auto simp: dfs_leave_def)
  next
    case False
    then have "position ?s w = Some i \<longleftrightarrow> position s w = Some i" by (simp add: dfs_leave_def)
    also have "\<dots> \<longleftrightarrow> i < length (stack s) \<and> stack s ! i = w" using inv by (simp add: dfs_inv_def)
    finally show ?thesis using False top by (auto simp: nth_append less_Suc_eq)
  qed
  moreover have "(st ! i, st ! Suc i) \<in> edges succs" if "Suc i < length st" for i
  proof -
    have "(stack s ! i, stack s ! Suc i) \<in> edges succs" using inv that top by (simp add: dfs_inv_def)
    then show ?thesis using that top by (simp add: nth_append)
  qed
  moreover have "colour ?s w = 1 \<longleftrightarrow> w \<in> set st" for w
    using inv top dist by (auto simp: dfs_inv_def dfs_leave_def)
  moreover have "colour ?s w \<in> {0, 1, 2}" for w
    using dfs_inv_colours [OF inv, of w] by (simp add: dfs_leave_def)
  ultimately show ?thesis using dist by (simp add: dfs_inv_def stack)
qed

lemma dfs_leave_black_ok:
  assumes ok: "black_ok succs s" and grey: "colour s v = 1"
    and finished: "\<forall>t \<in> fst ` set (succs v). colour s t = 2"
  shows "black_ok succs (dfs_leave v s)"
proof -
  let ?R = "edges succs" and ?B = "black s"
  have black: "black (dfs_leave v s) = insert v ?B" by (auto simp: black_def dfs_leave_def)
  have out: "?R `` {v} \<subseteq> ?B" using finished by (auto simp: edges_def black_def)
  have v: "v \<notin> ?B" using grey by (simp add: black_def)
  have closed: "?R `` ?B \<subseteq> ?B" and acyc: "acyclic (Restr ?R ?B)" using ok by (auto simp: black_ok_def)
  have "acyclic (Restr ?R (insert v ?B))"
    unfolding acyclic_def
  proof (intro allI notI)
    fix x
    assume cyc: "(x, x) \<in> (Restr ?R (insert v ?B))\<^sup>+"
    have stay: "b \<in> ?B \<and> (a, b) \<in> (Restr ?R ?B)\<^sup>+" if "(a, b) \<in> (Restr ?R (insert v ?B))\<^sup>+" "a \<in> ?B" for a b
      using that
    proof (induction rule: trancl_induct)
      case (base y)
      then show ?case using closed by blast
    next
      case (step y z)
      then have "y \<in> ?B" "(a, y) \<in> (Restr ?R ?B)\<^sup>+" by auto
      moreover have "(y, z) \<in> Restr ?R ?B" using step closed \<open>y \<in> ?B\<close> by blast
      ultimately show ?case by (meson IntD2 SigmaE2 trancl.trancl_into_trancl)
    qed
    show False
    proof (cases "x \<in> ?B")
      case True
      then show False using stay [OF cyc] acyc by (auto simp: acyclic_def)
    next
      case False
      from cyc obtain y where y: "(x, y) \<in> Restr ?R (insert v ?B)" "(y, x) \<in> (Restr ?R (insert v ?B))\<^sup>*"
        by (meson tranclD)
      with False have "x = v" by blast
      with y out have "y \<in> ?B" by blast
      with y(2) False have "(y, x) \<in> (Restr ?R (insert v ?B))\<^sup>+" by (metis rtranclD)
      with stay \<open>y \<in> ?B\<close> False show False by blast
    qed
  qed
  then show ?thesis using closed out by (auto simp: black_ok_def black)
qed


lemma stack_path:
  assumes "dfs_inv succs s" and "i \<le> j" and "j < length (stack s)"
  shows "(stack s ! i, stack s ! j) \<in> (edges succs)\<^sup>*"
  using assms(2,3)
proof (induction j rule: dec_induct)
  case (step j)
  then have "(stack s ! j, stack s ! Suc j) \<in> edges succs" using assms(1) by (simp add: dfs_inv_def)
  with step show ?case by (simp add: rtrancl.rtrancl_into_rtrancl)
qed simp

lemma back_edge_cycle:
  assumes inv: "dfs_inv succs s" and top: "stack s = st @ [v]" and grey: "colour s t = 1"
    and edge: "(v, t) \<in> edges succs"
  shows "\<not> acyclic (edges succs)"
proof -
  from grey have "t \<in> set (stack s)" by (simp add: dfs_inv_grey [OF inv])
  then obtain i where i: "i < length (stack s)" "stack s ! i = t" by (auto simp: in_set_conv_nth)
  have "(stack s ! i, stack s ! length st) \<in> (edges succs)\<^sup>*"
    using i top by (intro stack_path [OF inv]) auto
  then have "(t, v) \<in> (edges succs)\<^sup>*" using i top by simp
  then have "(t, t) \<in> (edges succs)\<^sup>+" using edge by (rule rtrancl_into_trancl1)
  then show ?thesis by (auto simp: acyclic_def)
qed

text \<open>What visiting the targets of the node on top of the stack does.\<close>

definition dfs_grows :: "'a dfs \<Rightarrow> 'a dfs \<Rightarrow> bool" where
  "dfs_grows s s' \<longleftrightarrow> stack s' = stack s \<and> (\<forall>w. colour s w \<noteq> 0 \<longrightarrow> colour s' w = colour s w)"

definition dfs_post :: "('a \<Rightarrow> ('a \<times> 'b) list) \<Rightarrow> 'a set \<Rightarrow> 'a dfs \<Rightarrow> 'a dfs \<Rightarrow> 'r list \<Rightarrow> bool" where
  "dfs_post succs ts s s' rs \<longleftrightarrow>
     dfs_inv succs s' \<and> dfs_grows s s' \<and>
     (rs = [] \<longrightarrow> black_ok succs s \<longrightarrow> black_ok succs s' \<and> (\<forall>t \<in> ts. colour s' t = 2)) \<and>
     (rs \<noteq> [] \<longrightarrow> \<not> acyclic (edges succs))"

lemma dfs_post_trans:
  "dfs_post succs ts s s1 rs \<Longrightarrow> dfs_post succs ts' s1 s2 rs' \<Longrightarrow>
   dfs_post succs (ts \<union> ts') s s2 (rs @ rs')"
  unfolding dfs_post_def dfs_grows_def by fastforce

lemma dfs_post_visit:
  assumes inv: "dfs_inv succs s" and white: "colour s t = 0"
    and inner: "dfs_post succs (fst ` set (succs t)) (dfs_enter t s) s1 rs"
  shows "dfs_post succs {t} s (dfs_leave t s1) rs"
proof -
  have s1: "dfs_inv succs s1" "stack s1 = stack s @ [t]" "colour s1 t = 1"
    "\<And>w. colour s w \<noteq> 0 \<Longrightarrow> colour s1 w = colour s w"
    using inner white by (auto simp: dfs_post_def dfs_grows_def dfs_enter_def)
  have "black (dfs_enter t s) = black s" using white by (auto simp: black_def dfs_enter_def)
  then have "black_ok succs (dfs_enter t s) = black_ok succs s" by (simp add: black_ok_def)
  then have "black_ok succs (dfs_leave t s1)" if "rs = []" "black_ok succs s"
    using that inner s1(3) by (intro dfs_leave_black_ok) (auto simp: dfs_post_def)
  moreover have "dfs_grows s (dfs_leave t s1)"
    using s1 white by (auto simp: dfs_grows_def dfs_leave_def)
  moreover have "colour (dfs_leave t s1) t = 2" by (simp add: dfs_leave_def)
  ultimately show ?thesis
    using dfs_leave_inv [OF s1(1,2)] inner by (simp add: dfs_post_def)
qed

lemma dfs_targets_post:
  "dfs_targets n succs report ts s = Inr (s', rs) \<Longrightarrow> dfs_inv succs s \<Longrightarrow> stack s = st @ [v] \<Longrightarrow>
   fst ` set ts \<subseteq> fst ` set (succs v) \<Longrightarrow> dfs_post succs (fst ` set ts) s s' rs"
proof (induction n succs report ts s arbitrary: s' rs st v rule: dfs_targets.induct)
  case (1 limit succs report s)
  then show ?case by (simp add: dfs_post_def dfs_grows_def)
next
  case (2 limit succs report t l ts s)
  from "2.prems"(1) obtain s1 rs1 s2 rs2
    where first: "(if colour s t = 0 then
          (case limit of
             0 \<Rightarrow> Inl recursion_error
           | Suc n \<Rightarrow> rbind (dfs_targets n succs report (succs t) (dfs_enter t s))
                        (\<lambda>(s1, rs). Inr (dfs_leave t s1, rs)))
        else if colour s t = 1 then rbind (dfs_cycle t s) (\<lambda>c. Inr (s, [report c l]))
        else Inr (s, [])) = Inr (s1, rs1)"
      and rest: "dfs_targets limit succs report ts s1 = Inr (s2, rs2)"
      and out: "s' = s2" "rs = rs1 @ rs2"
    by (auto simp: result_simps)
  have edge: "(v, t) \<in> edges succs" using "2.prems"(4) by (auto simp: edges_def)
  have one: "dfs_post succs {t} s s1 rs1"
  proof (cases "colour s t = 0")
    case True
    with first obtain n s0 where n: "limit = Suc n"
      and inner: "dfs_targets n succs report (succs t) (dfs_enter t s) = Inr (s0, rs1)"
      and s1: "s1 = dfs_leave t s0"
      by (auto simp: result_simps split: nat.splits)
    have "dfs_inv succs (dfs_enter t s)"
      using "2.prems"(2,3) True edge by (intro dfs_enter_inv) auto
    then have "dfs_post succs (fst ` set (succs t)) (dfs_enter t s) s0 rs1"
      using "2.IH"(1) [OF True n inner] by (simp add: dfs_enter_def)
    then show ?thesis unfolding s1 by (rule dfs_post_visit [OF "2.prems"(2) True])
  next
    case False
    show ?thesis
    proof (cases "colour s t = 1")
      case True
      with first False have "s1 = s" by (auto simp: result_simps)
      then show ?thesis
        using back_edge_cycle [OF "2.prems"(2,3) True edge] "2.prems"(2) first False True
        by (auto simp: dfs_post_def dfs_grows_def result_simps)
    next
      case black: False
      with first False have "s1 = s" "rs1 = []" by auto
      then show ?thesis using "2.prems"(2) dfs_inv_colours [OF "2.prems"(2), of t] False black
        by (auto simp: dfs_post_def dfs_grows_def)
    qed
  qed
  have "dfs_post succs (fst ` set ts) s1 s2 rs2"
    using one "2.prems"(3,4) rest first
    by (intro "2.IH"(2) [where st = st and v = v]) (auto simp: dfs_post_def dfs_grows_def)
  from dfs_post_trans [OF one this] show ?case by (simp add: out insert_is_Un [symmetric])
qed


section \<open>The search from the roots\<close>

lemma dfs_visit_post:
  assumes "dfs_visit limit succs report v s = Inr (s', rs)" and inv: "dfs_inv succs s"
    and white: "colour s v = 0" and empty: "stack s = []"
  shows "dfs_post succs {v} s s' rs"
proof -
  from assms(1) obtain n s0
    where inner: "dfs_targets n succs report (succs v) (dfs_enter v s) = Inr (s0, rs)"
      and s': "s' = dfs_leave v s0"
    by (auto simp: dfs_visit_def result_simps split: nat.splits)
  have "dfs_inv succs (dfs_enter v s)" using inv white empty by (intro dfs_enter_inv) auto
  then have "dfs_post succs (fst ` set (succs v)) (dfs_enter v s) s0 rs"
    using dfs_targets_post [OF inner, of "[]" v] empty by (simp add: dfs_enter_def)
  then show ?thesis unfolding s' by (rule dfs_post_visit [OF inv white])
qed

lemma dfs_post_refl:
  assumes "dfs_inv succs s" and "\<forall>t \<in> ts. colour s t = 2"
  shows "dfs_post succs ts s s []"
  using assms by (simp add: dfs_post_def dfs_grows_def)

lemma dfs_roots_post:
  "dfs_roots limit succs report vs s = Inr (s', rs) \<Longrightarrow> dfs_inv succs s \<Longrightarrow> stack s = [] \<Longrightarrow>
   dfs_post succs (set vs) s s' rs"
proof (induction vs arbitrary: s s' rs)
  case Nil
  then show ?case by (simp add: dfs_post_refl)
next
  case (Cons v vs)
  from Cons.prems(1) obtain s1 rs1 s2 rs2
    where first: "(if colour s v = 0 then dfs_visit limit succs report v s else Inr (s, [])) = Inr (s1, rs1)"
      and rest: "dfs_roots limit succs report vs s1 = Inr (s2, rs2)"
      and out: "s' = s2" "rs = rs1 @ rs2"
    by (auto simp: result_simps)
  have one: "dfs_post succs {v} s s1 rs1"
  proof (cases "colour s v = 0")
    case True
    with first show ?thesis using dfs_visit_post [OF _ Cons.prems(2) True Cons.prems(3)] by auto
  next
    case False
    then have "colour s v = 2"
      using dfs_inv_colours [OF Cons.prems(2), of v] dfs_inv_grey [OF Cons.prems(2), of v]
      by (simp add: Cons.prems(3))
    then show ?thesis using first False dfs_post_refl [OF Cons.prems(2), of "{v}"] by simp
  qed
  then have "dfs_inv succs s1" "stack s1 = []"
    using Cons.prems(3) by (auto simp: dfs_post_def dfs_grows_def)
  from dfs_post_trans [OF one Cons.IH [OF rest this]] show ?case
    by (simp add: out insert_is_Un [symmetric])
qed

text \<open>The search from every node reports nothing exactly when there is no cycle.\<close>

theorem dfs_acyclic_iff:
  assumes run: "dfs_roots limit succs report vs dfs_start = Inr (s', rs)"
    and closed: "edges succs \<subseteq> set vs \<times> set vs"
  shows "rs = [] \<longleftrightarrow> acyclic (edges succs)"
proof -
  have post: "dfs_post succs (set vs) dfs_start s' rs"
    by (rule dfs_roots_post [OF run dfs_inv_start]) (simp add: dfs_start_def)
  show ?thesis
  proof
    assume "rs = []"
    with post have ok: "black_ok succs s'" and "set vs \<subseteq> black s'"
      by (auto simp: dfs_post_def black_ok_start black_def)
    with closed have "Restr (edges succs) (black s') = edges succs" by blast
    with ok show "acyclic (edges succs)" by (simp add: black_ok_def)
  next
    assume "acyclic (edges succs)"
    with post show "rs = []" by (auto simp: dfs_post_def)
  qed
qed

section \<open>The recursion limit\<close>

definition white_count :: "'a set \<Rightarrow> 'a dfs \<Rightarrow> nat" where
  "white_count V s = card {v \<in> V. colour s v = 0}"

lemma white_count_grows: "finite V \<Longrightarrow> dfs_grows s s' \<Longrightarrow> white_count V s' \<le> white_count V s"
  unfolding white_count_def dfs_grows_def by (intro card_mono) auto

lemma white_count_enter:
  assumes "finite V" and "v \<in> V" and "colour s v = 0"
  shows "Suc (white_count V (dfs_enter v s)) = white_count V s"
proof -
  have "{w \<in> V. colour s w = 0} = insert v {w \<in> V. colour (dfs_enter v s) w = 0}"
    using assms by (auto simp: dfs_enter_def)
  then show ?thesis using assms(1) by (simp add: white_count_def dfs_enter_def)
qed

lemma dfs_cycle_total:
  assumes "dfs_inv succs s" and "colour s t = 1"
  shows "\<exists>c. dfs_cycle t s = Inr c"
proof -
  from assms have "t \<in> set (stack s)" by (simp add: dfs_inv_grey)
  then obtain i where "i < length (stack s)" "stack s ! i = t" by (auto simp: in_set_conv_nth)
  with assms(1) have "position s t = Some i" by (simp add: dfs_inv_def)
  then show ?thesis by (simp add: dfs_cycle_def)
qed

lemma dfs_targets_total:
  "finite V \<Longrightarrow> edges succs \<subseteq> V \<times> V \<Longrightarrow> dfs_inv succs s \<Longrightarrow> stack s = st @ [v] \<Longrightarrow>
   fst ` set ts \<subseteq> fst ` set (succs v) \<Longrightarrow> white_count V s \<le> n \<Longrightarrow>
   \<exists>r. dfs_targets n succs report ts s = Inr r"
proof (induction n succs report ts s arbitrary: st v rule: dfs_targets.induct)
  case (1 limit succs report s)
  then show ?case by simp
next
  case (2 limit succs report t l ts s)
  have edge: "(v, t) \<in> edges succs" using "2.prems"(5) by (auto simp: edges_def)
  then have t: "t \<in> V" using "2.prems"(2) by blast
  let ?first = "if colour s t = 0 then
          (case limit of
             0 \<Rightarrow> Inl recursion_error
           | Suc n \<Rightarrow> rbind (dfs_targets n succs report (succs t) (dfs_enter t s))
                        (\<lambda>(s1, rs). Inr (dfs_leave t s1, rs)))
        else if colour s t = 1 then rbind (dfs_cycle t s) (\<lambda>c. Inr (s, [report c l]))
        else Inr (s, [])"
  have "\<exists>s1 rs1. ?first = Inr (s1, rs1)"
  proof (cases "colour s t = 0")
    case True
    have count: "Suc (white_count V (dfs_enter t s)) = white_count V s"
      by (rule white_count_enter [OF "2.prems"(1) t True])
    with "2.prems"(6) obtain n where n: "limit = Suc n" by (cases limit) auto
    have "dfs_inv succs (dfs_enter t s)"
      using "2.prems"(3,4) True edge by (intro dfs_enter_inv) auto
    then have "\<exists>r. dfs_targets n succs report (succs t) (dfs_enter t s) = Inr r"
      using "2.prems" count n
      by (intro "2.IH"(1) [OF True n, where st = "stack s" and v = t]) (auto simp: dfs_enter_def)
    then show ?thesis using True n by auto
  next
    case False
    then show ?thesis using dfs_cycle_total [OF "2.prems"(3), of t] by auto
  qed
  then obtain s1 rs1 where first: "?first = Inr (s1, rs1)" by blast
  then have "dfs_targets limit succs report [(t, l)] s = Inr (s1, rs1)" by (simp add: rbind_def)
  then have post: "dfs_post succs (fst ` set [(t, l)]) s s1 rs1"
    using "2.prems"(3,4,5) by (intro dfs_targets_post) auto
  then have "white_count V s1 \<le> limit"
    using white_count_grows [OF "2.prems"(1), of s s1] "2.prems"(6) by (auto simp: dfs_post_def)
  then have "\<exists>r. dfs_targets limit succs report ts s1 = Inr r"
    using post "2.prems" first
    by (intro "2.IH"(2) [where st = st and v = v]) (auto simp: dfs_post_def dfs_grows_def)
  then show ?case using first by auto
qed

lemma dfs_roots_total:
  "finite V \<Longrightarrow> edges succs \<subseteq> V \<times> V \<Longrightarrow> dfs_inv succs s \<Longrightarrow> stack s = [] \<Longrightarrow> set vs \<subseteq> V \<Longrightarrow>
   card V \<le> limit \<Longrightarrow> \<exists>r. dfs_roots limit succs report vs s = Inr r"
proof (induction vs arbitrary: s)
  case (Cons v vs)
  let ?first = "if colour s v = 0 then dfs_visit limit succs report v s else Inr (s, [])"
  have "\<exists>s1 rs1. ?first = Inr (s1, rs1)"
  proof (cases "colour s v = 0")
    case True
    have v: "v \<in> V" using Cons.prems(5) by simp
    have "white_count V s \<le> limit"
      using Cons.prems(1,6) card_mono [of V "{v \<in> V. colour s v = 0}"] by (simp add: white_count_def)
    moreover have "Suc (white_count V (dfs_enter v s)) = white_count V s"
      by (rule white_count_enter [OF Cons.prems(1) v True])
    ultimately obtain n where n: "limit = Suc n" "white_count V (dfs_enter v s) \<le> n"
      by (cases limit) auto
    have "dfs_inv succs (dfs_enter v s)" using Cons.prems True by (intro dfs_enter_inv) auto
    then have "\<exists>r. dfs_targets n succs report (succs v) (dfs_enter v s) = Inr r"
      using Cons.prems n
      by (intro dfs_targets_total [where st = "[]" and v = v]) (auto simp: dfs_enter_def)
    then show ?thesis using True n by (auto simp: dfs_visit_def)
  qed simp
  then obtain s1 rs1 where first: "?first = Inr (s1, rs1)" by blast
  then have "dfs_roots limit succs report [v] s = Inr (s1, rs1)" by (simp add: rbind_def)
  from dfs_roots_post [OF this Cons.prems(3,4)] have "dfs_inv succs s1" "stack s1 = []"
    using Cons.prems(4) by (auto simp: dfs_post_def dfs_grows_def)
  with Cons have "\<exists>r. dfs_roots limit succs report vs s1 = Inr r" by simp
  then show ?case using first by auto
qed simp

section \<open>The search with an explicit stack of frames\<close>

text \<open>
  \<open>_validate_plan_edge_cycles\<close> runs the same search as a loop over frames: a node, its sorted
  outgoing edges and a cursor into them.  The loop returns \<open>None\<close> only if it never ends.
\<close>

type_synonym ('a, 'b) frame = "'a \<times> ('a \<times> 'b) list \<times> nat"

partial_function (option) frames_loop ::
    "('a \<Rightarrow> ('a \<times> 'b) list) \<Rightarrow> ('a list \<Rightarrow> 'b \<Rightarrow> 'r) \<Rightarrow> ('a, 'b) frame list \<Rightarrow> 'a dfs \<Rightarrow> 'r list
     \<Rightarrow> ('a dfs \<times> 'r list) result option" where
  "frames_loop succs report frames s rs =
     (case frames of
        [] \<Rightarrow> Some (Inr (s, rs))
      | (current, outgoing, cursor) # rest \<Rightarrow>
          (if length outgoing \<le> cursor then frames_loop succs report rest (dfs_leave current s) rs
           else (let target = fst (outgoing ! cursor); label = snd (outgoing ! cursor);
                     top = (current, outgoing, Suc cursor) in
             if colour s target = 0 then
               frames_loop succs report ((target, succs target, 0) # top # rest) (dfs_enter target s) rs
             else if colour s target = 1 then
               (case dfs_cycle target s of
                  Inl e \<Rightarrow> Some (Inl e)
                | Inr c \<Rightarrow> frames_loop succs report (top # rest) s (rs @ [report c label]))
             else frames_loop succs report (top # rest) s rs)))"

declare frames_loop.simps [code]

fun frames_roots ::
    "('a \<Rightarrow> ('a \<times> 'b) list) \<Rightarrow> ('a list \<Rightarrow> 'b \<Rightarrow> 'r) \<Rightarrow> 'a list \<Rightarrow> 'a dfs \<Rightarrow> 'r list
     \<Rightarrow> ('a dfs \<times> 'r list) result option" where
  "frames_roots succs report [] s rs = Some (Inr (s, rs))"
| "frames_roots succs report (v # vs) s rs =
     (if colour s v \<noteq> 0 then frames_roots succs report vs s rs
      else (case frames_loop succs report [(v, succs v, 0)] (dfs_enter v s) rs of
              None \<Rightarrow> None
            | Some (Inl e) \<Rightarrow> Some (Inl e)
            | Some (Inr (s', rs')) \<Rightarrow> frames_roots succs report vs s' rs'))"

text \<open>The loop does what the recursive search does, one frame at a time.\<close>

lemma frames_loop_simulates:
  "dfs_targets n succs report ts s = Inr (s', rs') \<Longrightarrow> ts = drop cursor outgoing \<Longrightarrow>
   frames_loop succs report ((current, outgoing, cursor) # rest) s rs
     = frames_loop succs report rest (dfs_leave current s') (rs @ rs')"
proof (induction n succs report ts s arbitrary: s' rs' cursor outgoing current rest rs rule: dfs_targets.induct)
  case (1 limit succs report s)
  then show ?case by (subst frames_loop.simps) simp
next
  case (2 limit succs report t l ts s)
  from "2.prems"(1) obtain s1 rs1 s2 rs2
    where first: "(if colour s t = 0 then
          (case limit of
             0 \<Rightarrow> Inl recursion_error
           | Suc n \<Rightarrow> rbind (dfs_targets n succs report (succs t) (dfs_enter t s))
                        (\<lambda>(s1, rs). Inr (dfs_leave t s1, rs)))
        else if colour s t = 1 then rbind (dfs_cycle t s) (\<lambda>c. Inr (s, [report c l]))
        else Inr (s, [])) = Inr (s1, rs1)"
      and others: "dfs_targets limit succs report ts s1 = Inr (s2, rs2)"
      and out: "s' = s2" "rs' = rs1 @ rs2"
    by (auto simp: result_simps)
  have cursor: "\<not> length outgoing \<le> cursor" "outgoing ! cursor = (t, l)" "ts = drop (Suc cursor) outgoing"
  proof -
    from "2.prems"(2) show c: "\<not> length outgoing \<le> cursor" by auto
    with "2.prems"(2) show "outgoing ! cursor = (t, l)" "ts = drop (Suc cursor) outgoing"
      by (metis Cons_nth_drop_Suc list.inject not_le_imp_less)+
  qed
  have step: "frames_loop succs report ((current, outgoing, cursor) # rest) s rs
      = frames_loop succs report ((current, outgoing, Suc cursor) # rest) s1 (rs @ rs1)"
  proof (cases "colour s t = 0")
    case True
    with first obtain m s0 where m: "limit = Suc m"
      and inner: "dfs_targets m succs report (succs t) (dfs_enter t s) = Inr (s0, rs1)"
      and s1: "s1 = dfs_leave t s0"
      by (auto simp: result_simps split: nat.splits)
    have "frames_loop succs report ((current, outgoing, cursor) # rest) s rs =
        frames_loop succs report ((t, succs t, 0) # (current, outgoing, Suc cursor) # rest) (dfs_enter t s) rs"
      by (subst frames_loop.simps) (simp add: cursor True)
    then show ?thesis using "2.IH"(1) [OF True m inner, of 0 "succs t"] by (simp add: s1)
  next
    case False
    show ?thesis
    proof (cases "colour s t = 1")
      case True
      with first False obtain c where "dfs_cycle t s = Inr c" "s1 = s" "rs1 = [report c l]"
        by (auto simp: result_simps)
      then show ?thesis using True by (subst frames_loop.simps) (simp add: cursor)
    next
      case black: False
      with first False have "s1 = s" "rs1 = []" by auto
      then show ?thesis using False black by (subst frames_loop.simps) (simp add: cursor)
    qed
  qed
  show ?case
    unfolding step out using "2.IH"(2) [OF others cursor(3)] by simp
qed

lemma frames_roots_simulates:
  "dfs_roots limit succs report vs s = Inr (s', rs') \<Longrightarrow>
   frames_roots succs report vs s rs = Some (Inr (s', rs @ rs'))"
proof (induction vs arbitrary: s s' rs rs')
  case (Cons v vs)
  from Cons.prems obtain s1 rs1 s2 rs2
    where first: "(if colour s v = 0 then dfs_visit limit succs report v s else Inr (s, [])) = Inr (s1, rs1)"
      and rest: "dfs_roots limit succs report vs s1 = Inr (s2, rs2)"
      and out: "s' = s2" "rs' = rs1 @ rs2"
    by (auto simp: result_simps)
  show ?case
  proof (cases "colour s v = 0")
    case True
    with first obtain n s0 where inner: "dfs_targets n succs report (succs v) (dfs_enter v s) = Inr (s0, rs1)"
      and s1: "s1 = dfs_leave v s0"
      by (auto simp: dfs_visit_def result_simps split: nat.splits)
    have "frames_loop succs report [(v, succs v, 0)] (dfs_enter v s) rs
        = frames_loop succs report [] (dfs_leave v s0) (rs @ rs1)"
      by (rule frames_loop_simulates [OF inner]) simp
    also have "\<dots> = Some (Inr (s1, rs @ rs1))" by (subst frames_loop.simps) (simp add: s1)
    finally show ?thesis using True Cons.IH [OF rest, of "rs @ rs1"] by (simp add: out)
  next
    case False
    with first have "s1 = s" "rs1 = []" by auto
    then show ?thesis using False Cons.IH [OF rest, of rs] by (simp add: out)
  qed
qed simp

text \<open>The loop ends on every finite graph, and decides whether it has a cycle.\<close>

theorem frames_roots_decides:
  assumes "finite V" and "edges succs \<subseteq> V \<times> V" and "set vs = V"
  shows "\<exists>s rs. frames_roots succs report vs dfs_start [] = Some (Inr (s, rs)) \<and> (rs = [] \<longleftrightarrow> acyclic (edges succs))"
proof -
  have "\<exists>r. dfs_roots (card V) succs report vs dfs_start = Inr r"
    by (rule dfs_roots_total [OF assms(1,2) dfs_inv_start]) (simp_all add: dfs_start_def assms)
  then obtain s rs where run: "dfs_roots (card V) succs report vs dfs_start = Inr (s, rs)" by auto
  have "rs = [] \<longleftrightarrow> acyclic (edges succs)" using dfs_acyclic_iff [OF run] assms by simp
  with frames_roots_simulates [OF run, of "[]"] show ?thesis by auto
qed

end
