(* ===== verification/Contract_Validation.thy ===== *)
theory Contract_Validation
  imports Derivation Search
begin

text \<open>
  The semantic checks \<open>build_semantic_contracts\<close> runs over the source documents
  (\<open>semantic_planning/validation.py\<close>), one definition per \<open>_validate_*\<close>
  function.  Each returns the issues it appends, in order; checks that iterate over a declared
  collection raise where Python would.

  A registry with no issue has unique ids, relations whose endpoints exist, no authored
  relation the deriver computes, and an acyclic \<open>dependsOn\<close> relation.
\<close>

definition at_index :: "string \<Rightarrow> nat \<Rightarrow> string" where
  "at_index base index = base @ ''/'' @ string_of_nat index"

section \<open>Executor bindings and unique ids\<close>

definition executor_binding_index :: "source_documents \<Rightarrow> (string \<times> json) list" where
  "executor_binding_index docs =
     dict_of (concat (map (\<lambda>binding.
       if is_mapping binding then
         (case str_of (jget binding ''bindingId'') of
            Some i \<Rightarrow> (if i \<noteq> [] then [(i, binding)] else []) | None \<Rightarrow> [])
       else []) (items (executor_bindings_doc docs) ''bindings'')))"

definition validate_executor_binding :: "(string \<times> json) list \<Rightarrow> nat \<times> json \<Rightarrow> issue list" where
  "validate_executor_binding bindings = (\<lambda>(index, capability).
     (if \<not> is_mapping capability then []
      else (let executor = jget capability ''executorBinding'' in
        if \<not> is_mapping executor then []
        else (let binding_id = jget executor ''bindingId'';
                  base = at_index ''/capabilities'' index @ ''/executorBinding'' in
          case (case str_of binding_id of None \<Rightarrow> None | Some i \<Rightarrow> map_of bindings i) of
            None \<Rightarrow> [ValidationIssue (base @ ''/bindingId'') ''SCHEMA_INVALID''
                       (''executor binding not found: '' @ frozen_repr binding_id)]
          | Some binding \<Rightarrow>
              if \<not> py_eq (jget executor ''type'') (jget binding ''type'')
              then [ValidationIssue (base @ ''/type'') ''SCHEMA_INVALID''
                      ''executor binding type does not match binding catalog'']
              else []))))"

definition validate_executor_bindings :: "source_documents \<Rightarrow> issue list" where
  "validate_executor_bindings docs =
     concat (map (validate_executor_binding (executor_binding_index docs))
       (enumerate_list (items (capabilities_doc docs) ''capabilities'')))"

text \<open>The loop over one catalog; \<open>seen\<close> holds the ids met so far.\<close>

fun unique_ids_from :: "string \<Rightarrow> string \<Rightarrow> nat \<Rightarrow> string list \<Rightarrow> json list \<Rightarrow> issue list" where
  "unique_ids_from id_field base index seen [] = []"
| "unique_ids_from id_field base index seen (v # vs) =
     (if \<not> is_mapping v then unique_ids_from id_field base (Suc index) seen vs
      else (let path = at_index base index @ ''/'' @ id_field in
        case str_of (jget v id_field) of
          None \<Rightarrow> ValidationIssue path ''SCHEMA_INVALID'' (id_field @ '' is required'')
                    # unique_ids_from id_field base (Suc index) seen vs
        | Some item_id \<Rightarrow>
            if item_id = [] then
              ValidationIssue path ''SCHEMA_INVALID'' (id_field @ '' is required'')
                # unique_ids_from id_field base (Suc index) seen vs
            else if item_id \<in> set seen then
              ValidationIssue path ''DUPLICATE_ID'' (''duplicate '' @ id_field @ '': '' @ item_id)
                # unique_ids_from id_field base (Suc index) seen vs
            else unique_ids_from id_field base (Suc index) (item_id # seen) vs))"

definition validate_unique_ids :: "source_documents \<Rightarrow> issue list" where
  "validate_unique_ids docs =
     unique_ids_from ''capabilityId'' ''/capabilities'' 0 [] (items (capabilities_doc docs) ''capabilities'')
     @ unique_ids_from ''factTypeId'' ''/factTypes'' 0 [] (items (fact_types_doc docs) ''factTypes'')
     @ unique_ids_from ''relationId'' ''/relations'' 0 [] (items (relations_doc docs) ''relations'')
     @ unique_ids_from ''bindingId'' ''/bindings'' 0 [] (items (executor_bindings_doc docs) ''bindings'')"

section \<open>Fact references\<close>

definition fact_type_ids :: "source_documents \<Rightarrow> string list" where
  "fact_type_ids docs = text_ids (items (fact_types_doc docs) ''factTypes'') ''factTypeId''"

definition capability_ids :: "source_documents \<Rightarrow> string list" where
  "capability_ids docs = text_ids (items (capabilities_doc docs) ''capabilities'') ''capabilityId''"

definition validate_input_reference :: "string list \<Rightarrow> json \<Rightarrow> string \<Rightarrow> nat \<times> json \<Rightarrow> issue list" where
  "validate_input_reference known capability base = (\<lambda>(input_index, input_field).
     (if \<not> is_mapping input_field then []
      else (let path = at_index (base @ ''/inputs'') input_index;
                binding_kind = jget input_field ''bindingKind'';
                fact_type_ref = jget input_field ''satisfiableByFactType'' in
        (if binding_kind \<noteq> JStr ''identifier'' \<and> binding_kind \<noteq> JStr ''fact'' then
           [ValidationIssue (path @ ''/bindingKind'') ''SCHEMA_INVALID''
              ''bindingKind must be identifier or fact'']
         else if binding_kind = JStr ''fact'' \<and> \<not> truthy fact_type_ref then
           [ValidationIssue (path @ ''/satisfiableByFactType'') ''SCHEMA_INVALID''
              ''fact input requires satisfiableByFactType'']
         else [])
        @ (if fact_type_ref \<noteq> JNull \<and> \<not> is_str fact_type_ref then
             [ValidationIssue (path @ ''/satisfiableByFactType'') ''SCHEMA_INVALID''
                ''satisfiableByFactType must be a string'']
           else (case str_of fact_type_ref of
                   None \<Rightarrow> []
                 | Some ref \<Rightarrow>
                     if ref \<noteq> [] \<and> ref \<notin> set known then
                       [ValidationIssue (path @ ''/satisfiableByFactType'') ''UNKNOWN_FACT_TYPE''
                          (frozen_str (jget capability ''capabilityId'') @ ''.''
                           @ frozen_str (jget input_field ''name'') @ '': unknown Fact Type: '' @ ref)]
                     else [])))))"

definition validate_output_reference :: "string list \<Rightarrow> string \<Rightarrow> nat \<times> json \<Rightarrow> issue list" where
  "validate_output_reference known base = (\<lambda>(output_index, output).
     (if \<not> is_mapping output then []
      else (let path = at_index (base @ ''/outputs'') output_index @ ''/factTypeRef'';
                fact_type_ref = jget output ''factTypeRef'' in
        (if jget output ''evidenceRole'' = JStr ''primaryFact'' \<and> \<not> truthy fact_type_ref then
           [ValidationIssue path ''SCHEMA_INVALID'' ''primaryFact output requires factTypeRef'']
         else [])
        @ (if fact_type_ref \<noteq> JNull \<and> \<not> is_str fact_type_ref then
             [ValidationIssue path ''SCHEMA_INVALID'' ''factTypeRef must be a string'']
           else (case str_of fact_type_ref of
                   None \<Rightarrow> []
                 | Some ref \<Rightarrow>
                     if ref \<noteq> [] \<and> ref \<notin> set known then
                       [ValidationIssue path ''UNKNOWN_FACT_TYPE'' (''unknown Fact Type: '' @ ref)]
                     else [])))))"

definition validate_capability_references :: "string list \<Rightarrow> nat \<times> json \<Rightarrow> issue list result" where
  "validate_capability_references known = (\<lambda>(capability_index, capability).
     (if \<not> is_mapping capability then Inr []
      else (let base = at_index ''/capabilities'' capability_index in
        rbind (iter_or_empty (jget capability ''inputs'')) (\<lambda>inputs.
          rbind (iter_or_empty (jget capability ''outputs'')) (\<lambda>outputs.
            Inr (concat (map (validate_input_reference known capability base) (enumerate_list inputs))
                 @ concat (map (validate_output_reference known base) (enumerate_list outputs))))))))"

definition validate_fact_references :: "source_documents \<Rightarrow> issue list result" where
  "validate_fact_references docs =
     collectM (validate_capability_references (fact_type_ids docs))
       (enumerate_list (items (capabilities_doc docs) ''capabilities''))"

section \<open>The vocabulary of value types\<close>

definition semantic_type_of :: "json \<Rightarrow> string list" where
  "semantic_type_of field =
     (if is_mapping field then (case str_of (jget field ''semanticType'') of Some s \<Rightarrow> [s] | None \<Rightarrow> [])
      else [])"

definition capability_semantic_types :: "json \<Rightarrow> string list result" where
  "capability_semantic_types capability =
     (if \<not> is_mapping capability then Inr []
      else collectM (\<lambda>container. rbind (iter_or_empty (jget capability container))
                       (\<lambda>fs. Inr (concat (map semantic_type_of fs))))
             [''inputs'', ''outputs''])"

definition capability_declared_types :: "source_documents \<Rightarrow> string list result" where
  "capability_declared_types docs =
     collectM capability_semantic_types (items (capabilities_doc docs) ''capabilities'')"

definition value_type_ids :: "source_documents \<Rightarrow> string list" where
  "value_type_ids docs =
     concat (map (\<lambda>v. if is_mapping v then (case str_of (jget v ''id'') of Some s \<Rightarrow> [s] | None \<Rightarrow> [])
                      else []) (items (fact_types_doc docs) ''valueTypes''))"

definition ontology_value_type_vocabulary :: "source_documents \<Rightarrow> string list result" where
  "ontology_value_type_vocabulary docs =
     rbind (capability_declared_types docs) (\<lambda>declared. Inr (declared @ value_type_ids docs))"

definition fact_type_references :: "json \<Rightarrow> string list result" where
  "fact_type_references fact_type =
     (if \<not> is_mapping fact_type then Inr []
      else rbind (iter_or_empty (jget fact_type ''keyedBy'')) (\<lambda>keys.
        rbind (iter_or_empty (jget fact_type ''fields'')) (\<lambda>fs.
          Inr (concat (map (\<lambda>k. case str_of k of Some s \<Rightarrow> [s] | None \<Rightarrow> []) keys)
               @ concat (map semantic_type_of fs)))))"

definition validate_value_type :: "string list \<Rightarrow> string list \<Rightarrow> nat \<times> json \<Rightarrow> issue list result" where
  "validate_value_type capability_declared referenced = (\<lambda>(index, value_type).
     (if \<not> is_mapping value_type then Inr []
      else (let value_type_id = jget value_type ''id'';
                path = at_index ''/valueTypes'' index @ ''/id'' in
        rbind (frozen_member value_type_id capability_declared) (\<lambda>shadows.
          rbind (frozen_member value_type_id referenced) (\<lambda>used.
            Inr ((if shadows then
                    [ValidationIssue path ''VALUE_TYPE_SHADOWS_CAPABILITY''
                       (frozen_str value_type_id @ '' is already declared by a capability input or output'')]
                  else [])
                 @ (if \<not> used then
                      [ValidationIssue path ''VALUE_TYPE_NOT_USED''
                         (frozen_str value_type_id @ '' is referenced by no Fact Type field or key'')]
                    else [])))))))"

definition validate_value_type_declarations :: "source_documents \<Rightarrow> issue list result" where
  "validate_value_type_declarations docs =
     rbind (capability_declared_types docs) (\<lambda>declared.
       rbind (collectM fact_type_references (items (fact_types_doc docs) ''factTypes'')) (\<lambda>referenced.
         collectM (validate_value_type declared referenced)
           (enumerate_list (items (fact_types_doc docs) ''valueTypes''))))"


section \<open>Fact Type fields and the vocabulary\<close>

definition published_output :: "json \<Rightarrow> (string \<times> string \<times> string) list" where
  "published_output output =
     (if \<not> is_mapping output then []
      else (case (str_of (jget output ''factTypeRef''), str_of (jget output ''name''),
                  str_of (jget output ''semanticType'')) of
              (Some fact_type_ref, Some name, Some semantic_type) \<Rightarrow> [(fact_type_ref, name, semantic_type)]
            | _ \<Rightarrow> []))"

definition published_fields :: "source_documents \<Rightarrow> (string \<times> string \<times> string) list result" where
  "published_fields docs =
     collectM (\<lambda>capability.
       if \<not> is_mapping capability \<or> jget capability ''status'' \<noteq> JStr ''active'' then Inr []
       else rbind (iter_or_empty (jget capability ''outputs''))
              (\<lambda>outputs. Inr (concat (map published_output outputs))))
       (items (capabilities_doc docs) ''capabilities'')"

text \<open>Membership of a tuple of raw values in a set of tuples of texts hashes every component.\<close>

definition published_member :: "json \<Rightarrow> json \<Rightarrow> json \<Rightarrow> (string \<times> string \<times> string) list \<Rightarrow> bool result" where
  "published_member fact_type_id name semantic_type published =
     (if frozen_hashable fact_type_id \<and> frozen_hashable name \<and> frozen_hashable semantic_type
      then Inr (case (str_of fact_type_id, str_of name, str_of semantic_type) of
                  (Some f, Some n, Some t) \<Rightarrow> (f, n, t) \<in> set published
                | _ \<Rightarrow> False)
      else Inl (TypeError ''unhashable type''))"

definition validate_fact_type_field ::
    "string list \<Rightarrow> (string \<times> string \<times> string) list \<Rightarrow> nat \<Rightarrow> json \<Rightarrow> nat \<times> json \<Rightarrow> issue list result" where
  "validate_fact_type_field declared published fact_index fact_type_id = (\<lambda>(field_index, field).
     (if \<not> is_mapping field then Inr []
      else (let base_path = at_index (at_index ''/factTypes'' fact_index @ ''/fields'') field_index;
                name = jget field ''name'';
                semantic_type = jget field ''semanticType'' in
        rbind (frozen_member semantic_type declared) (\<lambda>known.
          if \<not> known then
            Inr [ValidationIssue (base_path @ ''/semanticType'') ''UNKNOWN_SEMANTIC_TYPE''
                   (frozen_str fact_type_id @ ''.'' @ frozen_str name @ '': unknown semantic type: ''
                    @ frozen_str semantic_type)]
          else if jget field ''cardinality'' = JStr ''one'' then
            rbind (published_member fact_type_id name semantic_type published) (\<lambda>is_published.
              Inr (if is_published then []
                   else [ValidationIssue (base_path @ ''/name'') ''UNPUBLISHED_FACT_FIELD''
                           (frozen_str fact_type_id @ ''.'' @ frozen_str name
                            @ '': no active producer publishes an output named '' @ frozen_str name
                            @ '' with semantic type '' @ frozen_str semantic_type)]))
          else Inr []))))"

definition validate_fact_type_fields :: "source_documents \<Rightarrow> issue list result" where
  "validate_fact_type_fields docs =
     rbind (ontology_value_type_vocabulary docs) (\<lambda>declared.
       rbind (published_fields docs) (\<lambda>published.
         collectM (\<lambda>(fact_index, fact_type).
           if \<not> is_mapping fact_type then Inr []
           else rbind (iter_or_empty (jget fact_type ''fields'')) (\<lambda>field_list.
             collectM (validate_fact_type_field declared published fact_index
                         (jget fact_type ''factTypeId''))
               (enumerate_list field_list)))
           (enumerate_list (items (fact_types_doc docs) ''factTypes''))))"

definition validate_keyed_by :: "string list \<Rightarrow> nat \<Rightarrow> json \<Rightarrow> nat \<times> json \<Rightarrow> issue list result" where
  "validate_keyed_by declared fact_index fact_type_id = (\<lambda>(key_index, semantic_type).
     rbind (frozen_member semantic_type declared) (\<lambda>known.
       Inr (if known then []
            else [ValidationIssue (at_index (at_index ''/factTypes'' fact_index @ ''/keyedBy'') key_index)
                    ''UNKNOWN_SEMANTIC_TYPE''
                    (frozen_str fact_type_id @ '': unknown semantic type: '' @ frozen_str semantic_type)])))"

definition validate_extracts :: "string list \<Rightarrow> nat \<times> json \<Rightarrow> issue list result" where
  "validate_extracts declared = (\<lambda>(entry_index, entry).
     if \<not> is_mapping entry then Inr []
     else (let target = jget entry ''extracts'' in
       rbind (frozen_member target declared) (\<lambda>known.
         Inr (if known then []
              else [ValidationIssue (at_index ''/semanticTypes'' entry_index @ ''/extracts'')
                      ''UNKNOWN_SEMANTIC_TYPE''
                      (frozen_str (jget entry ''id'') @ '': unknown semantic type: '' @ frozen_str target)]))))"

definition validate_vocabulary_references :: "source_documents \<Rightarrow> issue list result" where
  "validate_vocabulary_references docs =
     rbind (ontology_value_type_vocabulary docs) (\<lambda>declared.
       append_results
         (collectM (\<lambda>(fact_index, fact_type).
            if \<not> is_mapping fact_type then Inr []
            else rbind (iter_or_empty (jget fact_type ''keyedBy'')) (\<lambda>keys.
              collectM (validate_keyed_by declared fact_index (jget fact_type ''factTypeId''))
                (enumerate_list keys)))
            (enumerate_list (items (fact_types_doc docs) ''factTypes'')))
         (collectM (validate_extracts declared)
            (enumerate_list (items (semantic_types_doc docs) ''semanticTypes''))))"

section \<open>Relations\<close>

type_synonym authored_edge = "string \<times> string \<times> string"

definition authored_relation_type :: "json \<Rightarrow> string option" where
  "authored_relation_type relation =
     (case str_of (jget relation ''relationType'') of
        Some t \<Rightarrow> (if t = ''dependsOn'' \<or> t = ''precondition'' then Some t else None)
      | None \<Rightarrow> None)"

definition relation_target :: "string \<Rightarrow> string" where
  "relation_target relation_type =
     (if relation_type = ''dependsOn'' then ''dependsOnCapabilityId''
      else ''requiredFactType'')"

definition known_text :: "string list \<Rightarrow> json \<Rightarrow> bool" where
  "known_text known v = (case str_of v of Some s \<Rightarrow> s \<in> set known | None \<Rightarrow> False)"

definition relation_endpoint_issues ::
    "string list \<Rightarrow> string list \<Rightarrow> nat \<Rightarrow> string \<Rightarrow> json \<Rightarrow> issue list" where
  "relation_endpoint_issues cap_ids fact_ids index relation_type relation =
     (let base_path = at_index ''/relations'' index;
          capability_id = jget relation ''capabilityId'';
          target_field = relation_target relation_type;
          target = jget relation target_field;
          target_exists = (if relation_type = ''dependsOn'' then known_text cap_ids target
                           else known_text fact_ids target) in
      (if known_text cap_ids capability_id then []
       else [ValidationIssue (base_path @ ''/capabilityId'') ''RELATION_ENDPOINT_NOT_FOUND''
               (''capability endpoint not found: '' @ frozen_repr capability_id)])
      @ (if target_exists then []
         else [ValidationIssue (base_path @ ''/'' @ target_field) ''RELATION_ENDPOINT_NOT_FOUND''
                 (''relation endpoint not found: '' @ frozen_repr target)]))"

definition authored_edge :: "string \<Rightarrow> json \<Rightarrow> authored_edge option" where
  "authored_edge relation_type relation =
     (case (str_of (jget relation ''capabilityId''),
            str_of (jget relation (relation_target relation_type))) of
        (Some capability_id, Some target) \<Rightarrow> Some (relation_type, capability_id, target)
      | _ \<Rightarrow> None)"

definition authored_edge_repr :: "authored_edge \<Rightarrow> string" where
  "authored_edge_repr edge =
     (case edge of (t, c, target) \<Rightarrow> repr_tuple [repr_str t, repr_str c, repr_str target])"

text \<open>\<open>seen\<close> holds the edges met so far.\<close>

fun relation_endpoints_from ::
    "string list \<Rightarrow> string list \<Rightarrow> nat \<Rightarrow> authored_edge list \<Rightarrow> json list \<Rightarrow> issue list" where
  "relation_endpoints_from cap_ids fact_ids index seen [] = []"
| "relation_endpoints_from cap_ids fact_ids index seen (relation # rest) =
     (if \<not> is_mapping relation then relation_endpoints_from cap_ids fact_ids (Suc index) seen rest
      else (case authored_relation_type relation of
          None \<Rightarrow>
            ValidationIssue (at_index ''/relations'' index @ ''/relationType'') ''SCHEMA_INVALID''
              ''authored relationType must be dependsOn or precondition''
            # relation_endpoints_from cap_ids fact_ids (Suc index) seen rest
        | Some relation_type \<Rightarrow>
            relation_endpoint_issues cap_ids fact_ids index relation_type relation
            @ (case authored_edge relation_type relation of
                 None \<Rightarrow> relation_endpoints_from cap_ids fact_ids (Suc index) seen rest
               | Some edge \<Rightarrow>
                   if edge \<in> set seen then
                     ValidationIssue (at_index ''/relations'' index) ''DUPLICATE_ID''
                       (''duplicate authored semantic edge: '' @ authored_edge_repr edge)
                     # relation_endpoints_from cap_ids fact_ids (Suc index) seen rest
                   else relation_endpoints_from cap_ids fact_ids (Suc index) (edge # seen) rest)))"

definition validate_relation_endpoints :: "source_documents \<Rightarrow> issue list" where
  "validate_relation_endpoints docs =
     relation_endpoints_from (capability_ids docs) (fact_type_ids docs) 0 []
       (items (relations_doc docs) ''relations'')"

definition derivable_pairs :: "derived_view \<Rightarrow> ((string \<times> string) \<times> string) list" where
  "derivable_pairs view =
     dict_of (map (\<lambda>edge. ((edge_consumer edge, edge_producer edge), relation_id edge)) (view_edges view))"

definition validate_derivable_relation ::
    "((string \<times> string) \<times> string) list \<Rightarrow> nat \<times> json \<Rightarrow> issue list result" where
  "validate_derivable_relation derivable = (\<lambda>(index, relation).
     (if \<not> is_mapping relation \<or> jget relation ''relationType'' \<noteq> JStr ''dependsOn'' then Inr []
      else (let capability_id = jget relation ''capabilityId'';
                target = jget relation ''dependsOnCapabilityId'' in
        if \<not> frozen_hashable capability_id \<or> \<not> frozen_hashable target then
          Inl (TypeError ''unhashable type'')
        else (case (str_of capability_id, str_of target) of
          (Some c, Some t) \<Rightarrow>
            (case map_of derivable (c, t) of
               None \<Rightarrow> Inr []
             | Some derived_relation_id \<Rightarrow>
                 Inr [ValidationIssue (at_index ''/relations'' index) ''RELATION_IS_DERIVABLE''
                        (''authored relation '' @ frozen_repr (jget relation ''relationId'')
                         @ '' duplicates the derivable edge '' @ repr_str derived_relation_id @ '': ''
                         @ c @ '' depends on '' @ t
                         @ ''; delete it and read the derived view instead'')])
        | _ \<Rightarrow> Inr []))))"

definition validate_derivable_relations :: "source_documents \<Rightarrow> issue list result" where
  "validate_derivable_relations docs =
     rbind (derive_data_dependencies docs) (\<lambda>view.
       (let derivable = derivable_pairs view in
        if derivable = [] then Inr []
        else collectM (validate_derivable_relation derivable)
               (enumerate_list (items (relations_doc docs) ''relations''))))"

section \<open>Cycles of authored dependencies\<close>

text \<open>
  Classifying one relation: skipped, a self edge, or an edge of the dependency graph with
  the relation's index as its label.
\<close>

definition authored_dependency :: "string list \<Rightarrow> json \<Rightarrow> (string \<times> string) option" where
  "authored_dependency cap_ids relation =
     (if \<not> is_mapping relation \<or> jget relation ''relationType'' \<noteq> JStr ''dependsOn'' then None
      else (case (str_of (jget relation ''capabilityId''), str_of (jget relation ''dependsOnCapabilityId'')) of
              (Some source, Some target) \<Rightarrow>
                (if source \<in> set cap_ids \<and> target \<in> set cap_ids then Some (source, target) else None)
            | _ \<Rightarrow> None))"

definition self_edge_issue :: "string list \<Rightarrow> nat \<times> json \<Rightarrow> issue list" where
  "self_edge_issue cap_ids = (\<lambda>(index, relation).
     (case authored_dependency cap_ids relation of
        Some (source, target) \<Rightarrow>
          (if source = target then
             [ValidationIssue (at_index ''/relations'' index @ ''/dependsOnCapabilityId'') ''DEPENDENCY_CYCLE''
                (''dependsOn self-edge is not allowed: '' @ source)]
           else [])
      | None \<Rightarrow> []))"

definition dependency_entry :: "string list \<Rightarrow> nat \<times> json \<Rightarrow> (string \<times> (string \<times> nat)) list" where
  "dependency_entry cap_ids = (\<lambda>(index, relation).
     (case authored_dependency cap_ids relation of
        Some (source, target) \<Rightarrow> (if source = target then [] else [(source, (target, index))])
      | None \<Rightarrow> []))"

definition dependency_table :: "source_documents \<Rightarrow> (string \<times> (string \<times> nat) list) list" where
  "dependency_table docs =
     group_by (concat (map (dependency_entry (capability_ids docs))
       (enumerate_list (items (relations_doc docs) ''relations''))))"

definition dependency_targets :: "source_documents \<Rightarrow> string \<Rightarrow> (string \<times> nat) list" where
  "dependency_targets docs capability_id = sort (group_get (dependency_table docs) capability_id)"

definition dependency_cycle_issue :: "string list \<Rightarrow> nat \<Rightarrow> issue" where
  "dependency_cycle_issue cycle relation_index =
     ValidationIssue (at_index ''/relations'' relation_index @ ''/dependsOnCapabilityId'') ''DEPENDENCY_CYCLE''
       (''dependsOn cycle detected: '' @ join '' -> '' cycle)"

definition validate_dependency_cycles :: "nat \<Rightarrow> source_documents \<Rightarrow> issue list result" where
  "validate_dependency_cycles recursion_limit docs =
     append_results
       (Inr (concat (map (self_edge_issue (capability_ids docs))
               (enumerate_list (items (relations_doc docs) ''relations'')))))
       (rbind (dfs_roots recursion_limit (dependency_targets docs) dependency_cycle_issue
                 (sorted_set (capability_ids docs)) dfs_start)
          (\<lambda>(_, issues). Inr issues))"

section \<open>What a clean catalog satisfies\<close>

text \<open>Every entry has a non-empty text id, and no two entries share it.\<close>

definition ids_well_formed :: "string \<Rightarrow> json list \<Rightarrow> bool" where
  "ids_well_formed id_field vs \<longleftrightarrow>
     (\<forall>v \<in> set vs. is_mapping v \<longrightarrow> (\<exists>s. s \<noteq> [] \<and> jget v id_field = JStr s)) \<and>
     distinct (map (\<lambda>v. jget v id_field) (filter is_mapping vs))"

lemma unique_ids_from_Nil:
  "unique_ids_from id_field base index seen vs = [] \<longleftrightarrow>
     ids_well_formed id_field vs \<and>
     (\<forall>v \<in> set vs. is_mapping v \<longrightarrow> jget v id_field \<notin> JStr ` set seen)"
proof (induction id_field base index seen vs rule: unique_ids_from.induct)
  case (2 id_field base index seen v vs)
  show ?case
  proof (cases "is_mapping v")
    case False
    then show ?thesis using "2.IH"(1) by (simp add: ids_well_formed_def)
  next
    case True
    show ?thesis
    proof (cases "str_of (jget v id_field)")
      case None
      then have "\<nexists>s. jget v id_field = JStr s" by auto
      with True None show ?thesis by (simp add: ids_well_formed_def Let_def)
    next
      case (Some s)
      then have s: "jget v id_field = JStr s" by simp
      have "JStr s \<in> (\<lambda>v. jget v id_field) ` {v \<in> set vs. is_mapping v} \<longleftrightarrow>
            (\<exists>v \<in> set vs. is_mapping v \<and> jget v id_field = JStr s)" by force
      with True s show ?thesis
        using "2.IH"(5) [OF _ refl Some]
        by (auto simp: ids_well_formed_def Let_def)
    qed
  qed
qed (simp add: ids_well_formed_def)

definition catalogs :: "source_documents \<Rightarrow> (string \<times> json list) list" where
  "catalogs docs =
     [(''capabilityId'', items (capabilities_doc docs) ''capabilities''),
      (''factTypeId'', items (fact_types_doc docs) ''factTypes''),
      (''relationId'', items (relations_doc docs) ''relations''),
      (''bindingId'', items (executor_bindings_doc docs) ''bindings'')]"

text \<open>
  C30: the id check is exact.  It reports nothing precisely when in each of the four catalogs every
  entry that is a mapping carries a non-empty text id and no two of them the same one; entries that are no
  mappings are left to the schema stage.
\<close>

theorem validate_unique_ids_iff:
  "validate_unique_ids docs = [] \<longleftrightarrow> list_all (\<lambda>(id_field, vs). ids_well_formed id_field vs) (catalogs docs)"
  by (simp add: validate_unique_ids_def catalogs_def unique_ids_from_Nil)

section \<open>Relations of a clean catalog\<close>


definition authored_edge_of :: "json \<Rightarrow> authored_edge option" where
  "authored_edge_of relation =
     (case authored_relation_type relation of None \<Rightarrow> None | Some t \<Rightarrow> authored_edge t relation)"

definition endpoint_ok :: "string list \<Rightarrow> string list \<Rightarrow> authored_edge \<Rightarrow> bool" where
  "endpoint_ok cap_ids fact_ids = (\<lambda>(t, c, target).
     c \<in> set cap_ids \<and> target \<in> set (if t = ''dependsOn'' then cap_ids else fact_ids))"

lemma known_text_iff: "known_text known v \<longleftrightarrow> (\<exists>s. v = JStr s \<and> s \<in> set known)"
  by (cases v) (auto simp: known_text_def)

lemma relation_endpoint_issues_Nil:
  "relation_endpoint_issues cap_ids fact_ids index t r = [] \<longleftrightarrow>
     (\<exists>e. authored_edge t r = Some e \<and> endpoint_ok cap_ids fact_ids e)"
  by (auto simp: relation_endpoint_issues_def Let_def known_text_iff authored_edge_def endpoint_ok_def
      split: option.splits)

lemma map_Some_Cons:
  "f x = Some e \<Longrightarrow>
   (\<exists>es. map f (x # xs) = map Some es \<and> Q es) \<longleftrightarrow> (\<exists>es. map f xs = map Some es \<and> Q (e # es))"
  by (force simp: Cons_eq_map_conv)

lemma relation_endpoints_from_Nil:
  "relation_endpoints_from cap_ids fact_ids index seen relations = [] \<longleftrightarrow>
     (\<exists>es. map authored_edge_of (filter is_mapping relations) = map Some es \<and>
           (\<forall>e \<in> set es. endpoint_ok cap_ids fact_ids e \<and> e \<notin> set seen) \<and> distinct es)"
proof (induction cap_ids fact_ids index seen relations rule: relation_endpoints_from.induct)
  case (2 cap_ids fact_ids index seen r rest)
  show ?case
  proof (cases "is_mapping r")
    case False
    then show ?thesis using "2.IH"(1) by simp
  next
    case mapping: True
    show ?thesis
    proof (cases "authored_relation_type r")
      case None
      then show ?thesis using mapping by (auto simp: authored_edge_of_def)
    next
      case t: (Some t)
      show ?thesis
      proof (cases "authored_edge t r")
        case None
        then show ?thesis using mapping t
          by (auto simp: relation_endpoint_issues_Nil authored_edge_of_def)
      next
        case e: (Some e)
        show ?thesis
        proof (cases "e \<in> set seen")
          case True
          then show ?thesis using mapping t e by (auto simp: authored_edge_of_def Cons_eq_map_conv)
        next
          case False
          then have "relation_endpoints_from cap_ids fact_ids index seen (r # rest) = [] \<longleftrightarrow>
              endpoint_ok cap_ids fact_ids e \<and>
              relation_endpoints_from cap_ids fact_ids (Suc index) (e # seen) rest = []"
            using mapping t e by (simp add: relation_endpoint_issues_Nil)
          moreover have "authored_edge_of r = Some e" using t e by (simp add: authored_edge_of_def)
          ultimately show ?thesis
            unfolding "2.IH"(5) [OF _ t e False, simplified mapping, simplified]
            using mapping False by (auto simp del: list.map simp: map_Some_Cons)
        qed
      qed
    qed
  qed
qed simp


text \<open>
  C29: the endpoint check is exact.  It reports nothing precisely when every entry of the relation catalog
  that is a mapping has the type \<open>dependsOn\<close> and joins two declared capabilities, or has the type
  \<open>precondition\<close> and joins a declared capability with a declared Fact Type, and no edge is authored twice.
\<close>

theorem validate_relation_endpoints_iff:
  "validate_relation_endpoints docs = [] \<longleftrightarrow>
     (\<exists>es. map authored_edge_of (filter is_mapping (items (relations_doc docs) ''relations'')) = map Some es
       \<and> list_all (endpoint_ok (capability_ids docs) (fact_type_ids docs)) es \<and> distinct es)"
  by (simp add: validate_relation_endpoints_def relation_endpoints_from_Nil list_all_iff)

section \<open>The authored dependency relation\<close>

definition authored_dependencies :: "source_documents \<Rightarrow> (string \<times> string) set" where
  "authored_dependencies docs =
     {(s, t). \<exists>r \<in> set (items (relations_doc docs) ''relations'').
                authored_dependency (capability_ids docs) r = Some (s, t)}"

lemma dependency_entry_mem:
  "(s, (t, i)) \<in> set (dependency_entry cap_ids ir) \<longleftrightarrow>
     (\<exists>r. ir = (i, r) \<and> authored_dependency cap_ids r = Some (s, t) \<and> s \<noteq> t)"
  by (cases ir; cases "authored_dependency cap_ids (snd ir)") (auto simp: dependency_entry_def)

lemma dependency_table_mem:
  "t \<in> fst ` set (dependency_targets docs s) \<longleftrightarrow> (s, t) \<in> authored_dependencies docs \<and> s \<noteq> t"
proof -
  let ?rs = "items (relations_doc docs) ''relations''"
  have "t \<in> fst ` set (dependency_targets docs s) \<longleftrightarrow>
      (\<exists>i. (s, (t, i)) \<in> set (concat (map (dependency_entry (capability_ids docs)) (enumerate_list ?rs))))"
    unfolding dependency_targets_def dependency_table_def dict_simps set_sort set_map by force
  also have "\<dots> \<longleftrightarrow> (\<exists>i r. (i, r) \<in> set (enumerate_list ?rs) \<and>
      authored_dependency (capability_ids docs) r = Some (s, t) \<and> s \<noteq> t)"
  proof -
    have "(\<exists>i. (s, (t, i)) \<in> set (concat (map (dependency_entry c) xs))) \<longleftrightarrow>
        (\<exists>i r. (i, r) \<in> set xs \<and> authored_dependency c r = Some (s, t) \<and> s \<noteq> t)" for c xs
      unfolding set_concat set_map UN_iff image_image bex_simps Bex_def dependency_entry_mem by blast
    then show ?thesis .
  qed
  also have "\<dots> \<longleftrightarrow> (s, t) \<in> authored_dependencies docs \<and> s \<noteq> t"
    using enumerate_list_ex [of _ ?rs] unfolding authored_dependencies_def by blast
  finally show ?thesis .
qed

lemma edges_dependency_targets: "edges (dependency_targets docs) = authored_dependencies docs - Id"
  by (auto simp: edges_def dependency_table_mem)

lemma self_edge_issue_Nil:
  "concat (map (self_edge_issue (capability_ids docs))
      (enumerate_list (items (relations_doc docs) ''relations''))) = []
   \<longleftrightarrow> authored_dependencies docs \<inter> Id = {}"
proof -
  let ?rs = "items (relations_doc docs) ''relations''"
  have one: "self_edge_issue c ir = [] \<longleftrightarrow> (\<forall>s. authored_dependency c (snd ir) \<noteq> Some (s, s))" for c ir
    by (cases ir) (auto simp: self_edge_issue_def split: option.splits)
  have "concat (map (self_edge_issue (capability_ids docs)) (enumerate_list ?rs)) = [] \<longleftrightarrow>
      (\<forall>r \<in> snd ` set (enumerate_list ?rs). \<forall>s. authored_dependency (capability_ids docs) r \<noteq> Some (s, s))"
    by (simp add: one)
  then show ?thesis unfolding enumerate_list_snd by (auto simp: authored_dependencies_def)
qed

lemma authored_dependencies_known:
  "authored_dependencies docs \<subseteq> set (capability_ids docs) \<times> set (capability_ids docs)"
proof -
  have "s \<in> set (capability_ids docs) \<and> t \<in> set (capability_ids docs)"
    if "authored_dependency (capability_ids docs) r = Some (s, t)" for r s t
    using that unfolding authored_dependency_def by (simp split: if_splits option.splits prod.splits)
  then show ?thesis unfolding authored_dependencies_def by blast
qed

lemma acyclic_minus_Id: "acyclic R \<longleftrightarrow> R \<inter> Id = {} \<and> acyclic (R - Id)"
proof
  assume R: "acyclic R"
  then have "R \<inter> Id = {}" by (auto simp: acyclic_def)
  with R show "R \<inter> Id = {} \<and> acyclic (R - Id)" by (simp add: Diff_triv)
next
  assume a: "R \<inter> Id = {} \<and> acyclic (R - Id)"
  then have "R - Id = R" by (simp add: Diff_triv)
  with a show "acyclic R" by simp
qed

text \<open>
  C14: the cycle check decides acyclicity and never exhausts the interpreter's stack.  With a
  recursion limit of at least the number of distinct capability ids it returns, and it returns no
  issue exactly when the authored \<open>dependsOn\<close> relation between known capabilities is acyclic.
\<close>

theorem validate_dependency_cycles_decides:
  assumes "card (set (capability_ids docs)) \<le> recursion_limit"
  shows "\<exists>issues. validate_dependency_cycles recursion_limit docs = Inr issues
           \<and> (issues = [] \<longleftrightarrow> acyclic (authored_dependencies docs))"
proof -
  let ?roots = "sorted_set (capability_ids docs)"
  have sub: "edges (dependency_targets docs) \<subseteq> set ?roots \<times> set ?roots"
    using authored_dependencies_known by (auto simp: edges_dependency_targets)
  then obtain s rs where run: "dfs_roots recursion_limit (dependency_targets docs)
      dependency_cycle_issue ?roots dfs_start = Inr (s, rs)"
    using dfs_roots_total [of "set ?roots" "dependency_targets docs" dfs_start ?roots recursion_limit
        dependency_cycle_issue] assms
    by (auto simp: dfs_inv_start) (auto simp: dfs_start_def)
  have "rs = [] \<longleftrightarrow> acyclic (authored_dependencies docs - Id)"
    using dfs_acyclic_iff [OF run sub] by (simp add: edges_dependency_targets)
  then show ?thesis
    using run acyclic_minus_Id [of "authored_dependencies docs"]
    by (auto simp: validate_dependency_cycles_def append_results_def self_edge_issue_Nil [symmetric])
qed

text \<open>
  No authored \<open>dependsOn\<close> survives validation when the deriver computes the same pair, whatever
  its declared origin.
\<close>

theorem validate_derivable_relations_rejects:
  assumes clean: "validate_derivable_relations docs = Inr []"
    and view: "derive_data_dependencies docs = Inr view"
    and authored: "r \<in> set (items (relations_doc docs) ''relations'')" "is_mapping r"
      "jget r ''relationType'' = JStr ''dependsOn''"
      "jget r ''capabilityId'' = JStr consumer" "jget r ''dependsOnCapabilityId'' = JStr producer"
  shows "\<nexists>edge. edge \<in> set (view_edges view) \<and> edge_consumer edge = consumer \<and> edge_producer edge = producer"
proof
  assume "\<exists>edge. edge \<in> set (view_edges view) \<and> edge_consumer edge = consumer \<and> edge_producer edge = producer"
  then have "(consumer, producer) \<in> fst ` set (derivable_pairs view)"
    unfolding derivable_pairs_def keys_dict_of by force
  then obtain rid where rid: "map_of (derivable_pairs view) (consumer, producer) = Some rid"
    by (metis (no_types, lifting) dom_map_of_conv_image_fst domD)
  then have "derivable_pairs view \<noteq> []" by auto
  then have all: "\<forall>ir \<in> set (enumerate_list (items (relations_doc docs) ''relations'')).
      validate_derivable_relation (derivable_pairs view) ir = Inr []"
    using clean view by (simp add: validate_derivable_relations_def Let_def collectM_eq_Nil)
  obtain i where "(i, r) \<in> set (enumerate_list (items (relations_doc docs) ''relations''))"
    using authored(1)[THEN enumerate_list_ex [THEN iffD1]] by blast
  with all have "validate_derivable_relation (derivable_pairs view) (i, r) = Inr []" by blast
  with authored rid show False by (simp add: validate_derivable_relation_def Let_def)
qed


text \<open>Two capabilities that depend on each other.\<close>

definition demo_relation :: "string \<Rightarrow> string \<Rightarrow> json" where
  "demo_relation consumer producer = JObj
     [(''relationId'', JStr consumer), (''relationType'', JStr ''dependsOn''),
      (''capabilityId'', JStr consumer), (''dependsOnCapabilityId'', JStr producer)]"

definition demo_cyclic_documents :: source_documents where
  "demo_cyclic_documents =
     (demo_documents [demo_draft, demo_info])
       \<lparr>relations_doc := JObj [(''relations'',
          JList [demo_relation ''Draft'' ''Info'', demo_relation ''Info'' ''Draft''])]\<rparr>"

lemma demo_cyclic_capabilities: "set (capability_ids demo_cyclic_documents) = {''Draft'', ''Info''}"
  by code_simp

lemma demo_cyclic_issues:
  "validate_dependency_cycles 1000 demo_cyclic_documents =
     Inr [ValidationIssue ''/relations/1/dependsOnCapabilityId'' ''DEPENDENCY_CYCLE''
            ''dependsOn cycle detected: Draft -> Info -> Draft'']"
  by code_simp

lemma validate_dependency_cycles_witness:
  "\<not> acyclic (authored_dependencies demo_cyclic_documents)"
  using validate_dependency_cycles_decides [of demo_cyclic_documents 1000]
  by (simp add: demo_cyclic_capabilities demo_cyclic_issues)

definition demo_underivable_documents :: source_documents where
  "demo_underivable_documents =
     (demo_documents [demo_draft, demo_info])
       \<lparr>relations_doc := JObj [(''relations'', JList [demo_relation ''Info'' ''Draft''])]\<rparr>"

lemma demo_underivable_view: "derive_data_dependencies demo_underivable_documents = Inr demo_view"
  by code_simp

lemma demo_underivable: "validate_derivable_relations demo_underivable_documents = Inr []"
  by code_simp

lemma validate_derivable_relations_witness:
  "\<nexists>edge. edge \<in> set (view_edges demo_view) \<and> edge_consumer edge = ''Info'' \<and> edge_producer edge = ''Draft''"
  by (rule validate_derivable_relations_rejects [OF demo_underivable demo_underivable_view,
        of "demo_relation ''Info'' ''Draft''"])
    (simp_all add: demo_underivable_documents_def items_def demo_relation_def)

end
