(* ===== verification/Snapshot.thy ===== *)
theory Snapshot
  imports Contracts
begin

text \<open>
  \<open>semantic_planning/snapshot.py\<close>: the canonical text of a registry document and the
  registry snapshot built from it.  \<open>json_dumps\<close> is \<open>json.dumps(value, ensure_ascii=False,
  sort_keys=True, separators=(",", ":"))\<close>; the digest function (SHA-256, from the standard
  library's native code) is the parameter \<open>sha256_hex\<close>.

  The canonical text does not depend on the order in which a mapping lists its keys, at any
  depth, so two loads of one registry have the same snapshot id.
\<close>

section \<open>Canonical JSON\<close>

definition json_escape_char :: "char \<Rightarrow> string" where
  "json_escape_char c =
     (let n = of_char c :: nat in
      if n = 34 then [CHR 92, CHR 34]
      else if n = 92 then [CHR 92, CHR 92]
      else if n = 10 then [CHR 92, CHR ''n'']
      else if n = 13 then [CHR 92, CHR ''r'']
      else if n = 9 then [CHR 92, CHR ''t'']
      else if n = 12 then [CHR 92, CHR ''f'']
      else if n = 8 then [CHR 92, CHR ''b'']
      else if n < 32 then [CHR 92, CHR ''u'', CHR ''0'', CHR ''0'', hex_digit (n div 16), hex_digit (n mod 16)]
      else [c])"

definition json_string :: "string \<Rightarrow> string" where
  "json_string s = CHR 34 # concat (map json_escape_char s) @ [CHR 34]"

definition json_float :: "string \<Rightarrow> string" where
  "json_float t =
     (if t = ''nan'' then ''NaN'' else if t = ''inf'' then ''Infinity''
      else if t = ''-inf'' then ''-Infinity'' else t)"

text \<open>
  \<open>_json_value\<close> turns read-only views back into dictionaries and lists of the same
  content, so it is the identity on \<open>json\<close>.
\<close>

fun json_value :: "json \<Rightarrow> json" where
  "json_value (JObj kvs) = JObj (map (\<lambda>(key, item). (key, json_value item)) kvs)"
| "json_value (JList vs) = JList (map json_value vs)"
| "json_value v = v"

fun json_dumps :: "json \<Rightarrow> string" where
  "json_dumps JNull = ''null''"
| "json_dumps (JBool b) = (if b then ''true'' else ''false'')"
| "json_dumps (JInt i) = string_of_int i"
| "json_dumps (JFloat t) = json_float t"
| "json_dumps (JStr s) = json_string s"
| "json_dumps (JList xs) = ''['' @ join '','' (map json_dumps xs) @ '']''"
| "json_dumps (JObj kvs) =
     ''{'' @ join '','' (map (\<lambda>kv. json_string (fst kv) @ '':'' @ snd kv)
               (sort_key fst (map (\<lambda>kv. (fst kv, json_dumps (snd kv))) kvs))) @ ''}''"

definition canonical_json_bytes :: "json \<Rightarrow> string" where
  "canonical_json_bytes v = json_dumps (json_value v)"

definition sha256_id :: "(string \<Rightarrow> string) \<Rightarrow> json \<Rightarrow> string" where
  "sha256_id sha256_hex v = ''sha256:'' @ sha256_hex (canonical_json_bytes v)"

lemma json_value_id [simp]: "json_value v = v"
proof (induction v rule: json_value.induct)
  case (1 kvs)
  then show ?case by (force intro!: map_idI)
next
  case (2 vs)
  then show ?case by (simp add: map_idI)
qed auto

section \<open>The snapshot\<close>

text \<open>
  \<open>int(document["version"])\<close>: whole numbers and booleans convert.  The schema stage
  admits no other version, so texts and floats are left to the parameter.
\<close>

definition py_int :: "(json \<Rightarrow> int result) \<Rightarrow> json \<Rightarrow> int result" where
  "py_int int_of_text v =
     (case v of
        JInt i \<Rightarrow> Inr i
      | JBool b \<Rightarrow> Inr (if b then 1 else 0)
      | JStr _ \<Rightarrow> int_of_text v
      | JFloat _ \<Rightarrow> int_of_text v
      | _ \<Rightarrow> Inl (TypeError ''int() argument must be a string or a number''))"

definition source_entry ::
    "(json \<Rightarrow> int result) \<Rightarrow> (string \<Rightarrow> string) \<Rightarrow> string \<times> json \<Rightarrow> snapshot_source result" where
  "source_entry int_of_text sha256_hex = (\<lambda>(path, document).
     rbind (jitem document ''version'') (\<lambda>version.
       rbind (py_int int_of_text version) (\<lambda>n.
         Inr \<lparr>source_path = path, document_version = n, digest = sha256_id sha256_hex document\<rparr>)))"

definition build_registry_snapshot ::
    "(json \<Rightarrow> int result) \<Rightarrow> (string \<Rightarrow> string) \<Rightarrow> source_documents \<Rightarrow> registry_snapshot result" where
  "build_registry_snapshot int_of_text sha256_hex docs =
     (let documents = documents_by_path docs in
      rbind (mapM (source_entry int_of_text sha256_hex) documents) (\<lambda>source_entries.
        Inr \<lparr>snapshot_version = 1, canonicalization_version = 1,
             snapshot_id = sha256_id sha256_hex (JObj documents),
             sources_of = source_entries\<rparr>))"

section \<open>Independence of the key order\<close>

text \<open>Equal up to the order of the keys of the mappings, whose keys are distinct.\<close>

inductive same_json :: "json \<Rightarrow> json \<Rightarrow> bool" where
  same_atom: "same_json v v"
| same_list: "list_all2 same_json xs ys \<Longrightarrow> same_json (JList xs) (JList ys)"
| same_obj: "distinct (map fst kvs) \<Longrightarrow> mset kvs = mset kvs' \<Longrightarrow>
    list_all2 (\<lambda>a b. fst a = fst b \<and> same_json (snd a) (snd b)) kvs' kvs'' \<Longrightarrow>
    same_json (JObj kvs) (JObj kvs'')"

lemma sort_key_distinct_perm:
  fixes xs ys :: "('a::linorder \<times> 'b) list"
  assumes "distinct (map fst xs)" and "mset xs = mset ys"
  shows "sort_key fst xs = sort_key fst ys"
proof (rule sort_key_inj_key_eq)
  show "mset xs = mset (sort_key fst ys)" using assms(2) by simp
  show "inj_on fst (set xs)" using assms(1) by (simp add: distinct_map)
qed simp

lemma json_dumps_same: "same_json a b \<Longrightarrow> json_dumps a = json_dumps b"
proof (induction rule: same_json.induct)
  case (same_list xs ys)
  then have "map json_dumps xs = map json_dumps ys"
    by (induction rule: list_all2_induct) auto
  then show ?case by simp
next
  case (same_obj kvs kvs' kvs'')
  let ?f = "\<lambda>kv. (fst kv, json_dumps (snd kv))"
  have pointwise: "map ?f kvs' = map ?f kvs''"
    using same_obj(3) by (induction rule: list_all2_induct) auto
  have "map fst (map ?f kvs) = map fst kvs" by (induction kvs) auto
  then have "distinct (map fst (map ?f kvs))" using same_obj(1) by (simp only:)
  moreover have "mset (map ?f kvs) = mset (map ?f kvs')" using same_obj(2) by simp
  ultimately have "sort_key fst (map ?f kvs) = sort_key fst (map ?f kvs')"
    by (rule sort_key_distinct_perm)
  with pointwise show ?case by simp
qed simp

text \<open>
  C36: the digest of a document, hence the snapshot id, is the same for two documents that
  differ only in the order of mapping keys at any depth, for every digest function.
\<close>

theorem sha256_id_key_order:
  assumes "same_json a b"
  shows "sha256_id h a = sha256_id h b"
  using json_dumps_same [OF assms] by (simp add: sha256_id_def canonical_json_bytes_def)

lemma sha256_id_key_order_witness:
  "sha256_id id (JObj [(''b'', JInt 1), (''a'', JNull)]) = sha256_id id (JObj [(''a'', JNull), (''b'', JInt 1)])"
  by (rule sha256_id_key_order)
    (rule same_obj [where kvs' = "[(''a'', JNull), (''b'', JInt 1)]"], auto intro: same_atom)

text \<open>The text of a mapping lists its keys in order, each with the text of its value.\<close>

lemma json_dumps_demo:
  "canonical_json_bytes (JObj [(''b'', JList [JInt 1, JBool True]), (''a'', JNull)])
     = ''{'' @ json_string ''a'' @ '':null,'' @ json_string ''b'' @ '':[1,true]}''"
  by code_simp

end
