(* ===== verification/State_Machine.thy ===== *)
theory State_Machine
  imports Prelude
begin

text \<open>
  The interface of the components whose objects move through states: the states a run can
  reach, invariants, and a rank that every step lowers.  A component provides its initial states
  and its step relation and gets rule induction for its invariants and the bound on its runs.
\<close>

locale transition_system =
  fixes start :: "'s \<Rightarrow> bool" and step :: "'s \<Rightarrow> 's \<Rightarrow> bool"
begin

inductive reachable :: "'s \<Rightarrow> bool" where
  reachable_start: "start s \<Longrightarrow> reachable s"
| reachable_step: "reachable s \<Longrightarrow> step s s' \<Longrightarrow> reachable s'"

inductive runs :: "'s \<Rightarrow> nat \<Rightarrow> 's \<Rightarrow> bool" where
  runs_0: "runs s 0 s"
| runs_Suc: "runs s n s' \<Longrightarrow> step s' s'' \<Longrightarrow> runs s (Suc n) s''"

lemma runs_reachable: "runs s n s' \<Longrightarrow> reachable s \<Longrightarrow> reachable s'"
  by (induction rule: runs.induct) (auto intro: reachable_step)

lemma reachable_runs: "reachable s \<longleftrightarrow> (\<exists>s0 n. start s0 \<and> runs s0 n s)"
proof
  assume "reachable s"
  then show "\<exists>s0 n. start s0 \<and> runs s0 n s"
    by (induction rule: reachable.induct) (blast intro: runs_0 runs_Suc)+
next
  assume "\<exists>s0 n. start s0 \<and> runs s0 n s"
  then show "reachable s" using runs_reachable reachable_start by blast
qed

lemma invariant:
  fixes inv :: "'s \<Rightarrow> bool"
  assumes "reachable s" and "\<And>s. start s \<Longrightarrow> inv s" and "\<And>s s'. inv s \<Longrightarrow> step s s' \<Longrightarrow> inv s'"
  shows "inv s"
  using assms(1) by (induction rule: reachable.induct) (auto intro: assms(2,3))

end

text \<open>A system whose steps all lower a number ends.\<close>

locale ranked_system = transition_system start step
  for start :: "'s \<Rightarrow> bool" and step :: "'s \<Rightarrow> 's \<Rightarrow> bool" +
  fixes rank :: "'s \<Rightarrow> nat"
  assumes rank_step: "step s s' \<Longrightarrow> rank s' < rank s"
begin

lemma run_length: "runs s n s' \<Longrightarrow> n + rank s' \<le> rank s"
proof (induction rule: runs.induct)
  case (runs_Suc s n s' s'')
  with rank_step [of s' s''] show ?case by simp
qed simp

lemma no_return: "runs s n s' \<Longrightarrow> 0 < n \<Longrightarrow> s' \<noteq> s"
  using run_length by fastforce

lemma steps_wf: "wf {(s', s). step s s'}"
  by (rule wf_subset [OF wf_measure [of rank]]) (auto dest: rank_step)

end

end
