(* ===== verification/Approval.thy ===== *)
theory Approval
  imports Snapshot State_Machine
begin

text \<open>
  \<open>approval.py\<close>: the record that stands between a WRITE capability and its execution, its
  four states, the append-only chain of its migrations and its dictionary form.

  The clock, the identifiers and the text form of a time come from the standard library: each
  operation gets the moments it reads and the identifier of its trace event as a \<open>stamp\<close>, and
  \<open>isoformat\<close>, \<open>fromisoformat\<close> are parameters.  The trace file is the list of
  the objects appended to it.
\<close>

section \<open>Times\<close>

text \<open>Microseconds since the first day of year 1, with the offset from UTC if the time has one.\<close>

datatype datetime = Naive int | Aware int int

definition max_micros :: int where
  "max_micros = 315537897599999999"

fun add_seconds :: "datetime \<Rightarrow> int \<Rightarrow> datetime result" where
  "add_seconds (Naive m) s =
     (if 0 \<le> m + s * 1000000 \<and> m + s * 1000000 \<le> max_micros then Inr (Naive (m + s * 1000000))
      else Inl (OverflowError ''date value out of range''))"
| "add_seconds (Aware m off) s =
     (if 0 \<le> m + s * 1000000 \<and> m + s * 1000000 \<le> max_micros then Inr (Aware (m + s * 1000000) off)
      else Inl (OverflowError ''date value out of range''))"

fun later :: "datetime \<Rightarrow> datetime \<Rightarrow> bool result" where
  "later (Aware m off) (Aware m' off') = Inr (m' - off' < m - off)"
| "later (Naive m) (Naive m') = Inr (m' < m)"
| "later _ _ = Inl (TypeError ''can't compare offset-naive and offset-aware datetimes'')"

section \<open>Records\<close>

datatype approval_state = Pending | Approved | Executed | Rejected

fun state_value :: "approval_state \<Rightarrow> string" where
  "state_value Pending = ''pending''"
| "state_value Approved = ''approved''"
| "state_value Executed = ''executed''"
| "state_value Rejected = ''rejected''"

definition approval_state_of :: "string \<Rightarrow> approval_state result" where
  "approval_state_of s =
     (case find (\<lambda>st. state_value st = s) [Pending, Approved, Executed, Rejected] of
        Some st \<Rightarrow> Inr st
      | None \<Rightarrow> Inl (ValueError (repr_str s @ '' is not a valid ApprovalState'')))"

text \<open>\<open>from_state\<close> is kept as the payload has it: a text or null.\<close>

record state_transition =
  from_state :: json
  to_state :: string
  event :: string
  timestamp :: string
  actor :: string
  evidence_ref :: string

definition transition_to_dict :: "state_transition \<Rightarrow> json" where
  "transition_to_dict t = JObj
     ([(''fromState'', from_state t), (''toState'', JStr (to_state t)), (''event'', JStr (event t)),
       (''timestamp'', JStr (timestamp t)), (''actor'', JStr (actor t))]
      @ (if evidence_ref t \<noteq> [] then [(''evidenceRef'', JStr (evidence_ref t))] else []))"

definition text_field :: "json \<Rightarrow> string \<Rightarrow> string" where
  "text_field payload key = plain_str (jget_default payload key (JStr []))"

definition transition_from_dict :: "json \<Rightarrow> state_transition result" where
  "transition_from_dict payload =
     (if is_mapping payload then
        Inr \<lparr>from_state = jget payload ''fromState'', to_state = text_field payload ''toState'',
             event = text_field payload ''event'', timestamp = text_field payload ''timestamp'',
             actor = text_field payload ''actor'', evidence_ref = text_field payload ''evidenceRef''\<rparr>
      else Inl (AttributeError ''get''))"

record approval_record =
  approval_id :: string
  capability_of :: string
  parameter_snapshot_hash :: string
  parameters :: "(string \<times> string) list"
  approver :: string
  approved_at :: datetime
  expires_at :: datetime
  status :: approval_state
  registry_snapshot_id :: string
  capability_version :: string
  approval_subject_hash :: string
  transitions :: "state_transition list"

definition text_object :: "(string \<times> string) list \<Rightarrow> json" where
  "text_object kvs = JObj (map (\<lambda>(k, v). (k, JStr v)) kvs)"

definition text_entry :: "string \<Rightarrow> string \<Rightarrow> (string \<times> json) list" where
  "text_entry key value = (if value \<noteq> [] then [(key, JStr value)] else [])"

definition approval_to_dict :: "(datetime \<Rightarrow> string) \<Rightarrow> approval_record \<Rightarrow> json" where
  "approval_to_dict isoformat r = JObj
     ([(''approvalId'', JStr (approval_id r)), (''capabilityId'', JStr (capability_of r)),
       (''parameterSnapshotHash'', JStr (parameter_snapshot_hash r)),
       (''parameters'', text_object (parameters r)),
       (''approver'', JStr (approver r)), (''approvedAt'', JStr (isoformat (approved_at r))),
       (''expiresAt'', JStr (isoformat (expires_at r))), (''status'', JStr (state_value (status r)))]
      @ text_entry ''registrySnapshotId'' (registry_snapshot_id r)
      @ text_entry ''capabilityVersion'' (capability_version r)
      @ text_entry ''approvalSubjectHash'' (approval_subject_hash r)
      @ (if transitions r \<noteq> [] then [(''transitions'', JList (map transition_to_dict (transitions r)))] else []))"

text \<open>
  \<open>dict(payload.get("parameters") or {})\<close>; what \<open>dict\<close> makes of a value that is no
  mapping is the parameter \<open>dict_of_pairs\<close>.
\<close>

definition text_parameters ::
    "(json \<Rightarrow> (string \<times> json) list result) \<Rightarrow> json \<Rightarrow> (string \<times> string) list result" where
  "text_parameters dict_of_pairs v =
     map_sum id (\<lambda>kvs. dict_of (map (\<lambda>(k, w). (k, plain_str w)) kvs))
       (if \<not> truthy v then Inr [] else (case v of JObj kvs \<Rightarrow> Inr kvs | _ \<Rightarrow> dict_of_pairs v))"

definition approval_from_dict ::
    "(string \<Rightarrow> datetime result) \<Rightarrow> (json \<Rightarrow> (string \<times> json) list result) \<Rightarrow> json \<Rightarrow> approval_record result" where
  "approval_from_dict fromisoformat dict_of_pairs payload =
     (if \<not> is_mapping payload then Inl (AttributeError ''get'')
      else
        rbind (text_parameters dict_of_pairs (jget payload ''parameters'')) (\<lambda>params.
        rbind (fromisoformat (text_field payload ''approvedAt'')) (\<lambda>approved.
        rbind (fromisoformat (text_field payload ''expiresAt'')) (\<lambda>expires.
        rbind (approval_state_of (text_field payload ''status'')) (\<lambda>st.
        rbind (iter_or_empty (jget payload ''transitions'')) (\<lambda>chain.
        rbind (mapM transition_from_dict chain) (\<lambda>ts.
          Inr \<lparr>approval_id = text_field payload ''approvalId'', capability_of = text_field payload ''capabilityId'',
               parameter_snapshot_hash = text_field payload ''parameterSnapshotHash'', parameters = params,
               approver = text_field payload ''approver'', approved_at = approved, expires_at = expires,
               status = st, registry_snapshot_id = text_field payload ''registrySnapshotId'',
               capability_version = text_field payload ''capabilityVersion'',
               approval_subject_hash = text_field payload ''approvalSubjectHash'', transitions = ts\<rparr>)))))))"

section \<open>Operations\<close>

definition compute_parameter_hash :: "(string \<Rightarrow> string) \<Rightarrow> (string \<times> string) list \<Rightarrow> string" where
  "compute_parameter_hash sha256_hex params =
     ''sha256:'' @ sha256_hex (json_dumps (text_object params))"

definition default_ttl_seconds :: int where
  "default_ttl_seconds = 600"

text \<open>The environment variable, if set, and what \<open>int\<close> makes of its text.\<close>

definition resolve_ttl :: "(string \<Rightarrow> int option) \<Rightarrow> string option \<Rightarrow> int option \<Rightarrow> int" where
  "resolve_ttl int_of_text env_val ttl_seconds =
     (case ttl_seconds of
        Some ttl \<Rightarrow> ttl
      | None \<Rightarrow>
          (case env_val of
             None \<Rightarrow> default_ttl_seconds
           | Some text \<Rightarrow>
               (if text = [] then default_ttl_seconds
                else (case int_of_text text of None \<Rightarrow> default_ttl_seconds | Some ttl \<Rightarrow> ttl))))"

record stamp =
  moment :: datetime
  trace_moment :: datetime
  trace_id :: string

definition trace_event ::
    "(datetime \<Rightarrow> string) \<Rightarrow> stamp \<Rightarrow> approval_record \<Rightarrow> approval_state option \<Rightarrow> approval_state \<Rightarrow> json" where
  "trace_event isoformat stamp r source target = JObj
     [(''traceId'', JStr (trace_id stamp)), (''approvalId'', JStr (approval_id r)),
      (''capabilityId'', JStr (capability_of r)),
      (''parameterSnapshotHash'', JStr (parameter_snapshot_hash r)),
      (''parametersSummary'', JObj
         [(''keys'', JList (map JStr (sort (map fst (parameters r))))),
          (''count'', JInt (int (length (parameters r))))]),
      (''approver'', JStr (approver r)),
      (''fromState'', case source of None \<Rightarrow> JNull | Some st \<Rightarrow> JStr (state_value st)),
      (''toState'', JStr (state_value target)),
      (''timestamp'', JStr (isoformat (trace_moment stamp)))]"

record approval_request =
  req_capability :: string
  req_parameters :: "(string \<times> string) list"
  req_approver :: string
  req_registry_snapshot :: string
  req_capability_version :: string
  req_subject_hash :: string

definition create_approval_record ::
    "(datetime \<Rightarrow> string) \<Rightarrow> (string \<Rightarrow> string) \<Rightarrow> stamp \<Rightarrow> string \<Rightarrow> int \<Rightarrow> approval_request \<Rightarrow> json list
     \<Rightarrow> (approval_record \<times> json list) result" where
  "create_approval_record isoformat sha256_hex stamp uuid ttl req log =
     rbind (add_seconds (moment stamp) ttl) (\<lambda>expires.
       let r = \<lparr>approval_id = ''appr-'' @ uuid, capability_of = req_capability req,
                parameter_snapshot_hash = compute_parameter_hash sha256_hex (req_parameters req),
                parameters = req_parameters req, approver = req_approver req, approved_at = moment stamp,
                expires_at = expires, status = Pending, registry_snapshot_id = req_registry_snapshot req,
                capability_version = req_capability_version req, approval_subject_hash = req_subject_hash req,
                transitions = [\<lparr>from_state = JNull, to_state = state_value Pending, event = ''approval-created'',
                  timestamp = isoformat (moment stamp), actor = req_approver req, evidence_ref = []\<rparr>]\<rparr>
       in Inr (r, log @ [trace_event isoformat stamp r None Pending]))"

definition transition ::
    "(datetime \<Rightarrow> string) \<Rightarrow> stamp \<Rightarrow> approval_record \<Rightarrow> approval_state \<Rightarrow> approval_state list \<Rightarrow> string
     \<Rightarrow> string option \<Rightarrow> string \<Rightarrow> json list \<Rightarrow> (approval_record \<times> json list) result" where
  "transition isoformat stamp r target allowed_from name actor_text evidence log =
     (if status r \<notin> set allowed_from then
        Inl (Refused ''InvalidApprovalTransition''
          (''Cannot transition '' @ state_value (status r) @ '' -> '' @ state_value target
           @ ''; allowed from: '' @ repr_list (map (\<lambda>s. repr_str (state_value s)) allowed_from)))
      else
        (let migration = \<lparr>from_state = JStr (state_value (status r)), to_state = state_value target, event = name,
               timestamp = isoformat (moment stamp),
               actor = (case actor_text of None \<Rightarrow> approver r | Some a \<Rightarrow> if a = [] then approver r else a),
               evidence_ref = evidence\<rparr>;
             updated = r\<lparr>status := target,
               approved_at := (if target = Approved then moment stamp else approved_at r),
               transitions := transitions r @ [migration]\<rparr>
         in Inr (updated, log @ [trace_event isoformat stamp updated (Some (status r)) target])))"

definition approve ::
    "(datetime \<Rightarrow> string) \<Rightarrow> stamp \<Rightarrow> approval_record \<Rightarrow> string \<Rightarrow> json list \<Rightarrow> (approval_record \<times> json list) result" where
  "approve isoformat stamp r evidence log =
     transition isoformat stamp r Approved [Pending] ''approved'' None evidence log"

definition mark_executed ::
    "(datetime \<Rightarrow> string) \<Rightarrow> stamp \<Rightarrow> approval_record \<Rightarrow> string \<Rightarrow> json list \<Rightarrow> (approval_record \<times> json list) result" where
  "mark_executed isoformat stamp r evidence log =
     transition isoformat stamp r Executed [Approved] ''executed'' None evidence log"

definition reject ::
    "(datetime \<Rightarrow> string) \<Rightarrow> stamp \<Rightarrow> approval_record \<Rightarrow> string \<Rightarrow> json list \<Rightarrow> (approval_record \<times> json list) result" where
  "reject isoformat stamp r evidence log =
     transition isoformat stamp r Rejected [Pending, Approved] ''rejected'' None evidence log"

definition is_expired :: "approval_record \<Rightarrow> datetime \<Rightarrow> bool result" where
  "is_expired r now = later (case now of Naive m \<Rightarrow> Aware m 0 | Aware _ _ \<Rightarrow> now) (expires_at r)"

section \<open>The canonical text of text parameters determines them\<close>

definition escaped_chars :: "char list" where
  "escaped_chars = map char_of ([34, 92] @ [0..<32])"

lemma escaped_chars_mem: "c \<in> set escaped_chars \<longleftrightarrow> of_char c = (34 :: nat) \<or> of_char c = (92 :: nat) \<or> of_char c < (32 :: nat)"
proof -
  have "c \<in> set escaped_chars \<longleftrightarrow> (of_char c :: nat) \<in> set ([34, 92] @ [0..<32])"
  proof
    assume "c \<in> set escaped_chars"
    then obtain n where "n \<in> set ([34, 92] @ [0..<32 :: nat])" "c = char_of n"
      unfolding escaped_chars_def set_map by (elim imageE) blast
    then show "(of_char c :: nat) \<in> set ([34, 92] @ [0..<32])" by (auto simp: of_char_of)
  next
    assume "(of_char c :: nat) \<in> set ([34, 92] @ [0..<32])"
    then have "char_of (of_char c :: nat) \<in> set escaped_chars" unfolding escaped_chars_def set_map by (rule imageI)
    then show "c \<in> set escaped_chars" by simp
  qed
  then show ?thesis by auto
qed

lemma plain_escape: "c \<notin> set escaped_chars \<Longrightarrow> json_escape_char c = [c] \<and> c \<noteq> CHR 92 \<and> c \<noteq> CHR 34"
  by (auto simp: escaped_chars_mem json_escape_char_def Let_def)

lemma escaped_shape:
  "\<forall>c \<in> set escaped_chars. take 1 (json_escape_char c) = [CHR 92]
     \<and> length (json_escape_char c) = (if json_escape_char c ! 1 = CHR ''u'' then 6 else 2)"
  by code_simp

lemma escaped_distinct: "distinct (map json_escape_char escaped_chars)"
  by code_simp

lemma json_escape_char_head: "\<exists>x xs. json_escape_char c = x # xs \<and> x \<noteq> CHR 34"
  by (auto simp: json_escape_char_def Let_def)

lemma json_escape_char_inject:
  assumes same: "json_escape_char c @ x = json_escape_char d @ y"
  shows "c = d \<and> x = y"
proof (cases "c \<in> set escaped_chars \<and> d \<in> set escaped_chars")
  case True
  with escaped_shape have shape: "take 1 (json_escape_char c) = [CHR 92]" "take 1 (json_escape_char d) = [CHR 92]"
      "length (json_escape_char c) = (if json_escape_char c ! 1 = CHR ''u'' then 6 else 2)"
      "length (json_escape_char d) = (if json_escape_char d ! 1 = CHR ''u'' then 6 else 2)" by blast+
  have "2 \<le> length (json_escape_char c)" "2 \<le> length (json_escape_char d)"
    unfolding shape(3,4) by simp_all
  then have "json_escape_char c ! 1 = json_escape_char d ! 1"
    using arg_cong [OF same, of "\<lambda>l. l ! 1"] by (simp add: nth_append)
  with shape have "length (json_escape_char c) = length (json_escape_char d)" by simp
  with same have "json_escape_char c = json_escape_char d" "x = y" by simp_all
  with True escaped_distinct show ?thesis by (auto simp: distinct_map inj_on_def)
next
  case False
  have head: "take 1 (json_escape_char e @ z) = (if e \<in> set escaped_chars then [CHR 92] else [e])" for e z
  proof (cases "e \<in> set escaped_chars")
    case True
    then have "take 1 (json_escape_char e) = [CHR 92]" using escaped_shape by blast
    then show ?thesis using True by (cases "json_escape_char e") simp_all
  qed (simp add: plain_escape)
  have "(if c \<in> set escaped_chars then [CHR 92] else [c]) = (if d \<in> set escaped_chars then [CHR 92] else [d])"
    using arg_cong [OF same, of "take 1"] unfolding head .
  with False have "c \<notin> set escaped_chars" "d = c"
    using plain_escape [of c] plain_escape [of d] by (auto split: if_splits)
  with same show ?thesis by (simp add: plain_escape)
qed

lemma json_string_prefix:
  "json_string s @ x = json_string t @ y \<Longrightarrow> s = t \<and> x = y"
proof -
  have "concat (map json_escape_char s) @ CHR 34 # x = concat (map json_escape_char t) @ CHR 34 # y \<Longrightarrow> s = t \<and> x = y"
  proof (induction s arbitrary: t)
    case Nil
    then show ?case using json_escape_char_head by (cases t) (auto, metis append_Cons list.inject)
  next
    case (Cons c s)
    show ?case
    proof (cases t)
      case Nil
      then show ?thesis using Cons.prems json_escape_char_head [of c] by auto
    next
      case t: (Cons d t')
      with Cons.prems have "json_escape_char c @ concat (map json_escape_char s) @ CHR 34 # x
          = json_escape_char d @ concat (map json_escape_char t') @ CHR 34 # y" by simp
      from json_escape_char_inject [OF this] Cons.IH [of t'] t show ?thesis by simp
    qed
  qed
  then show "json_string s @ x = json_string t @ y \<Longrightarrow> s = t \<and> x = y" by (simp add: json_string_def)
qed

definition text_pair :: "string \<times> string \<Rightarrow> string" where
  "text_pair kv = json_string (fst kv) @ '':'' @ json_string (snd kv)"

lemma text_pair_prefix:
  assumes "text_pair a @ x = text_pair b @ y"
  shows "a = b \<and> x = y"
proof -
  from assms have "json_string (fst a) @ '':'' @ json_string (snd a) @ x = json_string (fst b) @ '':'' @ json_string (snd b) @ y"
    by (simp add: text_pair_def)
  from json_string_prefix [OF this] have "fst a = fst b" "json_string (snd a) @ x = json_string (snd b) @ y" by simp_all
  with json_string_prefix [OF this(2)] show ?thesis by (simp add: prod_eq_iff)
qed

lemma join_comma_inject:
  "join '','' (map text_pair ps) @ ''}'' = join '','' (map text_pair qs) @ ''}'' \<Longrightarrow> ps = qs"
proof (induction ps arbitrary: qs)
  case Nil
  show ?case
  proof (cases qs)
    case (Cons q qs')
    then show ?thesis using Nil by (cases qs') (auto simp: text_pair_def json_string_def)
  qed simp
next
  case (Cons p ps)
  let ?tail = "\<lambda>rs. (if rs = [] then [] else '','' @ join '','' (map text_pair rs)) @ ''}''"
  have unfold: "join '','' (map text_pair (r # rs)) @ ''}'' = text_pair r @ ?tail rs" for r rs
    by (cases rs) simp_all
  obtain q qs' where qs: "qs = q # qs'"
  proof (cases qs)
    case Nil
    then have False using Cons.prems unfolding unfold by (auto simp: text_pair_def json_string_def)
    then show ?thesis ..
  qed (use that in blast)
  from Cons.prems have "text_pair p @ ?tail ps = text_pair q @ ?tail qs'" unfolding qs unfold .
  from text_pair_prefix [OF this] have "p = q" "?tail ps = ?tail qs'" by simp_all
  moreover from this(2) Cons.IH [of qs'] have "ps = qs'" by (cases ps; cases qs') (auto split: if_splits)
  ultimately show ?case using qs by simp
qed

lemma text_dumps: "json_dumps (text_object params) = ''{'' @ join '','' (map text_pair (sort_key fst params)) @ ''}''"
proof -
  have "sort_key fst (map (\<lambda>kv. (fst kv, json_string (snd kv))) params)
      = map (\<lambda>kv. (fst kv, json_string (snd kv))) (sort_key fst params)"
  proof -
    have "insort_key fst (fst kv, h (snd kv)) (map (\<lambda>kv. (fst kv, h (snd kv))) xs)
        = map (\<lambda>kv. (fst kv, h (snd kv))) (insort_key fst kv xs)" for kv :: "string \<times> string" and h :: "string \<Rightarrow> string" and xs
      by (induction xs) auto
    then have "sort_key fst (map (\<lambda>kv. (fst kv, h (snd kv))) params)
        = map (\<lambda>kv. (fst kv, h (snd kv))) (sort_key fst params)" for h :: "string \<Rightarrow> string"
      by (induction params) simp_all
    then show ?thesis .
  qed
  then show ?thesis
    by (simp add: text_object_def case_prod_beta comp_def text_pair_def [abs_def])
qed

lemma text_dumps_inject:
  assumes "json_dumps (text_object ps) = json_dumps (text_object qs)"
  shows "mset ps = mset qs"
proof -
  from assms have "join '','' (map text_pair (sort_key fst ps)) @ ''}'' = join '','' (map text_pair (sort_key fst qs)) @ ''}''"
    unfolding text_dumps by simp
  then have "sort_key fst ps = sort_key fst qs" by (rule join_comma_inject)
  then show ?thesis by (metis mset_sort)
qed

lemma text_dumps_order:
  assumes "mset ps = mset qs" and "distinct (map fst ps)"
  shows "json_dumps (text_object ps) = json_dumps (text_object qs)"
  unfolding text_dumps using sort_key_distinct_perm [OF assms(2,1)] by simp

text \<open>
  C22: the parameter hash binds an approval to its parameters: as long as the digest does not collide
  on the two texts, two parameter sets have the same hash exactly when they hold the same entries, in
  whatever order.
\<close>

theorem compute_parameter_hash_binds:
  assumes "distinct (map fst ps)"
    and "h (json_dumps (text_object ps)) = h (json_dumps (text_object qs))
      \<Longrightarrow> json_dumps (text_object ps) = json_dumps (text_object qs)"
  shows "compute_parameter_hash h ps = compute_parameter_hash h qs \<longleftrightarrow> mset ps = mset qs"
proof
  assume "compute_parameter_hash h ps = compute_parameter_hash h qs"
  then have "h (json_dumps (text_object ps)) = h (json_dumps (text_object qs))"
    by (simp add: compute_parameter_hash_def)
  then show "mset ps = mset qs" using assms(2) text_dumps_inject by blast
next
  assume "mset ps = mset qs"
  then show "compute_parameter_hash h ps = compute_parameter_hash h qs"
    using text_dumps_order [OF _ assms(1), of qs] by (simp add: compute_parameter_hash_def)
qed

lemma compute_parameter_hash_binds_witness:
  "compute_parameter_hash id [(''b'', ''1''), (''a'', ''x'')] = compute_parameter_hash id [(''a'', ''x''), (''b'', ''1'')]
   \<and> compute_parameter_hash id [(''a'', ''x''), (''b'', ''1'')] \<noteq> compute_parameter_hash id [(''a'', ''x''), (''b'', ''2'')]"
proof
  show "compute_parameter_hash id [(''b'', ''1''), (''a'', ''x'')] = compute_parameter_hash id [(''a'', ''x''), (''b'', ''1'')]"
    by (subst compute_parameter_hash_binds) auto
  show "compute_parameter_hash id [(''a'', ''x''), (''b'', ''1'')] \<noteq> compute_parameter_hash id [(''a'', ''x''), (''b'', ''2'')]"
    by (subst compute_parameter_hash_binds) (simp_all add: add_eq_conv_ex)
qed

section \<open>The life of an approval\<close>

text \<open>A record with the trace file that its operations append to.\<close>

type_synonym approval_run = "approval_record \<times> json list"

inductive approval_start :: "(datetime \<Rightarrow> string) \<Rightarrow> (string \<Rightarrow> string) \<Rightarrow> approval_run \<Rightarrow> bool"
  for isoformat sha256_hex where
  created: "create_approval_record isoformat sha256_hex stamp uuid ttl req log = Inr run \<Longrightarrow>
    approval_start isoformat sha256_hex run"

inductive approval_step :: "(datetime \<Rightarrow> string) \<Rightarrow> approval_run \<Rightarrow> approval_run \<Rightarrow> bool" for isoformat where
  approved: "approve isoformat stamp r evidence log = Inr run \<Longrightarrow> approval_step isoformat (r, log) run"
| executed: "mark_executed isoformat stamp r evidence log = Inr run \<Longrightarrow> approval_step isoformat (r, log) run"
| rejected: "reject isoformat stamp r evidence log = Inr run \<Longrightarrow> approval_step isoformat (r, log) run"

inductive_cases approval_stepE: "approval_step isoformat (r, log) (r', log')"

lemma transition_Inr:
  "transition isoformat stamp r target allowed name who evidence log = Inr (r', log') \<longleftrightarrow>
     status r \<in> set allowed \<and> log' = log @ [trace_event isoformat stamp r' (Some (status r)) target] \<and>
     r' = r\<lparr>status := target, approved_at := (if target = Approved then moment stamp else approved_at r),
        transitions := transitions r @ [\<lparr>from_state = JStr (state_value (status r)), to_state = state_value target,
          event = name, timestamp = isoformat (moment stamp),
          actor = (case who of None \<Rightarrow> approver r | Some a \<Rightarrow> if a = [] then approver r else a),
          evidence_ref = evidence\<rparr>]\<rparr>"
  by (auto simp: transition_def Let_def)

lemmas operation_defs = approve_def mark_executed_def reject_def

fun approval_rank :: "approval_run \<Rightarrow> nat" where
  "approval_rank (r, log) = (case status r of Pending \<Rightarrow> 2 | Approved \<Rightarrow> 1 | _ \<Rightarrow> 0)"

interpretation approvals: ranked_system "approval_start isoformat sha256_hex" "approval_step isoformat" approval_rank
  for isoformat sha256_hex
proof unfold_locales
  fix s s'
  assume "approval_step isoformat s s'"
  then show "approval_rank s' < approval_rank s"
    by (cases s; cases s') (auto elim!: approval_stepE simp: operation_defs transition_Inr)
qed

definition approval_reachable :: "(datetime \<Rightarrow> string) \<Rightarrow> (string \<Rightarrow> string) \<Rightarrow> approval_run \<Rightarrow> bool" where
  "approval_reachable isoformat sha256_hex = approvals.reachable isoformat sha256_hex"

definition lifecycle :: "(approval_state \<times> approval_state list) list" where
  "lifecycle = [(Pending, [Pending]), (Approved, [Pending, Approved]), (Executed, [Pending, Approved, Executed]),
     (Rejected, [Pending, Rejected]), (Rejected, [Pending, Approved, Rejected])]"

text \<open>The chain of migrations a record carries and the events it wrote tell the same story.\<close>

fun chain_from :: "json \<Rightarrow> approval_state list \<Rightarrow> (json \<times> string) list" where
  "chain_from source [] = []"
| "chain_from source (s # states) = (source, state_value s) # chain_from (JStr (state_value s)) states"

lemma chain_from_append:
  "states \<noteq> [] \<Longrightarrow> chain_from source (states @ [s])
     = chain_from source states @ [(JStr (state_value (last states)), state_value s)]"
  by (induction source states rule: chain_from.induct) auto

lemma length_chain_from [simp]: "length (chain_from source states) = length states"
  by (induction source states rule: chain_from.induct) auto

definition event_migration :: "json \<Rightarrow> json \<times> json" where
  "event_migration e = (jget e ''fromState'', jget e ''toState'')"

definition approval_ok :: "(datetime \<Rightarrow> string) \<Rightarrow> (string \<Rightarrow> string) \<Rightarrow> approval_run \<Rightarrow> bool" where
  "approval_ok isoformat sha256_hex = (\<lambda>(r, log).
     parameter_snapshot_hash r = compute_parameter_hash sha256_hex (parameters r)
     \<and> (\<exists>states. (status r, states) \<in> set lifecycle
          \<and> map (\<lambda>t. (from_state t, to_state t)) (transitions r) = chain_from JNull states)
     \<and> (\<exists>earlier events. log = earlier @ events
          \<and> map event_migration events = map (\<lambda>t. (from_state t, JStr (to_state t))) (transitions r))
     \<and> (status r \<in> {Approved, Executed} \<longrightarrow> timestamp (transitions r ! 1) = isoformat (approved_at r)))"

lemma approval_okI:
  assumes "parameter_snapshot_hash r = compute_parameter_hash sha256_hex (parameters r)"
    and "(status r, states) \<in> set lifecycle"
    and "map (\<lambda>t. (from_state t, to_state t)) (transitions r) = chain_from JNull states"
    and "log = earlier @ events"
    and "map event_migration events = map (\<lambda>t. (from_state t, JStr (to_state t))) (transitions r)"
    and "status r \<in> {Approved, Executed} \<Longrightarrow> timestamp (transitions r ! 1) = isoformat (approved_at r)"
  shows "approval_ok isoformat sha256_hex (r, log)"
  using assms unfolding approval_ok_def by blast

lemma trace_event_migration [simp]:
  "event_migration (trace_event isoformat stamp r source target)
     = (case source of None \<Rightarrow> JNull | Some s \<Rightarrow> JStr (state_value s), JStr (state_value target))"
  by (simp add: event_migration_def trace_event_def)

lemma approval_ok_start:
  assumes "approval_start isoformat sha256_hex s"
  shows "approval_ok isoformat sha256_hex s"
  using assms
proof cases
  case (created stamp uuid ttl req log)
  then obtain r where s: "s = (r, log @ [trace_event isoformat stamp r None Pending])"
    and r: "status r = Pending" "parameter_snapshot_hash r = compute_parameter_hash sha256_hex (parameters r)"
      "map (\<lambda>t. (from_state t, to_state t)) (transitions r) = [(JNull, ''pending'')]"
      "map (\<lambda>t. (from_state t, JStr (to_state t))) (transitions r) = [(JNull, JStr ''pending'')]"
    by (auto simp: create_approval_record_def result_simps Let_def)
  show ?thesis
    unfolding s
    by (rule approval_okI [OF r(2), where states = "[Pending]" and earlier = log
          and events = "[trace_event isoformat stamp r None Pending]"])
      (simp_all add: r lifecycle_def)
qed

lemma approval_ok_step:
  assumes ok: "approval_ok isoformat sha256_hex s" and step: "approval_step isoformat s s'"
  shows "approval_ok isoformat sha256_hex s'"
proof -
  obtain r log r' log' where s: "s = (r, log)" "s' = (r', log')" by (cases s; cases s')
  from step [unfolded s] obtain stamp target allowed name evidence where
    trans: "transition isoformat stamp r target allowed name None evidence log = Inr (r', log')"
    and target: "(target, allowed) \<in> set [(Approved, [Pending]), (Executed, [Approved]), (Rejected, [Pending, Approved])]"
    by (cases rule: approval_stepE) (auto simp: operation_defs)
  from ok [unfolded s approval_ok_def] obtain states earlier events where
    old: "(status r, states) \<in> set lifecycle" "map (\<lambda>t. (from_state t, to_state t)) (transitions r) = chain_from JNull states"
      "log = earlier @ events" "map event_migration events = map (\<lambda>t. (from_state t, JStr (to_state t))) (transitions r)"
      "parameter_snapshot_hash r = compute_parameter_hash sha256_hex (parameters r)"
      "status r \<in> {Approved, Executed} \<longrightarrow> timestamp (transitions r ! 1) = isoformat (approved_at r)" by auto
  from trans have new: "status r \<in> set allowed" "status r' = target" "parameters r' = parameters r"
      "parameter_snapshot_hash r' = parameter_snapshot_hash r"
      "log' = log @ [trace_event isoformat stamp r' (Some (status r)) target]"
      "approved_at r' = (if target = Approved then moment stamp else approved_at r)"
      "\<exists>t. transitions r' = transitions r @ [t] \<and> from_state t = JStr (state_value (status r))
         \<and> to_state t = state_value target \<and> timestamp t = isoformat (moment stamp)"
    by (auto simp: transition_Inr)
  from old(1) have last: "states \<noteq> []" "last states = status r" by (auto simp: lifecycle_def)
  have len: "length (transitions r) = length states" using arg_cong [OF old(2), of length] by simp
  have "(target, states @ [target]) \<in> set lifecycle" using old(1) new(1) target by (auto simp: lifecycle_def)
  moreover have "map (\<lambda>t. (from_state t, to_state t)) (transitions r') = chain_from JNull (states @ [target])"
    using new(7) old(2) last chain_from_append [of states JNull target] by auto
  moreover have "log' = earlier @ (events @ [trace_event isoformat stamp r' (Some (status r)) target])"
    using new(5) old(3) by simp
  moreover have "map event_migration (events @ [trace_event isoformat stamp r' (Some (status r)) target])
      = map (\<lambda>t. (from_state t, JStr (to_state t))) (transitions r')" using new(7) old(4) by auto
  moreover have "timestamp (transitions r' ! 1) = isoformat (approved_at r')" if "target \<in> {Approved, Executed}"
  proof (cases "target = Approved")
    case True
    then have "states = [Pending]" using old(1) new(1) target by (auto simp: lifecycle_def)
    then show ?thesis using True new(6,7) len by (auto simp: nth_append)
  next
    case False
    then have "states = [Pending, Approved]" "status r = Approved" using that old(1) new(1) target by (auto simp: lifecycle_def)
    then show ?thesis using False new(6,7) old(6) len by (auto simp: nth_append)
  qed
  ultimately show ?thesis
    unfolding s
    by (intro approval_okI [where states = "states @ [target]" and earlier = earlier
          and events = "events @ [trace_event isoformat stamp r' (Some (status r)) target]"])
      (simp_all only: new(2-4) old(5))
qed

lemma approval_invariant:
  assumes "approval_reachable isoformat sha256_hex s"
  shows "approval_ok isoformat sha256_hex s"
  using assms unfolding approval_reachable_def
  by (rule approvals.invariant) (auto intro: approval_ok_start approval_ok_step)

text \<open>
  C11: every approval that the operations can produce carries one of the five life cycles as its chain
  of migrations, each migration starting where the one before ended; an executed approval was approved
  first.  The trace file got one event per migration, with the same states in the same order, the
  recorded approval time is that of the approving migration, and the parameter hash is still the hash of
  the parameters.
\<close>

theorem approval_lifecycle:
  assumes "approval_reachable isoformat sha256_hex (r, log)"
  shows "parameter_snapshot_hash r = compute_parameter_hash sha256_hex (parameters r)
    \<and> (\<exists>states. (status r, states) \<in> set lifecycle
         \<and> map (\<lambda>t. (from_state t, to_state t)) (transitions r) = chain_from JNull states)
    \<and> (\<exists>earlier events. log = earlier @ events
         \<and> map event_migration events = map (\<lambda>t. (from_state t, JStr (to_state t))) (transitions r))
    \<and> (status r = Executed \<longrightarrow> to_state (transitions r ! 1) = ''approved''
         \<and> timestamp (transitions r ! 1) = isoformat (approved_at r))"
proof -
  from approval_invariant [OF assms] obtain states where ok: "approval_ok isoformat sha256_hex (r, log)"
    "(status r, states) \<in> set lifecycle" "map (\<lambda>t. (from_state t, to_state t)) (transitions r) = chain_from JNull states"
    by (auto simp: approval_ok_def)
  have "to_state (transitions r ! 1) = ''approved''" if "status r = Executed"
  proof -
    from that ok(2) have "states = [Pending, Approved, Executed]" by (auto simp: lifecycle_def)
    with ok(3) show ?thesis by (auto simp: Cons_eq_map_conv map_eq_Cons_conv)
  qed
  with ok(1) show ?thesis by (auto simp: approval_ok_def)
qed

text \<open>
  C25: an approval moves at most twice after it was made, and an executed or rejected one never moves
  again: each operation succeeds exactly from the states it names and refuses every other.
\<close>

theorem approval_runs_end:
  assumes "approvals.runs isoformat (r, log) n (r', log')"
  shows "n \<le> 2 \<and> (status r \<in> {Executed, Rejected} \<longrightarrow> n = 0 \<and> r' = r)"
proof -
  have bound: "n + approval_rank (r', log') \<le> approval_rank (r, log)"
    using approvals.run_length [OF assms] .
  then have "n \<le> 2" by (auto split: approval_state.splits)
  moreover have "n = 0 \<and> r' = r" if "status r \<in> {Executed, Rejected}"
  proof -
    from that bound have "n = 0" by auto
    with assms show ?thesis by (auto elim: approvals.runs.cases)
  qed
  ultimately show ?thesis by blast
qed

definition refused :: "'a result \<Rightarrow> bool" where
  "refused m = (case m of Inl (Refused class message) \<Rightarrow> class = ''InvalidApprovalTransition'' | _ \<Rightarrow> False)"

text \<open>
  C23: approving succeeds exactly from pending, executing exactly from approved and rejecting from pending
  or approved; any other attempt raises InvalidApprovalTransition.
\<close>

theorem approval_operations_refuse:
  "(case approve isoformat stamp r evidence log of
      Inr (r', log') \<Rightarrow> status r = Pending \<and> status r' = Approved
    | Inl e \<Rightarrow> status r \<noteq> Pending \<and> refused (Inl e :: approval_run result))
   \<and> (case mark_executed isoformat stamp r evidence log of
      Inr (r', log') \<Rightarrow> status r = Approved \<and> status r' = Executed
    | Inl e \<Rightarrow> status r \<noteq> Approved \<and> refused (Inl e :: approval_run result))
   \<and> (case reject isoformat stamp r evidence log of
      Inr (r', log') \<Rightarrow> status r \<in> {Pending, Approved} \<and> status r' = Rejected
    | Inl e \<Rightarrow> status r \<in> {Executed, Rejected} \<and> refused (Inl e :: approval_run result))"
  by (cases "status r") (simp_all add: operation_defs transition_def Let_def refused_def)

text \<open>
  C24: an operation changes the state, the approval time and the chain only: what was approved (capability,
  parameters, their hash, the snapshot and subject it is bound to), who may approve it and until when stay
  as they were, and the chain is only appended to.
\<close>

theorem approval_step_preserves:
  assumes "approval_step isoformat (r, log) (r', log')"
  shows "approval_id r' = approval_id r \<and> capability_of r' = capability_of r
    \<and> parameters r' = parameters r \<and> parameter_snapshot_hash r' = parameter_snapshot_hash r
    \<and> approver r' = approver r \<and> expires_at r' = expires_at r
    \<and> registry_snapshot_id r' = registry_snapshot_id r \<and> capability_version r' = capability_version r
    \<and> approval_subject_hash r' = approval_subject_hash r
    \<and> (\<exists>t. transitions r' = transitions r @ [t]) \<and> (\<exists>e. log' = log @ [e])"
  using assms by (cases rule: approval_stepE) (auto simp: operation_defs transition_Inr)

section \<open>Reading a stored record\<close>

lemma plain_str_JStr [simp]: "plain_str (JStr s) = s" by simp

lemma transition_roundtrip: "transition_from_dict (transition_to_dict t) = Inr t"
  by (cases t) (auto simp: transition_from_dict_def transition_to_dict_def text_field_def jget_def jget_default_def)

lemma approval_state_of_value [simp]: "approval_state_of (state_value s) = Inr s"
  by (cases s) (simp_all add: approval_state_of_def)

lemma text_parameters_text_object:
  assumes "distinct (map fst kvs)"
  shows "text_parameters d (text_object kvs) = Inr kvs"
proof -
  have "fold (\<lambda>(k, v). AList.update k v) xs d = d @ xs"
    if "distinct (map fst d @ map fst xs)" for xs d :: "(string \<times> string) list"
    using that
  proof (induction xs arbitrary: d)
    case (Cons e xs)
    have "AList.update k v d = d @ [(k, v)]" if "k \<notin> fst ` set d" for k v
      using that by (induction d) auto
    with Cons show ?case by (cases e) auto
  qed simp
  from this [of "[]" kvs] assms have "dict_of kvs = kvs" by (simp add: dict_of_def)
  then show ?thesis by (auto simp: text_parameters_def text_object_def case_prod_beta comp_def dict_of_def)
qed

text \<open>
  C26: a stored record reads back as itself: \<open>from_dict\<close> of \<open>to_dict\<close> gives the record,
  where the standard library reads back the two times it wrote.
\<close>

theorem approval_roundtrip:
  assumes "distinct (map fst (parameters r))"
    and "fromisoformat (isoformat (approved_at r)) = Inr (approved_at r)"
    and "fromisoformat (isoformat (expires_at r)) = Inr (expires_at r)"
  shows "approval_from_dict fromisoformat d (approval_to_dict isoformat r) = Inr r"
proof -
  let ?p = "approval_to_dict isoformat r"
  have get: "jget ?p ''parameters'' = text_object (parameters r)"
    "text_field ?p ''approvedAt'' = isoformat (approved_at r)" "text_field ?p ''expiresAt'' = isoformat (expires_at r)"
    "text_field ?p ''status'' = state_value (status r)" "text_field ?p ''approvalId'' = approval_id r"
    "text_field ?p ''capabilityId'' = capability_of r" "text_field ?p ''parameterSnapshotHash'' = parameter_snapshot_hash r"
    "text_field ?p ''approver'' = approver r"
    by (simp_all add: approval_to_dict_def jget_def jget_default_def text_field_def)
  have tail: "text_field ?p ''registrySnapshotId'' = registry_snapshot_id r"
    "text_field ?p ''capabilityVersion'' = capability_version r"
    "text_field ?p ''approvalSubjectHash'' = approval_subject_hash r"
    "iter_or_empty (jget ?p ''transitions'') = Inr (map transition_to_dict (transitions r))"
    by (simp_all add: approval_to_dict_def jget_def jget_default_def text_field_def text_entry_def)
  have chain: "mapM transition_from_dict (map transition_to_dict ts) = Inr ts" for ts
    by (induction ts) (simp_all add: transition_roundtrip)
  have mapping: "is_mapping ?p" by (simp add: approval_to_dict_def)
  show ?thesis
    unfolding approval_from_dict_def get tail text_parameters_text_object [OF assms(1)] assms(2,3)
    by (simp add: chain mapping)
qed

section \<open>One approval from request to execution\<close>

definition demo_iso :: "datetime \<Rightarrow> string" where
  "demo_iso d = (case d of Naive m \<Rightarrow> string_of_int m | Aware m off \<Rightarrow> string_of_int m @ ''+'' @ string_of_int off)"

definition demo_stamp :: stamp where
  "demo_stamp = \<lparr>moment = Aware 5 0, trace_moment = Aware 6 0, trace_id = ''t''\<rparr>"

definition demo_request :: approval_request where
  "demo_request = \<lparr>req_capability = ''Order'', req_parameters = [(''plant'', ''1000'')], req_approver = ''ann'',
     req_registry_snapshot = ''s'', req_capability_version = [], req_subject_hash = []\<rparr>"

definition demo_pending :: approval_run where
  "demo_pending = projr (create_approval_record demo_iso id demo_stamp ''u'' 600 demo_request [])"

definition demo_approved :: approval_run where
  "demo_approved = projr (approve demo_iso demo_stamp (fst demo_pending) [] (snd demo_pending))"

definition demo_executed :: approval_run where
  "demo_executed = projr (mark_executed demo_iso demo_stamp (fst demo_approved) ''doc'' (snd demo_approved))"

lemma demo_steps:
  "approval_start demo_iso id demo_pending"
  "approval_step demo_iso demo_pending demo_approved"
  "approval_step demo_iso demo_approved demo_executed"
proof -
  have "create_approval_record demo_iso id demo_stamp ''u'' 600 demo_request [] = Inr demo_pending"
    "approve demo_iso demo_stamp (fst demo_pending) [] (snd demo_pending) = Inr demo_approved"
    "mark_executed demo_iso demo_stamp (fst demo_approved) ''doc'' (snd demo_approved) = Inr demo_executed"
    by code_simp+
  from approval_start.created [OF this(1)] approval_step.approved [OF this(2)] approval_step.executed [OF this(3)]
  show "approval_start demo_iso id demo_pending"
    "approval_step demo_iso demo_pending demo_approved"
    "approval_step demo_iso demo_approved demo_executed" by (simp_all only: prod.collapse)
qed

lemma demo_reachable: "approval_reachable demo_iso id demo_executed"
  unfolding approval_reachable_def
  using demo_steps approvals.reachable_start approvals.reachable_step by blast

lemma approval_lifecycle_witness: "to_state (transitions (fst demo_executed) ! 1) = ''approved''"
proof -
  have "approval_reachable demo_iso id (fst demo_executed, snd demo_executed)" using demo_reachable by simp
  moreover have "status (fst demo_executed) = Executed" by code_simp
  ultimately show ?thesis using approval_lifecycle by blast
qed

lemma approval_runs_end_witness: "\<not> approvals.runs demo_iso (fst demo_executed, []) 1 demo_executed"
proof
  assume "approvals.runs demo_iso (fst demo_executed, []) 1 demo_executed"
  then have "approvals.runs demo_iso (fst demo_executed, []) 1 (fst demo_executed, snd demo_executed)" by simp
  moreover have "status (fst demo_executed) = Executed" by code_simp
  ultimately show False using approval_runs_end by fastforce
qed

lemma approval_step_preserves_witness:
  "parameters (fst demo_approved) = parameters (fst demo_pending)"
  using approval_step_preserves [of demo_iso "fst demo_pending" "snd demo_pending" "fst demo_approved" "snd demo_approved"]
    demo_steps(2) by simp

lemma demo_executed_fields:
  "parameters (fst demo_executed) = [(''plant'', ''1000'')] \<and> approved_at (fst demo_executed) = Aware 5 0
   \<and> expires_at (fst demo_executed) = Aware 600000005 0"
  by code_simp

lemma approval_roundtrip_witness:
  "approval_from_dict (\<lambda>s. Inr (if s = ''early'' then Aware 5 0 else Aware 600000005 0)) (\<lambda>_. Inr [])
     (approval_to_dict (\<lambda>d. if d = Aware 5 0 then ''early'' else ''late'') (fst demo_executed)) = Inr (fst demo_executed)"
  by (rule approval_roundtrip) (simp_all add: demo_executed_fields)

end
