(* ===== verification/Cards.thy ===== *)
theory Cards
  imports Contracts
begin

text \<open>
  \<open>planner/capability_card.py\<close> and \<open>ontology_planning/registry_view.py\<close>: what the
  planner sees of the registry.  The documents are the frozen ones of \<open>Contracts\<close>; every
  \<open>.get\<close> on a value that nobody checked may raise.
\<close>

section \<open>Cards\<close>

record input_descriptor =
  desc_name :: string
  desc_semantic_type :: string
  desc_required :: bool
  desc_binding_kind :: string
  desc_satisfiable_by :: "string option"

record card_governance =
  card_side_effect :: string
  card_requires_approval :: bool
  card_data_classification :: string

record capability_card =
  card_id :: string
  card_name :: string
  card_governance_of :: card_governance
  card_visibility :: string
  card_produces :: "string list"
  card_inputs :: "input_descriptor list"
  card_snapshot_id :: string

definition coerce_mapping :: "json \<Rightarrow> json" where
  "coerce_mapping v = (if is_mapping v then v else JObj [])"

definition project_input :: "json \<Rightarrow> input_descriptor option" where
  "project_input raw =
     (case jget raw ''name'' of
        JStr n \<Rightarrow>
          (if n = [] then None
           else Some \<lparr>desc_name = n,
             desc_semantic_type =
               frozen_str (jget_default raw ''semanticType'' (jget_default raw ''type'' (JStr ''string''))),
             desc_required = truthy (jget_default raw ''required'' (JBool False)),
             desc_binding_kind = frozen_str (jget_default raw ''bindingKind'' (JStr ''literal'')),
             desc_satisfiable_by =
               (if truthy (jget raw ''satisfiableByFactType'')
                then Some (frozen_str (jget raw ''satisfiableByFactType'')) else None)\<rparr>)
      | _ \<Rightarrow> None)"

definition project_governance :: "json \<Rightarrow> card_governance" where
  "project_governance raw =
     \<lparr>card_side_effect = frozen_str (jget_default raw ''sideEffect'' (JStr ''none'')),
      card_requires_approval = truthy (jget_default raw ''requiresApproval'' (JBool False)),
      card_data_classification = frozen_str (jget_default raw ''dataClassification'' (JStr ''internal''))\<rparr>"

definition output_ref :: "json \<Rightarrow> string list" where
  "output_ref output =
     (if is_mapping output then
        (case jget output ''factTypeRef'' of JStr ref \<Rightarrow> (if ref \<noteq> [] then [ref] else []) | _ \<Rightarrow> [])
      else [])"

definition project_produces_fact_types :: "json \<Rightarrow> string list" where
  "project_produces_fact_types raw_outputs =
     (case raw_outputs of
        JList outputs \<Rightarrow>
          fold (\<lambda>ref fact_types. if ref \<in> set fact_types then fact_types else fact_types @ [ref])
            (concat (map output_ref outputs)) []
      | _ \<Rightarrow> [])"

definition discover_card :: "registry_snapshot \<Rightarrow> json \<Rightarrow> capability_card list result" where
  "discover_card snapshot raw =
     (if \<not> is_mapping raw \<or> jget raw ''status'' \<noteq> JStr ''active'' then Inr []
      else (case jget raw ''capabilityId'' of
          JStr i \<Rightarrow>
            (if i = [] then Inr []
             else rbind (iter_or_empty (jget raw ''inputs'')) (\<lambda>raw_inputs.
               Inr [\<lparr>card_id = i, card_name = frozen_str (jget_default raw ''name'' (JStr [])),
                  card_governance_of = project_governance (coerce_mapping (jget raw ''governance'')),
                  card_visibility = ''VISIBLE_DRY_RUN'',
                  card_produces = project_produces_fact_types (jget raw ''outputs''),
                  card_inputs = List.map_filter project_input (filter is_mapping raw_inputs),
                  card_snapshot_id = snapshot_id snapshot\<rparr>]))
        | _ \<Rightarrow> Inr []))"

definition discover_cards :: "registry_snapshot \<Rightarrow> source_documents \<Rightarrow> capability_card list result" where
  "discover_cards snapshot docs =
     (let raw = jget (coerce_mapping (capabilities_doc docs)) ''capabilities'' in
      if \<not> truthy raw then Inr []
      else (case raw of JList raws \<Rightarrow> collectM (discover_card snapshot) raws | _ \<Rightarrow> Inr []))"

section \<open>Views of the registry\<close>

text \<open>\<open>sources.capabilities.get("capabilities", [])\<close>\<close>

definition capability_items :: "source_documents \<Rightarrow> json list result" where
  "capability_items docs = rbind (get_attr (capabilities_doc docs) ''capabilities'' (JList [])) py_iter"

definition read_capability_id :: "json \<Rightarrow> json list result" where
  "read_capability_id cap =
     rbind (get_attr cap ''governance'' (JObj [])) (\<lambda>governance.
       if jget cap ''status'' \<noteq> JStr ''active'' \<or> jget cap ''kind'' \<noteq> JStr ''Function'' then Inr []
       else rbind (get_attr governance ''sideEffect'' (JStr ''none'')) (\<lambda>effect.
         if effect \<noteq> JStr ''none'' then Inr []
         else if truthy (jget_default governance ''requiresApproval'' (JBool False)) then Inr []
         else rbind (jitem cap ''capabilityId'') (\<lambda>i.
           if frozen_hashable i then Inr [i] else Inl (TypeError ''unhashable type''))))"

definition read_capability_ids :: "source_documents \<Rightarrow> json list result" where
  "read_capability_ids docs = rbind (capability_items docs) (collectM read_capability_id)"

definition output_fact_ref :: "json \<Rightarrow> json list result" where
  "output_fact_ref output =
     rbind (get_attr output ''factTypeRef'' JNull) (\<lambda>ref.
       if \<not> truthy ref then Inr []
       else if frozen_hashable ref then Inr [ref] else Inl (TypeError ''unhashable type''))"

definition capability_fact_type :: "json \<Rightarrow> (json \<times> json) list result" where
  "capability_fact_type cap =
     rbind (get_attr cap ''outputs'' (JList [])) (\<lambda>raw. rbind (py_iter raw) (\<lambda>outputs.
       rbind (collectM output_fact_ref outputs) (\<lambda>refs.
         case remdups refs of
           [ref] \<Rightarrow> rbind (jitem cap ''capabilityId'') (\<lambda>i.
             if frozen_hashable i then Inr [(i, ref)] else Inl (TypeError ''unhashable type''))
         | _ \<Rightarrow> Inr [])))"

definition capability_fact_types :: "source_documents \<Rightarrow> (json \<times> json) list result" where
  "capability_fact_types docs =
     rbind (capability_items docs) (\<lambda>caps. rbind (collectM capability_fact_type caps) (\<lambda>kvs. Inr (dict_of kvs)))"

text \<open>
  \<open>{item["capabilityId"]: item ...}\<close>, restricted to the identifiers that are texts: no card has
  another.
\<close>

definition raw_entry :: "json \<Rightarrow> (string \<times> json) list result" where
  "raw_entry item =
     rbind (jitem item ''capabilityId'') (\<lambda>i.
       case i of JStr s \<Rightarrow> Inr [(s, item)]
       | _ \<Rightarrow> if frozen_hashable i then Inr [] else Inl (TypeError ''unhashable type''))"

definition raw_capabilities :: "source_documents \<Rightarrow> (string \<times> json) list result" where
  "raw_capabilities docs =
     rbind (capability_items docs) (\<lambda>caps. rbind (collectM raw_entry caps) (\<lambda>kvs. Inr (dict_of kvs)))"

section \<open>Lemmas\<close>

lemma set_fold_add:
  "set (fold (\<lambda>ref fs. if ref \<in> set fs then fs else fs @ [ref]) refs acc) = set acc \<union> set refs"
  by (induction refs arbitrary: acc) auto

lemma distinct_fold_add:
  "distinct acc \<Longrightarrow> distinct (fold (\<lambda>ref fs. if ref \<in> set fs then fs else fs @ [ref]) refs acc)"
  by (induction refs arbitrary: acc) auto

lemma produces_mem:
  "f \<in> set (project_produces_fact_types raw) \<longleftrightarrow>
     (\<exists>outputs. raw = JList outputs \<and> (\<exists>out \<in> set outputs. is_mapping out \<and> f \<noteq> [] \<and> jget out ''factTypeRef'' = JStr f))"
  by (cases raw) (force simp: project_produces_fact_types_def set_fold_add output_ref_def
      split: json.splits if_splits)+

lemma distinct_produces: "distinct (project_produces_fact_types raw)"
  by (cases raw) (simp_all add: project_produces_fact_types_def distinct_fold_add)

text \<open>A card and the capability it was made of.\<close>

definition card_of :: "registry_snapshot \<Rightarrow> json \<Rightarrow> capability_card \<Rightarrow> bool" where
  "card_of snapshot raw c \<longleftrightarrow>
     is_mapping raw \<and> jget raw ''status'' = JStr ''active'' \<and> jget raw ''capabilityId'' = JStr (card_id c)
     \<and> card_id c \<noteq> [] \<and> card_governance_of c = project_governance (coerce_mapping (jget raw ''governance''))
     \<and> card_produces c = project_produces_fact_types (jget raw ''outputs'')
     \<and> (\<exists>raws. iter_or_empty (jget raw ''inputs'') = Inr raws
          \<and> card_inputs c = List.map_filter project_input (filter is_mapping raws))"

lemma discover_card_mem:
  assumes "discover_card snapshot raw = Inr cards" and "c \<in> set cards"
  shows "card_of snapshot raw c"
  using assms
  by (auto simp: discover_card_def card_of_def result_simps split: if_splits json.splits)

lemma discover_cards_mem:
  assumes "discover_cards snapshot docs = Inr cards" and "c \<in> set cards"
  obtains raws raw where "jget (coerce_mapping (capabilities_doc docs)) ''capabilities'' = JList raws"
    and "raw \<in> set raws" and "card_of snapshot raw c"
proof -
  from assms obtain raws where raws: "jget (coerce_mapping (capabilities_doc docs)) ''capabilities'' = JList raws"
    "collectM (discover_card snapshot) raws = Inr cards"
    by (auto simp: discover_cards_def Let_def split: if_splits json.splits)
  from raws(2) assms(2) obtain raw cs where "raw \<in> set raws" "discover_card snapshot raw = Inr cs" "c \<in> set cs"
    using collectM_member [OF raws(2)] by blast
  with raws(1) discover_card_mem that show ?thesis by blast
qed

end
