(* ===== verification/Schema_Stage.thy ===== *)
theory Schema_Stage
  imports Snapshot
begin

text \<open>
  The schema stage of \<open>semantic_planning/validation.py\<close>: \<open>_validate_source_schemas\<close> and what
  it uses.  The JSON Schema library is not under src/; its \<open>iter_errors\<close> is the parameter
  \<open>iter_errors\<close>, from the schema's file name and the converted document to the errors it yields,
  and \<open>schema_error\<close> holds the attributes of an error the code reads.

  A loaded document is a \<open>source_value\<close>, which may hold what JSON cannot: keys that are no texts, objects
  of other types, and containers that enclose themselves.
\<close>

section \<open>Paths\<close>

datatype token = Key string | Index nat

fun token_str :: "token \<Rightarrow> string" where
  "token_str (Key s) = s"
| "token_str (Index n) = string_of_nat n"

definition escape_pointer_char :: "char \<Rightarrow> string" where
  "escape_pointer_char c =
     (if c = CHR ''~'' then ''~0'' else if c = CHR ''/'' then ''~1'' else [c])"

definition pointer_token :: "token \<Rightarrow> string" where
  "pointer_token t = concat (map escape_pointer_char (token_str t))"

definition pointer :: "token list \<Rightarrow> string" where
  "pointer tokens = concat (map (\<lambda>t. ''/'' @ pointer_token t) tokens)"

definition source_path_of :: "token list \<Rightarrow> string \<Rightarrow> string \<Rightarrow> string \<Rightarrow> string" where
  "source_path_of tokens source_base collection_name collection_path =
     (case tokens of
        t # rest \<Rightarrow> (if t = Key collection_name then collection_path @ pointer rest
                     else source_base @ pointer tokens)
      | [] \<Rightarrow> source_base)"

section \<open>Loaded values\<close>

text \<open>
  What the YAML loader builds.  \<open>SBack\<close> stands for a container that is met again inside itself, so that a value
  with cycles is a finite tree; \<open>SOther\<close> is an object of another type, given by its name.
\<close>

datatype map_key = Text_Key string | Other_Key

datatype source_value =
    SNull
  | SBool bool
  | SInt int
  | SFloat string
  | SStr string
  | SList "source_value list"
  | SMap "(map_key \<times> source_value) list"
  | SBack
  | SOther string

fun of_json :: "json \<Rightarrow> source_value" where
  "of_json JNull = SNull"
| "of_json (JBool b) = SBool b"
| "of_json (JInt i) = SInt i"
| "of_json (JFloat t) = SFloat t"
| "of_json (JStr s) = SStr s"
| "of_json (JList vs) = SList (map of_json vs)"
| "of_json (JObj kvs) = SMap (map (\<lambda>kv. (Text_Key (fst kv), of_json (snd kv))) kvs)"

text \<open>The four documents the stage reads.\<close>

record loaded_documents =
  capabilities_value :: source_value
  executor_bindings_value :: source_value
  fact_types_value :: source_value
  relations_value :: source_value

definition loaded :: "source_documents \<Rightarrow> loaded_documents" where
  "loaded docs = \<lparr>capabilities_value = of_json (capabilities_doc docs),
     executor_bindings_value = of_json (executor_bindings_doc docs), fact_types_value = of_json (fact_types_doc docs),
     relations_value = of_json (relations_doc docs)\<rparr>"

section \<open>Conversion to JSON values\<close>

record collection =
  source_base :: string
  collection_name :: string
  collection_path :: string

definition max_json_container_depth :: nat where
  "max_json_container_depth = 64"

definition collection_path_of :: "collection \<Rightarrow> token list \<Rightarrow> string" where
  "collection_path_of c tokens =
     source_path_of tokens (source_base c) (collection_name c) (collection_path c)"

definition conversion_issue :: "collection \<Rightarrow> token list \<Rightarrow> string \<Rightarrow> issue" where
  "conversion_issue c tokens message =
     ValidationIssue (collection_path_of c tokens) ''SCHEMA_INVALID'' message"

definition finite_float :: "string \<Rightarrow> bool" where
  "finite_float t \<longleftrightarrow> t \<notin> {''nan'', ''inf'', ''-inf''}"

fun to_json_value :: "collection \<Rightarrow> token list \<Rightarrow> nat \<Rightarrow> source_value \<Rightarrow> json \<times> issue list"
  and to_json_fields :: "collection \<Rightarrow> token list \<Rightarrow> nat \<Rightarrow> (map_key \<times> source_value) list
        \<Rightarrow> (string \<times> json) list \<times> issue list"
  and to_json_items :: "collection \<Rightarrow> token list \<Rightarrow> nat \<Rightarrow> nat \<Rightarrow> source_value list \<Rightarrow> json list \<times> issue list" where
  "to_json_value c tokens depth (SMap kvs) =
     (if max_json_container_depth \<le> depth then
        (JNull, [conversion_issue c tokens ''JSON container nesting exceeds safe depth''])
      else (case to_json_fields c tokens depth kvs of (kvs', is) \<Rightarrow> (JObj kvs', is)))"
| "to_json_value c tokens depth (SList vs) =
     (if max_json_container_depth \<le> depth then
        (JNull, [conversion_issue c tokens ''JSON container nesting exceeds safe depth''])
      else (case to_json_items c tokens depth 0 vs of (vs', is) \<Rightarrow> (JList vs', is)))"
| "to_json_value c tokens depth SBack =
     (JNull, [conversion_issue c tokens
        (if max_json_container_depth \<le> depth then ''JSON container nesting exceeds safe depth''
         else ''recursive JSON container'')])"
| "to_json_value c tokens depth SNull = (JNull, [])"
| "to_json_value c tokens depth (SBool b) = (JBool b, [])"
| "to_json_value c tokens depth (SInt i) = (JInt i, [])"
| "to_json_value c tokens depth (SStr s) = (JStr s, [])"
| "to_json_value c tokens depth (SFloat t) =
     (if finite_float t then (JFloat t, [])
      else (JNull, [conversion_issue c tokens ''unsupported JSON value: float'']))"
| "to_json_value c tokens depth (SOther type_name) =
     (JNull, [conversion_issue c tokens (''unsupported JSON value: '' @ type_name)])"
| "to_json_fields c tokens depth [] = ([], [])"
| "to_json_fields c tokens depth ((Text_Key key, v) # kvs) =
     (case to_json_value c (tokens @ [Key key]) (Suc depth) v of (v', is) \<Rightarrow>
        (case to_json_fields c tokens depth kvs of (kvs', js) \<Rightarrow> ((key, v') # kvs', is @ js)))"
| "to_json_fields c tokens depth ((Other_Key, v) # kvs) =
     (case to_json_fields c tokens depth kvs of (kvs', js) \<Rightarrow>
        (kvs', conversion_issue c tokens ''mapping keys must be strings'' # js))"
| "to_json_items c tokens depth index [] = ([], [])"
| "to_json_items c tokens depth index (v # vs) =
     (case to_json_value c (tokens @ [Index index]) (Suc depth) v of (v', is) \<Rightarrow>
        (case to_json_items c tokens depth (Suc index) vs of (vs', js) \<Rightarrow> (v' # vs', is @ js)))"

section \<open>Errors of the schema library\<close>

datatype schema_error = SchemaError
  (absolute_path: "token list") (validator: string) (validator_value: json) (err_instance: json)
  (err_schema: json) (err_message: string) (err_context: "schema_error list")

definition error_key :: "schema_error \<Rightarrow> string list \<times> string \<times> string" where
  "error_key e = (map token_str (absolute_path e), validator e, err_message e)"

definition sorted_errors :: "schema_error list \<Rightarrow> schema_error list" where
  "sorted_errors errors = sort_key error_key errors"

text \<open>The texts of a list; the schemas under src/schemas list property names only.\<close>

fun json_texts :: "json \<Rightarrow> string list" where
  "json_texts (JList vs) = concat (map (\<lambda>v. case v of JStr s \<Rightarrow> [s] | _ \<Rightarrow> []) vs)"
| "json_texts _ = []"

fun json_keys :: "json \<Rightarrow> string list" where
  "json_keys (JObj kvs) = map fst kvs"
| "json_keys _ = []"

definition schema_error_details :: "schema_error \<Rightarrow> (token list \<times> string) list" where
  "schema_error_details e =
     (let tokens = absolute_path e; present = json_keys (err_instance e) in
      if validator e = ''required'' \<and> is_mapping (err_instance e) then
        map (\<lambda>field. (tokens @ [Key field], field @ '' is required''))
          (sort (filter (\<lambda>field. field \<notin> set present) (json_texts (validator_value e))))
      else if validator e = ''additionalProperties'' \<and> is_mapping (err_instance e) then
        map (\<lambda>field. (tokens @ [Key field], ''unexpected property: '' @ field))
          (sort (filter (\<lambda>key. key \<notin> set (json_keys (jget (err_schema e) ''properties''))) present))
      else if validator e = ''not'' \<and> is_mapping (err_instance e) \<and> is_mapping (jget (err_schema e) ''not'')
              \<and> is_list (jget (jget (err_schema e) ''not'') ''required'') then
        map (\<lambda>field. (tokens @ [Key field], ''property is not allowed: '' @ field))
          (sort (json_texts (jget (jget (err_schema e) ''not'') ''required'')))
      else [(tokens, err_message e)])"

section \<open>Duplicates of a collection\<close>

definition duplicate_fact_type :: "string \<Rightarrow> nat \<Rightarrow> json \<Rightarrow> issue list option" where
  "duplicate_fact_type path index v =
     (case str_of (jget v ''factTypeId'') of
        Some item_id \<Rightarrow>
          (if item_id = [] then None
           else Some [ValidationIssue (path @ ''/'' @ string_of_nat index @ ''/factTypeId'') ''DUPLICATE_ID''
                        (''duplicate factTypeId: '' @ item_id)])
      | None \<Rightarrow> None)"

definition duplicate_relation :: "string \<Rightarrow> nat \<Rightarrow> json \<Rightarrow> issue list option" where
  "duplicate_relation path index v =
     (let relation_type = jget v ''relationType'';
          target = (if relation_type = JStr ''dependsOn'' then jget v ''dependsOnCapabilityId''
                    else if relation_type = JStr ''precondition'' then jget v ''requiredFactType''
                    else JNull) in
      case (str_of relation_type, str_of (jget v ''relationId''), str_of (jget v ''capabilityId''), str_of target) of
        (Some t, Some r, Some c, Some x) \<Rightarrow>
          (if r = [] \<or> c = [] \<or> x = [] then None
           else Some [ValidationIssue (path @ ''/'' @ string_of_nat index) ''DUPLICATE_ID''
                        (''duplicate authored semantic edge: '' @ repr_tuple [repr_str t, repr_str c, repr_str x]),
                      ValidationIssue (path @ ''/'' @ string_of_nat index @ ''/relationId'') ''DUPLICATE_ID''
                        (''duplicate relationId: '' @ r)])
      | _ \<Rightarrow> None)"

text \<open>The loop: issues, how many entries repeat an earlier one, how many were reconciled.\<close>

fun duplicates_from :: "string \<Rightarrow> string \<Rightarrow> nat \<Rightarrow> string list \<Rightarrow> json list \<Rightarrow> issue list \<times> nat \<times> nat" where
  "duplicates_from name path index seen [] = ([], 0, 0)"
| "duplicates_from name path index seen (v # vs) =
     (let fingerprint = json_dumps v in
      if fingerprint \<notin> set seen then duplicates_from name path (Suc index) (fingerprint # seen) vs
      else (case duplicates_from name path (Suc index) seen vs of (is, n, r) \<Rightarrow>
        (case (if \<not> is_mapping v then None
               else if name = ''factTypes'' then duplicate_fact_type path index v
               else duplicate_relation path index v) of
           None \<Rightarrow> (is, Suc n, r)
         | Some js \<Rightarrow> (js @ is, Suc n, Suc r))))"

definition collection_duplicate_issues :: "string \<Rightarrow> string \<Rightarrow> json \<Rightarrow> issue list \<times> bool" where
  "collection_duplicate_issues name path vs =
     (case vs of
        JList xs \<Rightarrow>
          (if name = ''factTypes'' \<or> name = ''relations'' then
             (case duplicates_from name path 0 [] xs of (is, n, r) \<Rightarrow> (is, 0 < n \<and> n = r))
           else ([], False))
      | _ \<Rightarrow> ([], False))"

section \<open>The stage\<close>

datatype origin =
    Conversion | Semantic_Duplicate | Schema_Placeholder | Fact_Reference_Type
  | Fact_Reference_Forbidden | Schema | Supplemental_Version

definition ends_with :: "string \<Rightarrow> string \<Rightarrow> bool" where
  "ends_with s suffix = starts_with (rev suffix) (rev s)"

definition error_origin :: "schema_error \<Rightarrow> string \<Rightarrow> origin" where
  "error_origin e path =
     (if err_instance e = JNull then Schema_Placeholder
      else if validator e = ''type'' \<and> (ends_with path ''/satisfiableByFactType'' \<or> ends_with path ''/factTypeRef'')
      then Fact_Reference_Type
      else if validator e = ''not'' \<and> ends_with path ''/satisfiableByFactType'' then Fact_Reference_Forbidden
      else Schema)"

definition error_candidates :: "collection \<Rightarrow> schema_error \<Rightarrow> (origin \<times> issue) list" where
  "error_candidates c e =
     (let details = map (\<lambda>(tokens, message).
            let path = collection_path_of c tokens in
            (error_origin e path, ValidationIssue path ''SCHEMA_INVALID'' message)) (schema_error_details e) in
      if validator e = ''uniqueItems'' \<and> absolute_path e = [Key (collection_name c)] then
        (case collection_duplicate_issues (collection_name c) (collection_path c) (err_instance e) of
           (is, fully_reconciled) \<Rightarrow>
             map (Pair Semantic_Duplicate) is @ (if fully_reconciled then [] else details))
      else details)"

definition version_candidates :: "collection \<Rightarrow> int \<Rightarrow> json \<Rightarrow> (origin \<times> issue) list" where
  "version_candidates c expected document =
     (case (if is_mapping document then jget document ''version'' else JNull) of
        JInt version \<Rightarrow>
          (if version \<noteq> expected then
             [(Supplemental_Version, ValidationIssue (source_base c @ ''/version'') ''SCHEMA_INVALID''
                (''version must be '' @ string_of_int expected))]
           else [])
      | _ \<Rightarrow> [])"

definition document_candidates ::
    "(string \<Rightarrow> json \<Rightarrow> schema_error list) \<Rightarrow> source_value \<times> string \<times> collection \<times> int \<Rightarrow> (origin \<times> issue) list" where
  "document_candidates iter_errors = (\<lambda>(document, schema_name, c, expected).
     (case to_json_value c [] 0 document of (json_document, conversion_issues) \<Rightarrow>
        map (Pair Conversion) conversion_issues
        @ concat (map (error_candidates c) (sorted_errors (iter_errors schema_name json_document)))
        @ version_candidates c expected json_document))"

definition source_collections :: "loaded_documents \<Rightarrow> (source_value \<times> string \<times> collection \<times> int) list" where
  "source_collections docs =
     [(capabilities_value docs, ''capability.schema.json'',
       \<lparr>source_base = ''/capabilityRegistry'', collection_name = ''capabilities'', collection_path = ''/capabilities''\<rparr>, 2),
      (executor_bindings_value docs, ''executor-binding.schema.json'',
       \<lparr>source_base = ''/executorBindingCatalog'', collection_name = ''bindings'', collection_path = ''/bindings''\<rparr>, 1),
      (fact_types_value docs, ''fact-type-catalog.schema.json'',
       \<lparr>source_base = ''/factTypeCatalog'', collection_name = ''factTypes'', collection_path = ''/factTypes''\<rparr>, 3),
      (relations_value docs, ''capability-relation.schema.json'',
       \<lparr>source_base = ''/capabilityRelationCatalog'', collection_name = ''relations'', collection_path = ''/relations''\<rparr>, 2)]"

definition paths_with :: "origin \<Rightarrow> (origin \<times> issue) list \<Rightarrow> string list" where
  "paths_with orig candidates = map (\<lambda>c. issue_path (snd c)) (filter (\<lambda>c. fst c = orig) candidates)"

definition suppressed :: "(origin \<times> issue) list \<Rightarrow> origin \<times> issue \<Rightarrow> bool" where
  "suppressed candidates c \<longleftrightarrow>
     fst c = Schema_Placeholder \<and> issue_path (snd c) \<in> set (paths_with Conversion candidates)
     \<or> fst c = Supplemental_Version \<and> issue_path (snd c) \<in> set (paths_with Schema candidates)
     \<or> fst c = Fact_Reference_Forbidden \<and> issue_path (snd c) \<in> set (paths_with Fact_Reference_Type candidates)"

definition select_candidates :: "(origin \<times> issue) list \<Rightarrow> (origin \<times> issue) list" where
  "select_candidates candidates =
     map snd (fold (\<lambda>c. setdefault (issue_key (snd c)) c)
                (filter (\<lambda>c. \<not> suppressed candidates c) candidates) [])"

text \<open>The issues the stage appends, and the duplicates it returns.\<close>

definition validate_source_schemas ::
    "(string \<Rightarrow> json \<Rightarrow> schema_error list) \<Rightarrow> loaded_documents \<Rightarrow> issue list \<times> issue list" where
  "validate_source_schemas iter_errors docs =
     (let selected = select_candidates
            (concat (map (document_candidates iter_errors) (source_collections docs))) in
      (map snd (filter (\<lambda>c. fst c \<noteq> Semantic_Duplicate) selected),
       map snd (filter (\<lambda>c. fst c = Semantic_Duplicate) selected)))"

section \<open>Conversion\<close>

text \<open>
  What JSON can hold: at most \<open>n\<close> containers deep, with text keys only, finite floats, no container inside
  itself and no object of another type.
\<close>

fun portable :: "nat \<Rightarrow> source_value \<Rightarrow> bool" where
  "portable n (SMap kvs) = (case n of 0 \<Rightarrow> False
     | Suc m \<Rightarrow> \<forall>kv \<in> set kvs. fst kv \<noteq> Other_Key \<and> portable m (snd kv))"
| "portable n (SList vs) = (case n of 0 \<Rightarrow> False | Suc m \<Rightarrow> \<forall>v \<in> set vs. portable m v)"
| "portable n (SFloat t) = finite_float t"
| "portable n SBack = False"
| "portable n (SOther type_name) = False"
| "portable n v = True"

lemma to_json_lossless:
  "snd (to_json_value c ts d v) = [] \<Longrightarrow> of_json (fst (to_json_value c ts d v)) = v"
  "snd (to_json_fields c ts d kvs) = [] \<Longrightarrow>
     map (\<lambda>kv. (Text_Key (fst kv), of_json (snd kv))) (fst (to_json_fields c ts d kvs)) = kvs"
  "snd (to_json_items c ts d i vs) = [] \<Longrightarrow> map of_json (fst (to_json_items c ts d i vs)) = vs"
  by (induction c ts d v and c ts d kvs and c ts d i vs
      rule: to_json_value_to_json_fields_to_json_items.induct)
    (auto split: prod.splits if_splits)

lemma to_json_accepts:
  "max_json_container_depth = d + n \<Longrightarrow> snd (to_json_value c ts d v) = [] \<longleftrightarrow> portable n v"
  "max_json_container_depth = Suc d + n \<Longrightarrow>
     snd (to_json_fields c ts d kvs) = [] \<longleftrightarrow> (\<forall>kv \<in> set kvs. fst kv \<noteq> Other_Key \<and> portable n (snd kv))"
  "max_json_container_depth = Suc d + n \<Longrightarrow>
     snd (to_json_items c ts d i vs) = [] \<longleftrightarrow> (\<forall>v \<in> set vs. portable n v)"
proof (induction c ts d v and c ts d kvs and c ts d i vs arbitrary: n and n and n
      rule: to_json_value_to_json_fields_to_json_items.induct)
  case (1 c tokens depth kvs)
  show ?case
  proof (cases n)
    case (Suc m)
    with 1(2) have "\<not> max_json_container_depth \<le> depth" "max_json_container_depth = Suc depth + m" by auto
    then show ?thesis using 1(1) [of m] Suc by (simp add: case_prod_beta)
  qed (use 1(2) in simp)
next
  case (2 c tokens depth vs)
  show ?case
  proof (cases n)
    case (Suc m)
    with 2(2) have "\<not> max_json_container_depth \<le> depth" "max_json_container_depth = Suc depth + m" by auto
    then show ?thesis using 2(1) [of m] Suc by (simp add: case_prod_beta)
  qed (use 2(2) in simp)
next
  case (11 c tokens depth key v kvs)
  show ?case using 11(1) [of n] 11(2) [OF prod.collapse, of n] 11(3) by (simp add: case_prod_beta)
next
  case (14 c tokens depth index v vs)
  show ?case using 14(1) [of n] 14(2) [OF prod.collapse, of n] 14(3) by (simp add: case_prod_beta)
qed (auto simp: case_prod_beta)

text \<open>
  C35: converting a loaded document is lossless or reported.  It yields no issue exactly when the value nests at
  most 64 containers, has only text keys and finite floats, holds no object of another type, and no container
  encloses itself; and exactly then the result is a JSON value that stands for the document unchanged.
\<close>

theorem to_json_value_exact:
  "(snd (to_json_value c tokens 0 v) = [] \<longleftrightarrow> portable 64 v)
   \<and> ((\<exists>j. to_json_value c tokens 0 v = (j, []) \<and> of_json j = v) \<longleftrightarrow> portable 64 v)"
proof -
  have "snd (to_json_value c tokens 0 v) = [] \<longleftrightarrow> portable 64 v"
    using to_json_accepts(1) [of 0 64 c tokens v] by (simp add: max_json_container_depth_def)
  then show ?thesis using to_json_lossless(1) [of c tokens 0 v] by (metis prod.collapse snd_conv)
qed

text \<open>A container that encloses itself, a key that is no text and a date are each reported.\<close>

lemma to_json_value_refusals:
  "map issue_message (snd (to_json_value \<lparr>source_base = ''/d'', collection_name = ''xs'', collection_path = ''/xs''\<rparr> [] 0
     (SMap [(Text_Key ''a'', SList [SBack]), (Other_Key, SNull), (Text_Key ''b'', SOther ''date'')])))
   = [''recursive JSON container'', ''mapping keys must be strings'', ''unsupported JSON value: date'']"
  by code_simp

section \<open>Pointers\<close>

text \<open>Reading a pointer back: a slash starts a token, \<open>~1\<close> and \<open>~0\<close> are unescaped.\<close>

fun unescape_token :: "string \<Rightarrow> string" where
  "unescape_token (a # b # cs) =
     (if a = CHR ''~'' then (if b = CHR ''1'' then CHR ''/'' else CHR ''~'') # unescape_token cs
      else a # unescape_token (b # cs))"
| "unescape_token cs = cs"

function split_tokens :: "string \<Rightarrow> string list" where
  "split_tokens [] = []"
| "split_tokens (c # cs) =
     takeWhile (\<lambda>d. d \<noteq> CHR ''/'') cs # split_tokens (dropWhile (\<lambda>d. d \<noteq> CHR ''/'') cs)"
  by pat_completeness auto
termination
  by (relation "measure length") (auto simp: length_dropWhile_le le_imp_less_Suc)

definition parse_pointer :: "string \<Rightarrow> string list" where
  "parse_pointer s = map unescape_token (split_tokens s)"

lemma unescape_escape: "unescape_token (concat (map escape_pointer_char s)) = s"
proof (induction s)
  case (Cons c s)
  show ?case
  proof (cases "c = CHR ''~'' \<or> c = CHR ''/''")
    case True
    then show ?thesis using Cons by (auto simp: escape_pointer_char_def)
  next
    case False
    then have "concat (map escape_pointer_char (c # s)) = c # concat (map escape_pointer_char s)"
      by (simp add: escape_pointer_char_def)
    then show ?thesis using Cons False by (cases "concat (map escape_pointer_char s)") auto
  qed
qed simp

lemma escape_no_slash: "d \<in> set (concat (map escape_pointer_char s)) \<Longrightarrow> d \<noteq> CHR ''/''"
  by (auto simp: escape_pointer_char_def split: if_splits)

lemma pointer_start: "pointer ts = [] \<or> (\<exists>cs. pointer ts = CHR ''/'' # cs)"
  by (cases ts) (auto simp: pointer_def)

text \<open>
  Issue paths are unambiguous: the tokens of a path can be read back from the pointer text,
  whatever slashes and tildes the keys contain.
\<close>

theorem parse_pointer_pointer: "parse_pointer (pointer tokens) = map token_str tokens"
proof (induction tokens)
  case (Cons t ts)
  have "pointer (t # ts) = CHR ''/'' # pointer_token t @ pointer ts" by (simp add: pointer_def)
  moreover have "takeWhile (\<lambda>d. d \<noteq> CHR ''/'') (pointer_token t @ pointer ts) = pointer_token t
      \<and> dropWhile (\<lambda>d. d \<noteq> CHR ''/'') (pointer_token t @ pointer ts) = pointer ts"
  proof -
    have clean: "\<forall>d \<in> set (pointer_token t). d \<noteq> CHR ''/''"
      using escape_no_slash [of _ "token_str t"] by (auto simp: pointer_token_def)
    from pointer_start [of ts] have "takeWhile (\<lambda>d. d \<noteq> CHR ''/'') (pointer ts) = []"
      "dropWhile (\<lambda>d. d \<noteq> CHR ''/'') (pointer ts) = pointer ts" by auto
    with clean show ?thesis by (simp add: takeWhile_append2 dropWhile_append2)
  qed
  ultimately show ?case
    using Cons by (simp add: parse_pointer_def) (simp add: pointer_token_def unescape_escape)
qed (simp add: parse_pointer_def pointer_def)

section \<open>Selection\<close>

lemma select_Nil_iff: "select_candidates candidates = [] \<longleftrightarrow> (\<forall>c \<in> set candidates. suppressed candidates c)"
proof -
  have grows: "d \<noteq> [] \<Longrightarrow> fold (\<lambda>c. setdefault (issue_key (snd c)) c) cs d \<noteq> []"
    for cs :: "(origin \<times> issue) list" and d
    by (induction cs arbitrary: d) (auto simp: setdefault_def)
  have "fold (\<lambda>c. setdefault (issue_key (snd c)) c) cs [] = [] \<longleftrightarrow> cs = []"
    for cs :: "(origin \<times> issue) list"
    by (cases cs) (simp_all add: setdefault_def grows)
  then show ?thesis by (simp add: select_candidates_def filter_empty_conv)
qed

lemma paths_with_mem: "p \<in> set (paths_with orig cs) \<longleftrightarrow> (\<exists>c \<in> set cs. fst c = orig \<and> issue_path (snd c) = p)"
  by (auto simp: paths_with_def)

text \<open>What a suppressed candidate is suppressed by is itself never suppressed.\<close>

lemma all_suppressed: "(\<forall>c \<in> set cs. suppressed cs c) \<longleftrightarrow> cs = []"
proof
  assume all: "\<forall>c \<in> set cs. suppressed cs c"
  have "\<not> (\<exists>c \<in> set cs. fst c \<in> {Conversion, Schema, Fact_Reference_Type})"
    using all by (auto simp: suppressed_def)
  then have "\<not> suppressed cs c" for c by (auto simp: suppressed_def paths_with_mem)
  with all show "cs = []" by (cases cs) auto
qed simp

text \<open>The loop reconciles an entry only by reporting it.\<close>

lemma duplicates_from_reported: "duplicates_from name path index seen vs = (is, n, r) \<Longrightarrow> 0 < r \<Longrightarrow> is \<noteq> []"
proof (induction vs arbitrary: index seen "is" n r)
  case (Cons v vs)
  obtain is' n' r' where tail: "duplicates_from name path (Suc index) seen vs = (is', n', r')" by (rule prod_cases3)
  show ?case
  proof (cases "json_dumps v \<in> set seen")
    case True
    have "js \<noteq> []" if "duplicate_fact_type path index v = Some js \<or> duplicate_relation path index v = Some js" for js
      using that by (auto simp: duplicate_fact_type_def duplicate_relation_def Let_def split: option.splits if_splits)
    with Cons True tail show ?thesis by (fastforce simp: Let_def split: option.splits if_splits)
  next
    case False
    with Cons.prems show ?thesis by (auto simp: Let_def dest: Cons.IH)
  qed
qed simp

lemma reconciled_reported: "collection_duplicate_issues name path vs = (is, True) \<Longrightarrow> is \<noteq> []"
  by (auto simp: collection_duplicate_issues_def dest: duplicates_from_reported
      split: json.splits if_splits prod.splits)

text \<open>
  An error of the schema library that names no field: a missing property where none is missing, an unexpected
  one where all are declared, a forbidden one where the schema forbids none.
\<close>

definition hollow_error :: "schema_error \<Rightarrow> bool" where
  "hollow_error e \<longleftrightarrow> is_mapping (err_instance e) \<and>
     (validator e = ''required'' \<and> set (json_texts (validator_value e)) \<subseteq> set (json_keys (err_instance e))
      \<or> validator e = ''additionalProperties''
         \<and> set (json_keys (err_instance e)) \<subseteq> set (json_keys (jget (err_schema e) ''properties''))
      \<or> validator e = ''not'' \<and> is_mapping (jget (err_schema e) ''not'')
         \<and> is_list (jget (jget (err_schema e) ''not'') ''required'')
         \<and> json_texts (jget (jget (err_schema e) ''not'') ''required'') = [])"

lemma sort_Nil_iff: "sort xs = [] \<longleftrightarrow> xs = []"
  by (metis mset_sort mset_zero_iff)

lemma schema_error_details_Nil: "schema_error_details e = [] \<longleftrightarrow> hollow_error e"
  by (auto simp: schema_error_details_def hollow_error_def Let_def sort_Nil_iff filter_empty_conv)

lemma error_candidates_Nil: "error_candidates c e = [] \<longleftrightarrow> hollow_error e"
proof (cases "validator e = ''uniqueItems'' \<and> absolute_path e = [Key (collection_name c)]")
  case True
  obtain "is" full where dup:
    "collection_duplicate_issues (collection_name c) (collection_path c) (err_instance e) = (is, full)"
    by (rule prod.exhaust)
  from True have "\<not> hollow_error e" by (simp add: hollow_error_def)
  with True dup reconciled_reported [of "collection_name c" "collection_path c" "err_instance e" "is"]
  show ?thesis by (auto simp: error_candidates_def schema_error_details_Nil)
next
  case False
  then show ?thesis by (auto simp: error_candidates_def schema_error_details_Nil Let_def)
qed

lemma of_json_scalar [simp]:
  "SNull = of_json w \<longleftrightarrow> w = JNull" "SBool b = of_json w \<longleftrightarrow> w = JBool b" "SInt i = of_json w \<longleftrightarrow> w = JInt i"
  "SFloat t = of_json w \<longleftrightarrow> w = JFloat t" "SStr t = of_json w \<longleftrightarrow> w = JStr t"
  by (cases w; auto)+

lemma of_json_inject: "of_json v = of_json w \<longleftrightarrow> v = w"
proof
  show "of_json v = of_json w \<Longrightarrow> v = w"
  proof (induction v arbitrary: w)
    case (JList vs)
    then obtain ws where w: "w = JList ws" and eq: "map of_json vs = map of_json ws" by (cases w) auto
    from eq JList.IH have "vs = ws"
      by (induction vs arbitrary: ws) (auto simp: Cons_eq_map_conv)
    with w show ?case by simp
  next
    case (JObj kvs)
    then obtain kvs' where w: "w = JObj kvs'"
      and eq: "map (\<lambda>kv. (Text_Key (fst kv), of_json (snd kv))) kvs = map (\<lambda>kv. (Text_Key (fst kv), of_json (snd kv))) kvs'"
      by (cases w) auto
    have IH: "snd kv = w" if "kv \<in> set kvs" "of_json (snd kv) = of_json w" for kv w
      using JObj.IH [of kv "snd kv" w] that by (cases kv) simp
    from eq IH have "kvs = kvs'"
      by (induction kvs arbitrary: kvs') (auto simp: Cons_eq_map_conv prod_eq_iff, blast)
    with w show ?case by simp
  qed simp_all
qed simp

lemma document_candidates_Nil:
  "document_candidates iter_errors (v, schema_name, c, expected) = [] \<longleftrightarrow>
     portable 64 v \<and> (\<exists>j. of_json j = v \<and> list_all hollow_error (iter_errors schema_name j)
       \<and> (case jget j ''version'' of JInt n \<Rightarrow> n = expected | _ \<Rightarrow> True))"
proof -
  obtain j "is" where conv: "to_json_value c [] 0 v = (j, is)" by (rule prod.exhaust)
  have issues: "is = [] \<longleftrightarrow> portable 64 v"
    using to_json_accepts(1) [of 0 64 c "[]" v] conv by (simp add: max_json_container_depth_def)
  have version: "version_candidates c expected j = [] \<longleftrightarrow>
      (case jget j ''version'' of JInt n \<Rightarrow> n = expected | _ \<Rightarrow> True)"
    by (auto simp: version_candidates_def jget_non_mapping split: json.splits)
  have errors: "concat (map (error_candidates c) (sorted_errors (iter_errors schema_name j))) = [] \<longleftrightarrow>
      list_all hollow_error (iter_errors schema_name j)"
    by (auto simp: error_candidates_Nil sorted_errors_def list_all_iff)
  have "of_json j = v" if "is = []" using to_json_lossless(1) [of c "[]" 0 v] conv that by simp
  then show ?thesis
    using of_json_inject issues version errors
    by (auto simp: document_candidates_def conv)
qed

text \<open>
  C34: the reconciliation of overlapping findings never turns a bad registry into a clean one.  The stage
  returns no issue and no duplicate exactly when each of the four documents can be written as JSON (it nests at
  most 64 containers, has only text keys and finite floats, no object of another type and no container inside
  itself), the schema library has no error for it but such that name no field, and its version, where it is an
  integer, is the expected one.  In particular no error of \<open>uniqueItems\<close> is ever reconciled away.
\<close>

theorem validate_source_schemas_clean:
  "validate_source_schemas iter_errors docs = ([], []) \<longleftrightarrow>
     list_all (\<lambda>(v, schema_name, c, expected). portable 64 v \<and>
         (\<exists>j. of_json j = v \<and> list_all hollow_error (iter_errors schema_name j)
            \<and> (case jget j ''version'' of JInt n \<Rightarrow> n = expected | _ \<Rightarrow> True)))
       (source_collections docs)"
proof -
  let ?cs = "concat (map (document_candidates iter_errors) (source_collections docs))"
  have "validate_source_schemas iter_errors docs = ([], []) \<longleftrightarrow> select_candidates ?cs = []"
  proof -
    have "filter P xs = [] \<and> filter (\<lambda>x. \<not> P x) xs = [] \<longleftrightarrow> xs = []" for P :: "origin \<times> issue \<Rightarrow> bool" and xs
      by (cases xs) auto
    from this [of "\<lambda>c. fst c \<noteq> Semantic_Duplicate"] show ?thesis
      by (simp add: validate_source_schemas_def Let_def)
  qed
  also have "\<dots> \<longleftrightarrow> list_all (\<lambda>d. document_candidates iter_errors d = []) (source_collections docs)"
    unfolding select_Nil_iff all_suppressed by (auto simp: list_all_iff)
  also have "(\<lambda>d. document_candidates iter_errors d = []) = (\<lambda>(v, schema_name, c, expected). portable 64 v \<and>
         (\<exists>j. of_json j = v \<and> list_all hollow_error (iter_errors schema_name j)
            \<and> (case jget j ''version'' of JInt n \<Rightarrow> n = expected | _ \<Rightarrow> True)))"
    by (auto simp: document_candidates_Nil fun_eq_iff)
  finally show ?thesis .
qed

end
