(* ===== verification/Graph.thy ===== *)
theory Graph
  imports Schema_Stage Contract_Validation
begin

text \<open>
  \<open>semantic_planning/graph.py\<close>: compiling the registry documents into the immutable
  semantic graph, with its sorted edge list and the producer and consumer indexes, and the
  typed reading of a capability entry that the validators and the planner share.

  Compiling reads with subscripts, so a missing key raises.  Ids and endpoints that the schema
  stage has admitted are texts; another value in such a place is a \<open>TypeError\<close> here.
\<close>

section \<open>Edges\<close>

datatype semantic_edge = SemanticEdge (relation_type: string) (source_id: string) (target_id: string)

definition semantic_edge_key :: "semantic_edge \<Rightarrow> string \<times> string \<times> string" where
  "semantic_edge_key e = (relation_type e, source_id e, target_id e)"

lemma semantic_edge_key_inj: "semantic_edge_key e = semantic_edge_key f \<longleftrightarrow> e = f"
  by (cases e; cases f) (simp add: semantic_edge_key_def)

instantiation semantic_edge :: linorder
begin

definition less_eq_semantic_edge :: "semantic_edge \<Rightarrow> semantic_edge \<Rightarrow> bool" where
  "less_eq_semantic_edge e f \<longleftrightarrow> semantic_edge_key e \<le> semantic_edge_key f"

definition less_semantic_edge :: "semantic_edge \<Rightarrow> semantic_edge \<Rightarrow> bool" where
  "less_semantic_edge e f \<longleftrightarrow> semantic_edge_key e < semantic_edge_key f"

instance
  by standard
    (auto simp: less_eq_semantic_edge_def less_semantic_edge_def semantic_edge_key_inj dest: antisym)

end

record semantic_graph =
  graph_capabilities :: "(string \<times> json) list"
  graph_fact_types :: "(string \<times> json) list"
  graph_edges :: "semantic_edge list"
  producers_by_fact_type :: "(string \<times> string list) list"
  consumers_by_fact_type :: "(string \<times> string list) list"

section \<open>Compiling\<close>

text \<open>A container that encloses itself is frozen without end: Python stops at its recursion limit.\<close>

fun deep_freeze :: "source_value \<Rightarrow> json result"
  and freeze_fields :: "(map_key \<times> source_value) list \<Rightarrow> (string \<times> json) list result"
  and freeze_items :: "source_value list \<Rightarrow> json list result" where
  "deep_freeze (SMap kvs) =
     (if Other_Key \<in> fst ` set kvs then Inl (TypeError ''unsupported graph value: mapping keys must be strings'')
      else rbind (freeze_fields kvs) (\<lambda>kvs'. Inr (JObj kvs')))"
| "deep_freeze (SList vs) = rbind (freeze_items vs) (\<lambda>vs'. Inr (JList vs'))"
| "deep_freeze (SFloat t) =
     (if finite_float t then Inr (JFloat t) else Inl (TypeError ''unsupported graph value: non-finite float''))"
| "deep_freeze SNull = Inr JNull"
| "deep_freeze (SBool b) = Inr (JBool b)"
| "deep_freeze (SInt i) = Inr (JInt i)"
| "deep_freeze (SStr s) = Inr (JStr s)"
| "deep_freeze SBack = Inl (RuntimeError ''maximum recursion depth exceeded'')"
| "deep_freeze (SOther type_name) = Inl (TypeError (''unsupported graph value: '' @ type_name))"
| "freeze_fields [] = Inr []"
| "freeze_fields ((key, v) # kvs) =
     rbind (deep_freeze v) (\<lambda>w. rbind (freeze_fields kvs) (\<lambda>kvs'.
       Inr (case key of Text_Key k \<Rightarrow> (k, w) # kvs' | Other_Key \<Rightarrow> kvs')))"
| "freeze_items [] = Inr []"
| "freeze_items (v # vs) = rbind (deep_freeze v) (\<lambda>w. rbind (freeze_items vs) (\<lambda>vs'. Inr (w # vs')))"

definition text_item :: "json \<Rightarrow> string \<Rightarrow> string result" where
  "text_item d k = rbind (jitem d k) (\<lambda>v. case str_of v of Some s \<Rightarrow> Inr s | None \<Rightarrow> Inl (TypeError ''text expected''))"

definition index_entry :: "string \<Rightarrow> json \<Rightarrow> (string \<times> json) result" where
  "index_entry id_field item =
     rbind (text_item item id_field) (\<lambda>i. rbind (deep_freeze (of_json item)) (\<lambda>v. Inr (i, v)))"

definition index_by_id :: "json \<Rightarrow> string \<Rightarrow> string \<Rightarrow> (string \<times> json) list result" where
  "index_by_id document collection id_field =
     rbind (jitem document collection) (\<lambda>vs. rbind (py_iter vs) (\<lambda>items.
       rbind (mapM (index_entry id_field) items) (\<lambda>entries. Inr (dict_of entries))))"

definition fact_edge :: "string \<Rightarrow> string \<Rightarrow> string \<Rightarrow> json \<Rightarrow> semantic_edge list result" where
  "fact_edge relation key cap_id entry =
     rbind (get_attr entry key JNull) (\<lambda>v.
       if \<not> truthy v then Inr []
       else (case str_of v of
               Some fact_type_id \<Rightarrow> Inr [SemanticEdge relation cap_id fact_type_id]
             | None \<Rightarrow> Inl (TypeError ''text expected'')))"

definition capability_edges :: "string \<times> json \<Rightarrow> semantic_edge list result" where
  "capability_edges = (\<lambda>(cap_id, cap).
     append_results
       (rbind (jitem cap ''outputs'') (\<lambda>vs. rbind (py_iter vs)
          (collectM (fact_edge ''producesFactType'' ''factTypeRef'' cap_id))))
       (rbind (jitem cap ''inputs'') (\<lambda>vs. rbind (py_iter vs)
          (collectM (fact_edge ''consumesFactType'' ''satisfiableByFactType'' cap_id)))))"

definition relation_edge :: "json \<Rightarrow> semantic_edge result" where
  "relation_edge relation =
     rbind (jitem relation ''relationType'') (\<lambda>t.
       rbind (if t = JStr ''dependsOn'' then text_item relation ''dependsOnCapabilityId''
              else text_item relation ''requiredFactType'') (\<lambda>target.
         rbind (text_item relation ''relationType'') (\<lambda>rt.
           rbind (text_item relation ''capabilityId'') (\<lambda>source. Inr (SemanticEdge rt source target)))))"

definition index_fact_edges :: "semantic_edge list \<Rightarrow> string \<Rightarrow> (string \<times> string list) list" where
  "index_fact_edges es relation =
     map (\<lambda>(fact_type_id, cap_ids). (fact_type_id, sorted_set cap_ids))
       (sort_key fst (group_by (map (\<lambda>e. (target_id e, source_id e))
          (filter (\<lambda>e. relation_type e = relation) es))))"

definition compile_graph :: "source_documents \<Rightarrow> semantic_graph result" where
  "compile_graph docs =
     rbind (index_by_id (capabilities_doc docs) ''capabilities'' ''capabilityId'') (\<lambda>capabilities.
       rbind (index_by_id (fact_types_doc docs) ''factTypes'' ''factTypeId'') (\<lambda>fact_types.
         rbind (collectM capability_edges capabilities) (\<lambda>fact_edges.
           rbind (jitem (relations_doc docs) ''relations'') (\<lambda>vs. rbind (py_iter vs) (\<lambda>relations.
             rbind (mapM relation_edge relations) (\<lambda>authored.
               let ordered_edges = sorted_set (fact_edges @ authored) in
               Inr \<lparr>graph_capabilities = capabilities, graph_fact_types = fact_types,
                    graph_edges = ordered_edges,
                    producers_by_fact_type = index_fact_edges ordered_edges ''producesFactType'',
                    consumers_by_fact_type = index_fact_edges ordered_edges ''consumesFactType''\<rparr>))))))"

section \<open>Capabilities as typed records\<close>

text \<open>
  What the validators and the planner read of a capability entry of the graph.  The record is read at once and
  reading it needs the keys the capability schema requires: on a registry that has passed the schema stage this
  is what the code does, which subscripts the entry where it needs a key.  On a document without one of these
  keys the reading here raises, the code when it reaches the access.
\<close>

record input_field =
  input_name :: string
  input_semantic_type :: string
  input_required :: bool
  binding_kind :: string
  satisfiable_by :: "string option"

record output_field =
  output_name :: string
  output_semantic_type :: string
  fact_type_ref :: "string option"

record governance =
  side_effect :: string
  requires_approval :: bool
  approval_policy :: string

record capability =
  capability_id :: string
  cap_kind :: string
  cap_status :: string
  cap_inputs :: "input_field list"
  cap_outputs :: "output_field list"
  cap_governance :: governance

definition bool_item :: "json \<Rightarrow> string \<Rightarrow> bool result" where
  "bool_item d k = rbind (jitem d k) (\<lambda>v. case v of JBool b \<Rightarrow> Inr b | _ \<Rightarrow> Inl (TypeError ''boolean expected''))"

definition text_option :: "json \<Rightarrow> string \<Rightarrow> string option" where
  "text_option d k = str_of (jget d k)"

definition decode_input :: "json \<Rightarrow> input_field result" where
  "decode_input v =
     rbind (text_item v ''name'') (\<lambda>n. rbind (text_item v ''semanticType'') (\<lambda>t.
       rbind (bool_item v ''required'') (\<lambda>r. rbind (text_item v ''bindingKind'') (\<lambda>b.
         Inr \<lparr>input_name = n, input_semantic_type = t, input_required = r, binding_kind = b,
              satisfiable_by = text_option v ''satisfiableByFactType''\<rparr>))))"

definition decode_output :: "json \<Rightarrow> output_field result" where
  "decode_output v =
     rbind (text_item v ''name'') (\<lambda>n. rbind (text_item v ''semanticType'') (\<lambda>t.
       Inr \<lparr>output_name = n, output_semantic_type = t, fact_type_ref = text_option v ''factTypeRef''\<rparr>))"

definition decode_governance :: "json \<Rightarrow> governance result" where
  "decode_governance v =
     rbind (text_item v ''sideEffect'') (\<lambda>s. rbind (bool_item v ''requiresApproval'') (\<lambda>r.
       rbind (text_item v ''approvalPolicy'') (\<lambda>p.
         Inr \<lparr>side_effect = s, requires_approval = r, approval_policy = p\<rparr>)))"

definition decode_capability :: "json \<Rightarrow> capability result" where
  "decode_capability v =
     rbind (text_item v ''capabilityId'') (\<lambda>i. rbind (text_item v ''kind'') (\<lambda>k.
       rbind (text_item v ''status'') (\<lambda>s.
         rbind (rbind (jitem v ''inputs'') py_iter) (\<lambda>is. rbind (mapM decode_input is) (\<lambda>ins.
           rbind (rbind (jitem v ''outputs'') py_iter) (\<lambda>os. rbind (mapM decode_output os) (\<lambda>outs.
             rbind (rbind (jitem v ''governance'') decode_governance) (\<lambda>g.
               Inr \<lparr>capability_id = i, cap_kind = k, cap_status = s, cap_inputs = ins,
                    cap_outputs = outs, cap_governance = g\<rparr>))))))))"

text \<open>\<open>_is_read_only(capability)\<close> of \<open>validation.py\<close>.\<close>

definition is_read_only :: "capability \<Rightarrow> bool" where
  "is_read_only cap \<longleftrightarrow>
     cap_kind cap = ''Function'' \<and> side_effect (cap_governance cap) = ''none''
     \<and> \<not> requires_approval (cap_governance cap)
     \<and> approval_policy (cap_governance cap) = ''not_required''"

text \<open>The graph with its capability entries read as records.\<close>

record typed_graph =
  capability_table :: "(string \<times> capability) list"
  fact_type_table :: "string list"
  edge_table :: "semantic_edge list"
  producer_table :: "(string \<times> string list) list"

definition typed_graph_of :: "semantic_graph \<Rightarrow> typed_graph result" where
  "typed_graph_of g =
     rbind (mapM (\<lambda>(i, v). rbind (decode_capability v) (\<lambda>cap. Inr (i, cap))) (graph_capabilities g)) (\<lambda>caps.
       Inr \<lparr>capability_table = caps, fact_type_table = map fst (graph_fact_types g),
            edge_table = graph_edges g, producer_table = producers_by_fact_type g\<rparr>)"

section \<open>The indexes\<close>

lemma index_fact_edges_lookup:
  "map_of (index_fact_edges es relation) f = Some cs \<Longrightarrow>
     cs \<noteq> [] \<and> cs = sorted_set (map source_id (filter (\<lambda>e. relation_type e = relation \<and> target_id e = f) es))"
proof -
  let ?g = "group_by (map (\<lambda>e. (target_id e, source_id e)) (filter (\<lambda>e. relation_type e = relation) es))"
  assume "map_of (index_fact_edges es relation) f = Some cs"
  then obtain vs where vs: "map_of (sort_key fst ?g) f = Some vs" "cs = sorted_set vs"
    by (auto simp: index_fact_edges_def map_of_map)
  then have mem: "(f, vs) \<in> set ?g" by (auto dest: map_of_SomeD)
  then have eq: "vs = map snd (filter (\<lambda>e. fst e = f)
      (map (\<lambda>e. (target_id e, source_id e)) (filter (\<lambda>e. relation_type e = relation) es)))"
    by (rule group_by_mem)
  then have "vs = map source_id (filter (\<lambda>e. relation_type e = relation \<and> target_id e = f) es)"
    by (simp add: filter_map comp_def conj_commute)
  moreover have "f \<in> fst ` set ?g" using mem by force
  then have "vs \<noteq> []" unfolding keys_group_by eq by (auto simp: filter_empty_conv)
  ultimately show ?thesis using vs(2) by simp
qed

lemma index_fact_edges_get:
  "group_get (index_fact_edges es relation) f =
     sorted_set (map source_id (filter (\<lambda>e. relation_type e = relation \<and> target_id e = f) es))"
proof (cases "map_of (index_fact_edges es relation) f")
  case None
  let ?g = "group_by (map (\<lambda>e. (target_id e, source_id e)) (filter (\<lambda>e. relation_type e = relation) es))"
  from None have "f \<notin> fst ` set (sort_key fst ?g)"
    by (simp add: index_fact_edges_def map_of_map map_of_eq_None_iff)
  then have "f \<notin> fst ` set ?g" by simp
  then have "\<not> (\<exists>e \<in> set es. relation_type e = relation \<and> target_id e = f)"
    unfolding keys_group_by by (force simp: image_image)
  then have "filter (\<lambda>e. relation_type e = relation \<and> target_id e = f) es = []"
    by (simp add: filter_empty_conv)
  with None show ?thesis by (simp add: group_get_def sorted_set_def)
qed (simp add: group_get_def index_fact_edges_lookup)

text \<open>A capability entry that lists an output (an input) of a fact type under a key.\<close>

definition refers_to_fact :: "string \<Rightarrow> string \<Rightarrow> json \<Rightarrow> string \<Rightarrow> bool" where
  "refers_to_fact container key cap f \<longleftrightarrow> f \<noteq> [] \<and>
     (\<exists>vs entries. jitem cap container = Inr vs \<and> py_iter vs = Inr entries \<and>
        (\<exists>entry \<in> set entries. jget entry key = JStr f))"

lemma fact_edge_mem:
  assumes "fact_edge relation key c entry = Inr es"
  shows "e \<in> set es \<longleftrightarrow> (\<exists>f. f \<noteq> [] \<and> jget entry key = JStr f \<and> e = SemanticEdge relation c f)"
proof -
  from assms have "is_mapping entry" and get: "get_attr entry key JNull = Inr (jget entry key)"
    by (auto simp: fact_edge_def get_attr_def jget_default_def jget_def result_simps split: if_splits)
  show ?thesis
  proof (cases "jget entry key")
    case (JStr s)
    then show ?thesis using assms get by (cases "s = []") (auto simp: fact_edge_def)
  qed (use assms get in \<open>auto simp: fact_edge_def split: if_splits\<close>)
qed

lemma fact_edges_mem:
  assumes "rbind (jitem cap container) (\<lambda>vs. rbind (py_iter vs) (collectM (fact_edge relation key c))) = Inr es"
  shows "e \<in> set es \<longleftrightarrow> (\<exists>f. refers_to_fact container key cap f \<and> e = SemanticEdge relation c f)"
proof -
  from assms obtain vs entries where v: "jitem cap container = Inr vs" "py_iter vs = Inr entries"
    and c: "collectM (fact_edge relation key c) entries = Inr es"
    by (auto simp: result_simps)
  have "e \<in> set es \<longleftrightarrow> (\<exists>entry \<in> set entries. \<exists>f. f \<noteq> [] \<and> jget entry key = JStr f \<and> e = SemanticEdge relation c f)"
    using collectM_member [OF c, of e] collectM_ok [OF c] fact_edge_mem by metis
  then show ?thesis using v by (auto simp: refers_to_fact_def)
qed

lemma capability_edges_mem:
  assumes "capability_edges (c, cap) = Inr es"
  shows "e \<in> set es \<longleftrightarrow>
     (\<exists>f. refers_to_fact ''outputs'' ''factTypeRef'' cap f \<and> e = SemanticEdge ''producesFactType'' c f)
     \<or> (\<exists>f. refers_to_fact ''inputs'' ''satisfiableByFactType'' cap f \<and> e = SemanticEdge ''consumesFactType'' c f)"
proof -
  from assms obtain xs ys
    where "rbind (jitem cap ''outputs'') (\<lambda>vs. rbind (py_iter vs)
             (collectM (fact_edge ''producesFactType'' ''factTypeRef'' c))) = Inr xs"
      and "rbind (jitem cap ''inputs'') (\<lambda>vs. rbind (py_iter vs)
             (collectM (fact_edge ''consumesFactType'' ''satisfiableByFactType'' c))) = Inr ys"
      and "es = xs @ ys"
    unfolding capability_edges_def prod.case append_results_eq by blast
  from fact_edges_mem [OF this(1), of e] fact_edges_mem [OF this(2), of e] this(3)
  show ?thesis by simp
qed

lemma relation_edge_ok:
  assumes "relation_edge r = Inr e"
  shows "is_mapping r \<and> jget r ''relationType'' = JStr (relation_type e)"
proof -
  from assms have "text_item r ''relationType'' = Inr (relation_type e)"
    by (auto simp: relation_edge_def result_simps)
  then show ?thesis
    by (cases r) (auto simp: text_item_def jitem_def result_simps jget_def split: option.splits)
qed

lemma compile_graph_stages:
  assumes "compile_graph docs = Inr g"
  obtains fes authored relations
  where "collectM capability_edges (graph_capabilities g) = Inr fes"
    and "\<forall>r \<in> set relations. is_mapping r \<longrightarrow> r \<in> set (items (relations_doc docs) ''relations'')"
    and "mapM relation_edge relations = Inr authored"
    and "graph_edges g = sorted_set (fes @ authored)"
    and "producers_by_fact_type g = index_fact_edges (graph_edges g) ''producesFactType''"
    and "consumers_by_fact_type g = index_fact_edges (graph_edges g) ''consumesFactType''"
proof -
  from assms obtain caps fts fes vs relations authored
    where stages: "collectM capability_edges caps = Inr fes" "mapM relation_edge relations = Inr authored"
      and vs: "jitem (relations_doc docs) ''relations'' = Inr vs" "py_iter vs = Inr relations"
      and g: "g = \<lparr>graph_capabilities = caps, graph_fact_types = fts,
            graph_edges = sorted_set (fes @ authored),
            producers_by_fact_type = index_fact_edges (sorted_set (fes @ authored)) ''producesFactType'',
            consumers_by_fact_type = index_fact_edges (sorted_set (fes @ authored)) ''consumesFactType''\<rparr>"
    unfolding compile_graph_def Let_def rbind_eq_Inr by blast
  have "r \<in> set (items (relations_doc docs) ''relations'')" if "r \<in> set relations" "is_mapping r" for r
  proof (cases "is_list vs")
    case True
    with vs that(1) show ?thesis
      by (cases vs; cases "relations_doc docs") (auto simp: py_iter_def jitem_def items_def split: option.splits)
  next
    case False
    with vs(2) that have False by (cases vs) (auto simp: py_iter_def)
    then show ?thesis ..
  qed
  with stages g show ?thesis by (intro that [of fes relations authored]) auto
qed

lemma authored_edge_types:
  assumes "mapM relation_edge relations = Inr authored" and "e \<in> set authored"
    and "\<And>r. r \<in> set relations \<Longrightarrow> is_mapping r \<Longrightarrow> authored_relation_type r \<noteq> None"
  shows "relation_type e = ''dependsOn'' \<or> relation_type e = ''precondition''"
proof -
  from assms(1,2) obtain r where "r \<in> set relations" "relation_edge r = Inr e"
    by (auto simp: mapM_member)
  with relation_edge_ok [OF this(2)] assms(3) [OF this(1)] show ?thesis
    by (auto simp: authored_relation_type_def split: if_splits)
qed

lemma clean_relation_types:
  assumes "validate_relation_endpoints docs = []" and "r \<in> set (items (relations_doc docs) ''relations'')"
    and "is_mapping r"
  shows "authored_relation_type r \<noteq> None"
proof -
  from assms(1) obtain es where
    "map authored_edge_of (filter is_mapping (items (relations_doc docs) ''relations'')) = map Some es"
    unfolding validate_relation_endpoints_def relation_endpoints_from_Nil by blast
  moreover have "authored_edge_of r \<in> set (map authored_edge_of (filter is_mapping (items (relations_doc docs) ''relations'')))"
    using assms(2,3) by simp
  ultimately have "authored_edge_of r \<in> set (map Some es)" by (simp only:)
  then show ?thesis by (auto simp: authored_edge_of_def split: option.splits)
qed

text \<open>
  C33: the producer index of a validated registry is exact.  A fact type's producers are, sorted and
  without repetition, the capabilities with an output that refers to it.
\<close>

theorem producers_by_fact_type_exact:
  assumes g: "compile_graph docs = Inr g" and clean: "validate_relation_endpoints docs = []"
  shows "set (group_get (producers_by_fact_type g) f) =
           {c. \<exists>cap. (c, cap) \<in> set (graph_capabilities g) \<and> refers_to_fact ''outputs'' ''factTypeRef'' cap f}
         \<and> sorted (group_get (producers_by_fact_type g) f) \<and> distinct (group_get (producers_by_fact_type g) f)"
proof -
  obtain fes authored relations
    where fes: "collectM capability_edges (graph_capabilities g) = Inr fes"
      and rel: "\<forall>r \<in> set relations. is_mapping r \<longrightarrow> r \<in> set (items (relations_doc docs) ''relations'')"
      and authored: "mapM relation_edge relations = Inr authored"
      and edges: "graph_edges g = sorted_set (fes @ authored)"
      and prod: "producers_by_fact_type g = index_fact_edges (graph_edges g) ''producesFactType''"
      and "consumers_by_fact_type g = index_fact_edges (graph_edges g) ''consumesFactType''"
    by (rule compile_graph_stages [OF g])
  have "authored_relation_type r \<noteq> None" if "r \<in> set relations" "is_mapping r" for r
    using clean_relation_types [OF clean _ that(2)] rel that by blast
  then have other: "relation_type e \<noteq> ''producesFactType''" if "e \<in> set authored" for e
    using authored_edge_types [OF authored that] by auto
  have "SemanticEdge ''producesFactType'' c f \<in> set (graph_edges g) \<longleftrightarrow>
      (\<exists>cap. (c, cap) \<in> set (graph_capabilities g) \<and> refers_to_fact ''outputs'' ''factTypeRef'' cap f)" for c
  proof -
    have "SemanticEdge ''producesFactType'' c f \<in> set (graph_edges g) \<longleftrightarrow> SemanticEdge ''producesFactType'' c f \<in> set fes"
      using other [of "SemanticEdge ''producesFactType'' c f"] by (auto simp: edges)
    also have "\<dots> \<longleftrightarrow> (\<exists>ccap \<in> set (graph_capabilities g). \<exists>es. capability_edges ccap = Inr es
        \<and> SemanticEdge ''producesFactType'' c f \<in> set es)"
      by (rule collectM_member [OF fes])
    also have "\<dots> \<longleftrightarrow> (\<exists>cap. (c, cap) \<in> set (graph_capabilities g) \<and> refers_to_fact ''outputs'' ''factTypeRef'' cap f)"
    proof (intro iffI; elim bexE exE conjE)
      fix ccap es
      assume mem: "ccap \<in> set (graph_capabilities g)" and es: "capability_edges ccap = Inr es"
        and e: "SemanticEdge ''producesFactType'' c f \<in> set es"
      obtain c' cap where ccap: "ccap = (c', cap)" by (cases ccap)
      from e have "c' = c" "refers_to_fact ''outputs'' ''factTypeRef'' cap f"
        unfolding capability_edges_mem [OF es [unfolded ccap]] by simp_all
      with mem ccap show "\<exists>cap. (c, cap) \<in> set (graph_capabilities g) \<and> refers_to_fact ''outputs'' ''factTypeRef'' cap f"
        by blast
    next
      fix cap
      assume cap: "(c, cap) \<in> set (graph_capabilities g)" "refers_to_fact ''outputs'' ''factTypeRef'' cap f"
      from collectM_ok [OF fes this(1)] obtain es where "capability_edges (c, cap) = Inr es" by blast
      with cap capability_edges_mem [OF this] show "\<exists>ccap \<in> set (graph_capabilities g).
          \<exists>es. capability_edges ccap = Inr es \<and> SemanticEdge ''producesFactType'' c f \<in> set es" by blast
    qed
    finally show ?thesis .
  qed
  moreover have "c \<in> set (group_get (producers_by_fact_type g) f) \<longleftrightarrow>
      SemanticEdge ''producesFactType'' c f \<in> set (graph_edges g)" for c
    unfolding prod index_fact_edges_get set_sorted_set set_map set_filter
    by (auto simp: image_iff) (metis semantic_edge.collapse)
  ultimately have "set (group_get (producers_by_fact_type g) f) =
      {c. \<exists>cap. (c, cap) \<in> set (graph_capabilities g) \<and> refers_to_fact ''outputs'' ''factTypeRef'' cap f}"
    by blast
  then show ?thesis by (simp add: prod index_fact_edges_get)
qed


definition demo_graph :: semantic_graph where
  "demo_graph = \<lparr>
     graph_capabilities = [(''Draft'', demo_draft), (''Info'', demo_info)],
     graph_fact_types = [(''Mat'', demo_material)],
     graph_edges = [SemanticEdge ''consumesFactType'' ''Draft'' ''Mat'',
                    SemanticEdge ''dependsOn'' ''Info'' ''Draft'',
                    SemanticEdge ''producesFactType'' ''Info'' ''Mat''],
     producers_by_fact_type = [(''Mat'', [''Info''])],
     consumers_by_fact_type = [(''Mat'', [''Draft''])]\<rparr>"

lemma demo_compile_graph: "compile_graph demo_underivable_documents = Inr demo_graph"
  by code_simp

lemma demo_clean_endpoints: "validate_relation_endpoints demo_underivable_documents = []"
  by code_simp

lemma producers_by_fact_type_witness:
  "{c. \<exists>cap. (c, cap) \<in> set (graph_capabilities demo_graph) \<and> refers_to_fact ''outputs'' ''factTypeRef'' cap ''Mat''}
     = {''Info''}"
  using producers_by_fact_type_exact [OF demo_compile_graph demo_clean_endpoints, of "''Mat''"]
  by (simp add: demo_graph_def group_get_def)

end
