(* ===== verification/Contract_Build.thy ===== *)
theory Contract_Build
  imports Graph
begin

text \<open>
  \<open>build_semantic_contracts\<close> and \<open>validate_goal_spec\<close> of \<open>semantic_planning/validation.py\<close>: the
  gate every registry passes before a graph and a snapshot exist, and the reachability report
  of a goal on that graph.
\<close>

section \<open>Building the contracts\<close>

record build_result =
  build_report :: validation_report
  build_graph :: "semantic_graph option"
  build_snapshot :: "registry_snapshot option"

definition invalid_result :: "issue list \<Rightarrow> build_result" where
  "invalid_result issues =
     \<lparr>build_report = \<lparr>report_valid = False, report_issues = canonical_issues issues\<rparr>,
      build_graph = None, build_snapshot = None\<rparr>"

text \<open>The semantic checks in the order they run; a check that raises stops the build.\<close>

definition semantic_checks :: "nat \<Rightarrow> source_documents \<Rightarrow> issue list result" where
  "semantic_checks recursion_limit docs =
     fold (\<lambda>check issues. append_results issues (check docs))
       [\<lambda>d. Inr (validate_executor_bindings d), \<lambda>d. Inr (validate_unique_ids d), validate_fact_references,
        validate_value_type_declarations, validate_fact_type_fields, validate_vocabulary_references,
        \<lambda>d. Inr (validate_relation_endpoints d), validate_derivable_relations,
        validate_dependency_cycles recursion_limit]
       (Inr [])"

definition build_semantic_contracts ::
    "(string \<Rightarrow> json \<Rightarrow> schema_error list) \<Rightarrow> nat \<Rightarrow> (json \<Rightarrow> int result) \<Rightarrow> (string \<Rightarrow> string)
     \<Rightarrow> source_documents \<Rightarrow> build_result result" where
  "build_semantic_contracts iter_errors recursion_limit int_of_text sha256_hex docs =
     (case validate_source_schemas iter_errors (loaded docs) of (schema_issues, duplicate_issues) \<Rightarrow>
        if schema_issues \<noteq> [] then Inr (invalid_result (schema_issues @ duplicate_issues))
        else rbind (semantic_checks recursion_limit docs) (\<lambda>found.
          let issues = duplicate_issues @ found in
          if issues \<noteq> [] then Inr (invalid_result issues)
          else rbind (compile_graph docs) (\<lambda>graph.
            rbind (build_registry_snapshot int_of_text sha256_hex docs) (\<lambda>snapshot.
              Inr \<lparr>build_report = \<lparr>report_valid = True, report_issues = []\<rparr>,
                   build_graph = Some graph, build_snapshot = Some snapshot\<rparr>))))"

lemmas semantic_checks_simps = semantic_checks_def fold.simps comp_apply id_apply append_results_eq

lemma semantic_checks_Nil:
  assumes "semantic_checks recursion_limit docs = Inr []"
  shows "validate_executor_bindings docs = []" "validate_unique_ids docs = []"
    "validate_fact_references docs = Inr []" "validate_value_type_declarations docs = Inr []"
    "validate_fact_type_fields docs = Inr []" "validate_vocabulary_references docs = Inr []"
    "validate_relation_endpoints docs = []" "validate_derivable_relations docs = Inr []"
    "validate_dependency_cycles recursion_limit docs = Inr []"
  using assms by (simp_all add: semantic_checks_simps)

text \<open>A cycle check that returned decided acyclicity, whatever the limit was.\<close>

lemma validate_dependency_cycles_Nil:
  assumes "validate_dependency_cycles recursion_limit docs = Inr []"
  shows "acyclic (authored_dependencies docs)"
proof -
  let ?roots = "sorted_set (capability_ids docs)"
  let ?run = "dfs_roots recursion_limit (dependency_targets docs) dependency_cycle_issue ?roots dfs_start"
  from assms obtain xs ys where "concat (map (self_edge_issue (capability_ids docs))
        (enumerate_list (items (relations_doc docs) ''relations''))) = xs"
    and run: "rbind ?run (\<lambda>(_, issues). Inr issues) = Inr ys" and "xs @ ys = []"
    unfolding validate_dependency_cycles_def append_results_eq by fastforce
  then have self: "authored_dependencies docs \<inter> Id = {}" and "ys = []"
    by (simp_all only: self_edge_issue_Nil append_is_Nil_conv)
  with run obtain s where run: "?run = Inr (s, [])" by (cases ?run) auto
  have "edges (dependency_targets docs) \<subseteq> set ?roots \<times> set ?roots"
    using authored_dependencies_known by (auto simp: edges_dependency_targets)
  from dfs_acyclic_iff [OF run this] have "acyclic (authored_dependencies docs - Id)"
    unfolding edges_dependency_targets by blast
  with self show ?thesis using acyclic_minus_Id by blast
qed

text \<open>What an accepted registry went through.\<close>

lemma build_valid_stages:
  assumes build: "build_semantic_contracts iter_errors recursion_limit int_of_text sha256_hex docs = Inr r"
    and valid: "report_valid (build_report r)"
  shows "validate_source_schemas iter_errors (loaded docs) = ([], []) \<and> semantic_checks recursion_limit docs = Inr []
    \<and> (\<exists>g s. compile_graph docs = Inr g \<and> build_registry_snapshot int_of_text sha256_hex docs = Inr s
         \<and> r = \<lparr>build_report = \<lparr>report_valid = True, report_issues = []\<rparr>, build_graph = Some g, build_snapshot = Some s\<rparr>)"
proof -
  obtain si du where stage: "validate_source_schemas iter_errors (loaded docs) = (si, du)" by (cases "validate_source_schemas iter_errors (loaded docs)")
  have si: "si = []"
  proof (rule ccontr)
    assume "si \<noteq> []"
    with build stage have "r = invalid_result (si @ du)" by (simp add: build_semantic_contracts_def)
    with valid show False by (simp add: invalid_result_def)
  qed
  with build stage obtain found where found: "semantic_checks recursion_limit docs = Inr found"
    and rest: "(let issues = du @ found in
          if issues \<noteq> [] then Inr (invalid_result issues)
          else rbind (compile_graph docs) (\<lambda>graph.
            rbind (build_registry_snapshot int_of_text sha256_hex docs) (\<lambda>snapshot.
              Inr \<lparr>build_report = \<lparr>report_valid = True, report_issues = []\<rparr>,
                   build_graph = Some graph, build_snapshot = Some snapshot\<rparr>))) = Inr r"
    by (auto simp: build_semantic_contracts_def rbind_eq_Inr)
  have none: "du = []" "found = []"
    using rest valid by (auto simp: Let_def invalid_result_def split: if_splits)
  with rest obtain g s where gs: "compile_graph docs = Inr g"
    "build_registry_snapshot int_of_text sha256_hex docs = Inr s"
    "r = \<lparr>build_report = \<lparr>report_valid = True, report_issues = []\<rparr>,
          build_graph = Some g, build_snapshot = Some s\<rparr>"
    by (auto simp: rbind_eq_Inr)
  from stage si none found gs show ?thesis by simp
qed

text \<open>What two of the checks mean, over the documents themselves.\<close>

definition executors_bound :: "source_documents \<Rightarrow> bool" where
  "executors_bound docs \<longleftrightarrow>
     (\<forall>cap \<in> set (items (capabilities_doc docs) ''capabilities'').
        is_mapping cap \<and> is_mapping (jget cap ''executorBinding'') \<longrightarrow>
        (\<exists>i. \<exists>binding \<in> set (items (executor_bindings_doc docs) ''bindings'').
           jget (jget cap ''executorBinding'') ''bindingId'' = JStr i \<and> jget binding ''bindingId'' = JStr i
           \<and> py_eq (jget (jget cap ''executorBinding'') ''type'') (jget binding ''type'')))"

definition fact_references_declared :: "source_documents \<Rightarrow> bool" where
  "fact_references_declared docs \<longleftrightarrow>
     (\<forall>cap \<in> set (items (capabilities_doc docs) ''capabilities''). is_mapping cap \<longrightarrow>
        (\<exists>inputs outputs. iter_or_empty (jget cap ''inputs'') = Inr inputs \<and> iter_or_empty (jget cap ''outputs'') = Inr outputs
           \<and> (\<forall>field \<in> set inputs. is_mapping field \<longrightarrow>
                jget field ''bindingKind'' \<in> {JStr ''identifier'', JStr ''fact''}
                \<and> (jget field ''bindingKind'' = JStr ''fact'' \<longrightarrow> truthy (jget field ''satisfiableByFactType''))
                \<and> (jget field ''satisfiableByFactType'' \<in> {JNull, JStr []} \<union> JStr ` set (fact_type_ids docs)))
           \<and> (\<forall>output \<in> set outputs. is_mapping output \<longrightarrow>
                (jget output ''evidenceRole'' = JStr ''primaryFact'' \<longrightarrow> truthy (jget output ''factTypeRef''))
                \<and> (jget output ''factTypeRef'' \<in> {JNull, JStr []} \<union> JStr ` set (fact_type_ids docs)))))"

lemma executor_binding_index_mem:
  assumes "map_of (executor_binding_index docs) i = Some binding"
  shows "binding \<in> set (items (executor_bindings_doc docs) ''bindings'') \<and> jget binding ''bindingId'' = JStr i"
  using dict_of_values [OF map_of_SomeD [OF assms [unfolded executor_binding_index_def]]]
  by (auto split: if_splits option.splits)

lemma validate_executor_bindings_Nil: "validate_executor_bindings docs = [] \<Longrightarrow> executors_bound docs"
proof -
  assume "validate_executor_bindings docs = []"
  then have none: "validate_executor_binding (executor_binding_index docs) (k, cap) = []"
    if "(k, cap) \<in> set (enumerate_list (items (capabilities_doc docs) ''capabilities''))" for k cap
    using that by (auto simp: validate_executor_bindings_def)
  show ?thesis
    unfolding executors_bound_def
  proof (intro ballI impI)
    fix cap
    assume cap: "cap \<in> set (items (capabilities_doc docs) ''capabilities'')"
      "is_mapping cap \<and> is_mapping (jget cap ''executorBinding'')"
    from enumerate_list_ex [THEN iffD1, OF cap(1)]
    obtain k where "(k, cap) \<in> set (enumerate_list (items (capabilities_doc docs) ''capabilities''))" ..
    note clean = none [OF this]
    obtain i where i: "jget (jget cap ''executorBinding'') ''bindingId'' = JStr i"
    proof (cases "str_of (jget (jget cap ''executorBinding'') ''bindingId'')")
      case None
      with clean cap(2) show ?thesis by (simp add: validate_executor_binding_def Let_def)
    qed (simp add: that)
    obtain binding where b: "map_of (executor_binding_index docs) i = Some binding"
    proof (cases "map_of (executor_binding_index docs) i")
      case None
      with clean cap(2) i show ?thesis by (simp add: validate_executor_binding_def Let_def)
    qed (simp add: that)
    have "py_eq (jget (jget cap ''executorBinding'') ''type'') (jget binding ''type'')"
      using clean cap(2) i b by (simp add: validate_executor_binding_def Let_def split: if_splits)
    with i b show "\<exists>i. \<exists>binding \<in> set (items (executor_bindings_doc docs) ''bindings'').
           jget (jget cap ''executorBinding'') ''bindingId'' = JStr i \<and> jget binding ''bindingId'' = JStr i
           \<and> py_eq (jget (jget cap ''executorBinding'') ''type'') (jget binding ''type'')"
      using executor_binding_index_mem by blast
  qed
qed

lemma validate_input_reference_Nil:
  "validate_input_reference known cap base (k, field) = [] \<longleftrightarrow> (is_mapping field \<longrightarrow>
     jget field ''bindingKind'' \<in> {JStr ''identifier'', JStr ''fact''}
     \<and> (jget field ''bindingKind'' = JStr ''fact'' \<longrightarrow> truthy (jget field ''satisfiableByFactType''))
     \<and> jget field ''satisfiableByFactType'' \<in> {JNull, JStr []} \<union> JStr ` set known)"
  by (cases "jget field ''satisfiableByFactType''") (auto simp: validate_input_reference_def Let_def)

lemma validate_output_reference_Nil:
  "validate_output_reference known base (k, output) = [] \<longleftrightarrow> (is_mapping output \<longrightarrow>
     (jget output ''evidenceRole'' = JStr ''primaryFact'' \<longrightarrow> truthy (jget output ''factTypeRef''))
     \<and> jget output ''factTypeRef'' \<in> {JNull, JStr []} \<union> JStr ` set known)"
  by (cases "jget output ''factTypeRef''") (auto simp: validate_output_reference_def Let_def)

lemma validate_fact_references_Nil: "validate_fact_references docs = Inr [] \<longleftrightarrow> fact_references_declared docs"
proof -
  have one: "validate_capability_references known (k, cap) = Inr [] \<longleftrightarrow> (is_mapping cap \<longrightarrow>
      (\<exists>inputs outputs. iter_or_empty (jget cap ''inputs'') = Inr inputs \<and> iter_or_empty (jget cap ''outputs'') = Inr outputs
        \<and> (\<forall>kf \<in> set (enumerate_list inputs). validate_input_reference known cap (at_index ''/capabilities'' k) kf = [])
        \<and> (\<forall>ko \<in> set (enumerate_list outputs). validate_output_reference known (at_index ''/capabilities'' k) ko = [])))"
    for known k cap
    by (auto simp: validate_capability_references_def Let_def result_simps)
  have spec: "validate_capability_references known kc = Inr [] \<longleftrightarrow> (is_mapping (snd kc) \<longrightarrow>
      (\<exists>inputs outputs. iter_or_empty (jget (snd kc) ''inputs'') = Inr inputs
        \<and> iter_or_empty (jget (snd kc) ''outputs'') = Inr outputs
        \<and> (\<forall>field \<in> set inputs. validate_input_reference known (snd kc) [] (0, field) = [])
        \<and> (\<forall>output \<in> set outputs. validate_output_reference known [] (0, output) = [])))" for known kc
  proof -
    have "(\<forall>kf \<in> set (enumerate_list inputs). validate_input_reference known cap base kf = []) \<longleftrightarrow>
        (\<forall>field \<in> set inputs. validate_input_reference known cap [] (0, field) = [])" for inputs cap base
      unfolding enumerate_all [of inputs "\<lambda>f. validate_input_reference known cap [] (0, f) = []", symmetric]
      by (auto simp: validate_input_reference_Nil)
    moreover have "(\<forall>ko \<in> set (enumerate_list outputs). validate_output_reference known base ko = []) \<longleftrightarrow>
        (\<forall>output \<in> set outputs. validate_output_reference known [] (0, output) = [])" for outputs base
      unfolding enumerate_all [of outputs "\<lambda>f. validate_output_reference known [] (0, f) = []", symmetric]
      by (auto simp: validate_output_reference_Nil)
    ultimately show ?thesis using one [of known "fst kc" "snd kc"] by simp
  qed
  show ?thesis
    unfolding validate_fact_references_def collectM_eq_Nil spec enumerate_all
      fact_references_declared_def validate_input_reference_Nil validate_output_reference_Nil
    by (rule enumerate_all)
qed

text \<open>
  C13: a registry the gate accepts has passed everything.  If the build reports success then the schema
  stage found nothing, every executor binding agrees with its capability, ids are unique in the four catalogs,
  every fact reference, value type declaration, field of a fact type and vocabulary reference is in order, every
  authored relation has declared endpoints, the authored dependencies are acyclic, no authored dependency is
  derivable, and the graph and snapshot it returns are those of these documents.
\<close>

theorem build_semantic_contracts_valid:
  assumes build: "build_semantic_contracts iter_errors recursion_limit int_of_text sha256_hex docs = Inr r"
    and valid: "report_valid (build_report r)"
  shows "validate_source_schemas iter_errors (loaded docs) = ([], [])
    \<and> validate_executor_bindings docs = [] \<and> executors_bound docs
    \<and> list_all (\<lambda>(id_field, vs). ids_well_formed id_field vs) (catalogs docs)
    \<and> validate_fact_references docs = Inr [] \<and> fact_references_declared docs
    \<and> validate_value_type_declarations docs = Inr []
    \<and> validate_fact_type_fields docs = Inr []
    \<and> validate_vocabulary_references docs = Inr []
    \<and> validate_relation_endpoints docs = []
    \<and> acyclic (authored_dependencies docs)
    \<and> validate_derivable_relations docs = Inr []
    \<and> (\<exists>g s. build_graph r = Some g \<and> build_snapshot r = Some s \<and> compile_graph docs = Inr g
          \<and> build_registry_snapshot int_of_text sha256_hex docs = Inr s \<and> report_issues (build_report r) = [])"
proof -
  note stages = build_valid_stages [OF build valid]
  then obtain g s where gs: "compile_graph docs = Inr g" "build_registry_snapshot int_of_text sha256_hex docs = Inr s"
    "r = \<lparr>build_report = \<lparr>report_valid = True, report_issues = []\<rparr>, build_graph = Some g, build_snapshot = Some s\<rparr>"
    by blast
  from stages have found: "semantic_checks recursion_limit docs = Inr []" by blast
  note clean = semantic_checks_Nil [OF found]
  show ?thesis
    using stages clean validate_executor_bindings_Nil validate_fact_references_Nil validate_dependency_cycles_Nil [OF clean(9)] gs
    by (simp add: validate_unique_ids_def catalogs_def unique_ids_from_Nil)
qed

text \<open>
  C31: a rejected registry yields no graph and no snapshot, and a report that is not empty, sorted and
  without repetitions.
\<close>

theorem build_semantic_contracts_rejects:
  assumes "build_semantic_contracts iter_errors recursion_limit int_of_text sha256_hex docs = Inr r"
    and "\<not> report_valid (build_report r)"
  shows "build_graph r = None \<and> build_snapshot r = None \<and> report_issues (build_report r) \<noteq> []
    \<and> sorted (report_issues (build_report r)) \<and> distinct (report_issues (build_report r))"
proof -
  obtain si du where stage: "validate_source_schemas iter_errors (loaded docs) = (si, du)"
    by (cases "validate_source_schemas iter_errors (loaded docs)")
  have "\<exists>issues. issues \<noteq> [] \<and> r = invalid_result issues"
  proof (cases "si = []")
    case False
    with assms(1) stage show ?thesis by (auto simp: build_semantic_contracts_def)
  next
    case True
    with assms(1) stage obtain found where
      rest: "(if du @ found \<noteq> [] then Inr (invalid_result (du @ found))
          else rbind (compile_graph docs) (\<lambda>graph.
            rbind (build_registry_snapshot int_of_text sha256_hex docs) (\<lambda>snapshot.
              Inr \<lparr>build_report = \<lparr>report_valid = True, report_issues = []\<rparr>,
                   build_graph = Some graph, build_snapshot = Some snapshot\<rparr>))) = Inr r"
      by (auto simp: build_semantic_contracts_def rbind_eq_Inr Let_def)
    with assms(2) have "du @ found \<noteq> []" by (auto simp: rbind_eq_Inr)
    with rest have "r = invalid_result (du @ found)" by simp
    with \<open>du @ found \<noteq> []\<close> show ?thesis by blast
  qed
  then obtain issues where "issues \<noteq> []" "r = invalid_result issues" by blast
  then show ?thesis by (simp add: invalid_result_def canonical_issues_eq)
qed

section \<open>Reachability of a goal\<close>

record goal_constraint =
  constraint_name :: string
  constraint_semantic_type :: string
  constraint_value :: json

text \<open>A goal the schema stage admitted.\<close>

record goal_spec =
  goal_id :: string
  execution_mode :: string
  desired_fact_types :: "string list"
  constraints :: "goal_constraint list"

text \<open>
  The part of \<open>_validate_goal_shape\<close> beyond the schema: two constraints of one name.
\<close>

fun duplicate_constraint_issues :: "nat \<Rightarrow> string list \<Rightarrow> json list \<Rightarrow> issue list" where
  "duplicate_constraint_issues index seen [] = []"
| "duplicate_constraint_issues index seen (c # cs) =
     (case str_of (jget c ''name'') of
        None \<Rightarrow> duplicate_constraint_issues (Suc index) seen cs
      | Some name \<Rightarrow>
          if name \<in> set seen then
            ValidationIssue (at_index ''/constraints'' index @ ''/name'') ''SCHEMA_INVALID''
              (''duplicate constraint name: '' @ name)
            # duplicate_constraint_issues (Suc index) seen cs
          else duplicate_constraint_issues (Suc index) (name # seen) cs)"

definition active_producers :: "typed_graph \<Rightarrow> string \<Rightarrow> (string \<times> capability) list result" where
  "active_producers g fact_type_id =
     rbind (mapM (\<lambda>c. case map_of (capability_table g) c of
                        None \<Rightarrow> Inl (KeyError c) | Some cap \<Rightarrow> Inr (c, cap))
              (group_get (producer_table g) fact_type_id))
       (\<lambda>producers. Inr (filter (\<lambda>(_, cap). cap_status cap = ''active'') producers))"

datatype reachability = Reachable string | Gap string issue | Unreachable issue

definition fact_type_reachability :: "typed_graph \<Rightarrow> string \<Rightarrow> nat \<times> string \<Rightarrow> reachability result" where
  "fact_type_reachability g mode = (\<lambda>(index, fact_type_id).
     (let path = at_index ''/desiredFactTypes'' index in
      if fact_type_id \<notin> set (fact_type_table g) then
        Inr (Unreachable (ValidationIssue path ''UNKNOWN_FACT_TYPE'' (fact_type_id @ '' is not published'')))
      else rbind (active_producers g fact_type_id) (\<lambda>active.
        if active = [] then
          Inr (Gap fact_type_id
                 (ValidationIssue path ''CAPABILITY_GAP'' (fact_type_id @ '' has no active producer'')))
        else if filter (\<lambda>(_, cap). mode \<noteq> ''READ_ONLY'' \<or> is_read_only cap) active = [] then
          Inr (Unreachable (ValidationIssue path ''GOVERNANCE_VIOLATION''
                 (fact_type_id @ '' has no READ_ONLY-compatible active producer'')))
        else Inr (Reachable fact_type_id))))"

definition reachability_issue :: "reachability \<Rightarrow> issue list" where
  "reachability_issue r = (case r of Reachable _ \<Rightarrow> [] | Gap _ i \<Rightarrow> [i] | Unreachable i \<Rightarrow> [i])"

definition validate_goal_reachability :: "typed_graph \<Rightarrow> goal_spec \<Rightarrow> goal_report result" where
  "validate_goal_reachability g goal =
     rbind (mapM (fact_type_reachability g (execution_mode goal)) (enumerate_list (desired_fact_types goal)))
       (\<lambda>rs. let ordered = canonical_issues (concat (map reachability_issue rs)) in
          Inr \<lparr>goal_valid = (ordered = []), goal_issues = ordered,
               reachable_fact_types = sorted_set (concat (map (\<lambda>r. case r of Reachable f \<Rightarrow> [f] | _ \<Rightarrow> []) rs)),
               capability_gaps = sorted_set (concat (map (\<lambda>r. case r of Gap f _ \<Rightarrow> [f] | _ \<Rightarrow> []) rs))\<rparr>)"

text \<open>A fact type the graph can produce under a mode.\<close>

definition producible :: "typed_graph \<Rightarrow> string \<Rightarrow> string \<Rightarrow> bool" where
  "producible g mode f \<longleftrightarrow> f \<in> set (fact_type_table g) \<and>
     (\<exists>c cap. c \<in> set (group_get (producer_table g) f) \<and> map_of (capability_table g) c = Some cap
        \<and> cap_status cap = ''active'' \<and> (mode = ''READ_ONLY'' \<longrightarrow> is_read_only cap))"

lemma active_producers_mem:
  assumes "active_producers g f = Inr active"
  shows "(c, cap) \<in> set active \<longleftrightarrow> c \<in> set (group_get (producer_table g) f)
    \<and> map_of (capability_table g) c = Some cap \<and> cap_status cap = ''active''"
proof -
  let ?look = "\<lambda>c. case map_of (capability_table g) c of None \<Rightarrow> Inl (KeyError c) | Some cap \<Rightarrow> Inr (c, cap)"
  from assms obtain ps where ps: "mapM ?look (group_get (producer_table g) f) = Inr ps"
    and active: "active = filter (\<lambda>(_, cap). cap_status cap = ''active'') ps"
    by (auto simp: active_producers_def rbind_eq_Inr)
  have look: "?look d = Inr (c, cap) \<longleftrightarrow> d = c \<and> map_of (capability_table g) c = Some cap" for d
    by (auto split: option.splits)
  show ?thesis unfolding active by (simp add: mapM_member [OF ps] look conj_assoc)
qed

lemma fact_type_reachability_cases:
  assumes "fact_type_reachability g mode (i, f) = Inr r"
  shows "if producible g mode f then r = Reachable f else (\<exists>x. r = Unreachable x) \<or> (\<exists>x. r = Gap f x)"
proof (cases "f \<in> set (fact_type_table g)")
  case False
  then show ?thesis using assms by (auto simp: fact_type_reachability_def Let_def producible_def)
next
  case True
  with assms obtain active where active: "active_producers g f = Inr active"
    by (auto simp: fact_type_reachability_def Let_def rbind_eq_Inr)
  have eligible: "filter (\<lambda>(_, cap). mode \<noteq> ''READ_ONLY'' \<or> is_read_only cap) active \<noteq> [] \<longleftrightarrow> producible g mode f"
    using True active_producers_mem [OF active] by (force simp: producible_def filter_empty_conv)
  have none: "active = [] \<Longrightarrow> \<not> producible g mode f" using eligible by auto
  show ?thesis
  proof (cases "producible g mode f")
    case prod: True
    with none have "active \<noteq> []" by blast
    with prod eligible assms True active show ?thesis by (simp add: fact_type_reachability_def Let_def)
  next
    case False
    with eligible assms True active show ?thesis
      by (cases "active = []") (auto simp: fact_type_reachability_def Let_def)
  qed
qed

lemma reachability_results:
  assumes "mapM (fact_type_reachability g mode) (enumerate_list fs) = Inr rs"
  shows "set rs \<inter> range Reachable = Reachable ` {f \<in> set fs. producible g mode f}"
    and "concat (map reachability_issue rs) = [] \<longleftrightarrow> (\<forall>f \<in> set fs. producible g mode f)"
proof -
  have mem: "r \<in> set rs \<longleftrightarrow> (\<exists>i f. (i, f) \<in> set (enumerate_list fs) \<and> fact_type_reachability g mode (i, f) = Inr r)" for r
    using mapM_member [OF assms, of r] by auto
  have all: "\<exists>r \<in> set rs. \<exists>i. fact_type_reachability g mode (i, f) = Inr r" if "f \<in> set fs" for f
  proof -
    from that obtain i where i: "(i, f) \<in> set (enumerate_list fs)" using enumerate_list_ex [of f fs] by blast
    with assms obtain r where "fact_type_reachability g mode (i, f) = Inr r"
      by (auto simp: mapM_eq_Inr list_all2_conv_all_nth in_set_conv_nth)
    with i mem show ?thesis by blast
  qed
  have known: "f \<in> set fs" if "(i, f) \<in> set (enumerate_list fs)" for i f
    using that enumerate_list_ex [of f fs] by blast
  show "set rs \<inter> range Reachable = Reachable ` {f \<in> set fs. producible g mode f}"
  proof (intro set_eqI iffI)
    fix r
    assume r: "r \<in> set rs \<inter> range Reachable"
    then obtain i f where "(i, f) \<in> set (enumerate_list fs)" "fact_type_reachability g mode (i, f) = Inr r"
      using mem by blast
    with fact_type_reachability_cases [OF this(2)] known r
    show "r \<in> Reachable ` {f \<in> set fs. producible g mode f}" by (auto split: if_splits)
  next
    fix r
    assume "r \<in> Reachable ` {f \<in> set fs. producible g mode f}"
    then obtain f where f: "r = Reachable f" "f \<in> set fs" "producible g mode f" by blast
    with all obtain r' i where "r' \<in> set rs" "fact_type_reachability g mode (i, f) = Inr r'" by blast
    with fact_type_reachability_cases [OF this(2)] f show "r \<in> set rs \<inter> range Reachable" by simp
  qed
  show "concat (map reachability_issue rs) = [] \<longleftrightarrow> (\<forall>f \<in> set fs. producible g mode f)"
  proof
    assume none: "concat (map reachability_issue rs) = []"
    show "\<forall>f \<in> set fs. producible g mode f"
    proof
      fix f
      assume "f \<in> set fs"
      with all obtain r i where r: "r \<in> set rs" "fact_type_reachability g mode (i, f) = Inr r" by blast
      with none have "reachability_issue r = []" by simp
      with fact_type_reachability_cases [OF r(2)] show "producible g mode f"
        by (auto simp: reachability_issue_def split: if_splits)
    qed
  next
    assume "\<forall>f \<in> set fs. producible g mode f"
    then have "reachability_issue r = []" if "r \<in> set rs" for r
      using that mem [of r] known fact_type_reachability_cases by (fastforce simp: reachability_issue_def)
    then show "concat (map reachability_issue rs) = []" by simp
  qed
qed

text \<open>
  C32: the reachability report is exact.  The goal is valid precisely when every desired fact type is
  published and has an active producer its mode allows, and the reachable fact types it lists are
  precisely those.
\<close>

theorem validate_goal_reachability_exact:
  assumes "validate_goal_reachability g goal = Inr report"
  shows "(goal_valid report \<longleftrightarrow> (\<forall>f \<in> set (desired_fact_types goal). producible g (execution_mode goal) f))
    \<and> set (reachable_fact_types report) = {f \<in> set (desired_fact_types goal). producible g (execution_mode goal) f}"
proof -
  from assms obtain rs
    where rs: "mapM (fact_type_reachability g (execution_mode goal)) (enumerate_list (desired_fact_types goal)) = Inr rs"
      and report: "goal_valid report \<longleftrightarrow> canonical_issues (concat (map reachability_issue rs)) = []"
        "reachable_fact_types report = sorted_set (concat (map (\<lambda>r. case r of Reachable f \<Rightarrow> [f] | _ \<Rightarrow> []) rs))"
    by (auto simp: validate_goal_reachability_def rbind_eq_Inr Let_def)
  have "f \<in> set (reachable_fact_types report) \<longleftrightarrow> Reachable f \<in> set rs \<inter> range Reachable" for f
    unfolding report(2) by (force split: reachability.splits)
  then have "set (reachable_fact_types report) = {f \<in> set (desired_fact_types goal). producible g (execution_mode goal) f}"
    unfolding reachability_results(1) [OF rs] by auto
  then show ?thesis using report(1) reachability_results(2) [OF rs] by simp
qed


section \<open>A registry that passes\<close>

definition demo_read_only :: "(string \<times> json) list" where
  "demo_read_only =
     [(''kind'', JStr ''Function''), (''status'', JStr ''active''),
      (''governance'', JObj [(''sideEffect'', JStr ''none''), (''requiresApproval'', JBool False),
                             (''approvalPolicy'', JStr ''not_required'')])]"

definition demo_registry :: source_documents where
  "demo_registry = \<lparr>
     capabilities_doc = JObj [(''version'', JInt 2), (''capabilities'', JList
       [JObj ([(''capabilityId'', JStr ''Draft''), (''inputs'', JList [demo_input ''uom'' ''Unit'']),
               (''outputs'', JList [])] @ demo_read_only),
        JObj ([(''capabilityId'', JStr ''Info''), (''inputs'', JList []),
               (''outputs'', JList [demo_output ''unit'' ''Unit''])] @ demo_read_only)])],
     executor_bindings_doc = JObj [(''version'', JInt 1), (''bindings'', JList [])],
     fact_types_doc = JObj [(''version'', JInt 3), (''factTypes'', JList
       [JObj [(''factTypeId'', JStr ''Mat''), (''fields'', JList [demo_field ''unit'' ''Unit''])]])],
     relations_doc = JObj [(''version'', JInt 2), (''relations'', JList [demo_relation ''Info'' ''Draft''])],
     semantic_types_doc = JNull\<rparr>"

definition no_schema_errors :: "string \<Rightarrow> json \<Rightarrow> schema_error list" where
  "no_schema_errors schema_name document = []"

definition refuse_text :: "json \<Rightarrow> int result" where
  "refuse_text v = Inl (ValueError ''invalid literal for int()'')"

definition demo_digest :: "string \<Rightarrow> string" where
  "demo_digest s = string_of_nat (length s)"

definition demo_built :: build_result where
  "demo_built = projr (build_semantic_contracts no_schema_errors 100 refuse_text demo_digest demo_registry)"

lemma demo_build_valid:
  "(case build_semantic_contracts no_schema_errors 100 refuse_text demo_digest demo_registry of
      Inl _ \<Rightarrow> False | Inr r \<Rightarrow> report_valid (build_report r))"
  by code_simp

lemma demo_build:
  "build_semantic_contracts no_schema_errors 100 refuse_text demo_digest demo_registry = Inr demo_built"
  "report_valid (build_report demo_built)"
  using demo_build_valid unfolding demo_built_def by (auto split: sum.splits)

lemma build_semantic_contracts_valid_witness:
  "acyclic (authored_dependencies demo_registry)
   \<and> (\<exists>g. build_graph demo_built = Some g \<and> compile_graph demo_registry = Inr g)"
  using build_semantic_contracts_valid [OF demo_build] by blast

definition demo_cyclic_registry :: source_documents where
  "demo_cyclic_registry = demo_registry\<lparr>relations_doc := JObj [(''version'', JInt 2), (''relations'',
     JList [demo_relation ''Info'' ''Draft'', demo_relation ''Draft'' ''Info''])]\<rparr>"

lemma demo_build_rejected:
  "(case build_semantic_contracts no_schema_errors 100 refuse_text demo_digest demo_cyclic_registry of
      Inl _ \<Rightarrow> False
    | Inr r \<Rightarrow> \<not> report_valid (build_report r) \<and> map issue_code (report_issues (build_report r))
               = [''DEPENDENCY_CYCLE'', ''RELATION_IS_DERIVABLE''])"
  by code_simp

lemma build_semantic_contracts_rejects_witness:
  "\<exists>r. build_semantic_contracts no_schema_errors 100 refuse_text demo_digest demo_cyclic_registry = Inr r
     \<and> build_graph r = None \<and> sorted (report_issues (build_report r))"
proof -
  obtain r where "build_semantic_contracts no_schema_errors 100 refuse_text demo_digest demo_cyclic_registry = Inr r"
    "\<not> report_valid (build_report r)"
    using demo_build_rejected by (auto split: sum.splits)
  with build_semantic_contracts_rejects [OF this] show ?thesis by blast
qed

definition demo_typed_graph :: typed_graph where
  "demo_typed_graph =
     projr (rbind (compile_graph demo_registry) typed_graph_of)"

definition demo_goal :: goal_spec where
  "demo_goal = \<lparr>goal_id = ''g'', execution_mode = ''READ_ONLY'', desired_fact_types = [''Mat''], constraints = []\<rparr>"

lemma demo_goal_report:
  "validate_goal_reachability demo_typed_graph demo_goal =
     Inr \<lparr>goal_valid = True, goal_issues = [], reachable_fact_types = [''Mat''], capability_gaps = []\<rparr>"
  by code_simp

lemma validate_goal_reachability_witness: "producible demo_typed_graph ''READ_ONLY'' ''Mat''"
  using validate_goal_reachability_exact [OF demo_goal_report] by (simp add: demo_goal_def)

end
