(* ===== verification/Goal_Spec.thy ===== *)
theory Goal_Spec
  imports Cards Contract_Build
begin

text \<open>
  \<open>planner/goal_spec.py\<close>, with the matched intents and the handoff of \<open>match_decision.py\<close>: the
  goal of a dry run, closed under the facts that its consumers need and the user did not state.

  The parameters of a matched intent are a dictionary of texts, an association list without repeated keys.
\<close>

section \<open>Handoffs and goals\<close>

record matched_intent =
  intent_capability :: string
  intent_parameters :: "(string \<times> string) list"
  intent_missing :: "string list"

record escalation_handoff =
  handoff_reason :: string
  matched_intents :: "matched_intent list"
  utterance :: string
  handoff_snapshot :: string

record auto_pulled_fact_type =
  pulled_fact_type :: string
  pulled_producer :: string
  pulled_consumer :: string
  pulled_input :: string

record planner_goal = goal_spec +
  goal_type :: string
  goal_spec_version :: int
  pulled_facts :: "auto_pulled_fact_type list"

definition goal_to_dict :: "planner_goal \<Rightarrow> json" where
  "goal_to_dict goal = JObj
     [(''goalSpecVersion'', JInt (goal_spec_version goal)), (''goalId'', JStr (goal_id goal)),
      (''goalType'', JStr (goal_type goal)), (''executionMode'', JStr (execution_mode goal)),
      (''desiredFactTypes'', JList (map JStr (desired_fact_types goal))),
      (''constraints'', JList (map (\<lambda>c. JObj [(''name'', JStr (constraint_name c)),
         (''semanticType'', JStr (constraint_semantic_type c)), (''value'', constraint_value c)]) (constraints goal)))]"

section \<open>What may be pulled in\<close>

definition is_auto_pullable_governance :: "string \<Rightarrow> bool \<Rightarrow> bool" where
  "is_auto_pullable_governance effect needs_approval \<longleftrightarrow> effect = ''none'' \<and> \<not> needs_approval"

definition is_auto_pullable :: "capability_card \<Rightarrow> bool" where
  "is_auto_pullable c \<longleftrightarrow>
     is_auto_pullable_governance (card_side_effect (card_governance_of c)) (card_requires_approval (card_governance_of c))"

text \<open>
  The loop over the worklist keeps the fact types already in the goal, the records it added and the
  cards whose inputs are still to be closed.
\<close>

record pull_state =
  added_set :: "string list"
  added :: "auto_pulled_fact_type list"
  pull_worklist :: "capability_card list"

definition first_pullable :: "capability_card list \<Rightarrow> string \<Rightarrow> capability_card option" where
  "first_pullable cards fact_type = find (\<lambda>c. fact_type \<in> set (card_produces c) \<and> is_auto_pullable c) cards"

definition pull_candidate ::
    "capability_card list \<Rightarrow> (string \<times> string) list \<Rightarrow> string list \<Rightarrow> input_descriptor
     \<Rightarrow> (string \<times> capability_card) option" where
  "pull_candidate cards bound in_goal inp =
     (if \<not> desc_required inp then None
      else (case desc_satisfiable_by inp of
          None \<Rightarrow> None
        | Some fact_type \<Rightarrow>
            if fact_type = [] \<or> map_of bound (desc_name inp) \<noteq> None \<or> fact_type \<in> set in_goal then None
            else map_option (Pair fact_type) (first_pullable cards fact_type)))"

definition pull_input ::
    "capability_card list \<Rightarrow> (string \<times> string) list \<Rightarrow> capability_card \<Rightarrow> input_descriptor \<Rightarrow> pull_state \<Rightarrow> pull_state" where
  "pull_input cards bound consumer inp s =
     (case pull_candidate cards bound (added_set s) inp of
        None \<Rightarrow> s
      | Some (fact_type, producer) \<Rightarrow>
          \<lparr>added_set = added_set s @ [fact_type],
           added = added s @ [\<lparr>pulled_fact_type = fact_type, pulled_producer = card_id producer,
                                pulled_consumer = card_id consumer, pulled_input = desc_name inp\<rparr>],
           pull_worklist = pull_worklist s @ [producer]\<rparr>)"

text \<open>The fact types some card produces and the goal does not have: each pull removes one.\<close>

definition unpulled :: "capability_card list \<Rightarrow> string list \<Rightarrow> string set" where
  "unpulled cards in_goal = (\<Union>c \<in> set cards. set (card_produces c)) - set in_goal"

lemma finite_unpulled [simp]: "finite (unpulled cards in_goal)"
  by (simp add: unpulled_def)

lemma pull_candidate_Some:
  "pull_candidate cards bound in_goal inp = Some (f, p) \<longleftrightarrow>
     desc_required inp \<and> desc_satisfiable_by inp = Some f \<and> f \<noteq> [] \<and> map_of bound (desc_name inp) = None
     \<and> f \<notin> set in_goal \<and> first_pullable cards f = Some p"
  by (auto simp: pull_candidate_def split: option.splits if_splits)

lemma first_pullable_Some:
  assumes "first_pullable cards f = Some p"
  shows "p \<in> set cards" "f \<in> set (card_produces p)" "is_auto_pullable p"
  using assms by (auto simp: first_pullable_def find_Some_iff)

lemma pull_candidate_producer:
  assumes "pull_candidate cards bound in_goal inp = Some (f, p)"
  shows "f \<in> unpulled cards in_goal"
  using assms first_pullable_Some [of cards f p] by (auto simp: pull_candidate_Some unpulled_def)

definition pull_measure :: "capability_card list \<Rightarrow> pull_state \<Rightarrow> nat" where
  "pull_measure cards s = card (unpulled cards (added_set s)) + length (pull_worklist s)"

lemma pull_input_measure: "pull_measure cards (pull_input cards bound c inp s) = pull_measure cards s"
proof (cases "pull_candidate cards bound (added_set s) inp")
  case (Some fp)
  then obtain f p where fp: "pull_candidate cards bound (added_set s) inp = Some (f, p)" by (cases fp) auto
  note f = pull_candidate_producer [OF fp]
  have "unpulled cards (added_set s @ [f]) = unpulled cards (added_set s) - {f}" by (auto simp: unpulled_def)
  then have "card (unpulled cards (added_set s)) = Suc (card (unpulled cards (added_set s @ [f])))"
    using card.remove [OF finite_unpulled f] by (simp only:)
  then show ?thesis by (simp add: pull_measure_def pull_input_def fp)
qed (simp add: pull_input_def)

lemma pull_inputs_measure: "pull_measure cards (fold (pull_input cards bound c) inps s) = pull_measure cards s"
  by (induction inps arbitrary: s) (simp_all add: pull_input_measure)

function pull_loop :: "capability_card list \<Rightarrow> (string \<times> string) list \<Rightarrow> pull_state \<Rightarrow> pull_state" where
  "pull_loop cards bound s =
     (case pull_worklist s of
        [] \<Rightarrow> s
      | c # rest \<Rightarrow> pull_loop cards bound (fold (pull_input cards bound c) (card_inputs c) (s\<lparr>pull_worklist := rest\<rparr>)))"
  by pat_completeness auto
termination
proof (relation "measure (\<lambda>(cards, _, s). pull_measure cards s)")
  fix cards bound and s :: pull_state and c rest
  assume "pull_worklist s = c # rest"
  then show "((cards, bound, fold (pull_input cards bound c) (card_inputs c) (s\<lparr>pull_worklist := rest\<rparr>)), cards, bound, s)
      \<in> measure (\<lambda>(cards, _, s). pull_measure cards s)"
    by (simp add: pull_inputs_measure) (simp add: pull_measure_def)
qed simp

declare pull_loop.simps [simp del, code]

definition auto_pulled_fact_types ::
    "capability_card list \<Rightarrow> capability_card list \<Rightarrow> (string \<times> string) list \<Rightarrow> string list \<Rightarrow> auto_pulled_fact_type list" where
  "auto_pulled_fact_types cards matched_cards bound desired =
     added (pull_loop cards bound \<lparr>added_set = desired, added = [], pull_worklist = matched_cards\<rparr>)"

section \<open>Building the goal\<close>

definition first_seen :: "'a list \<Rightarrow> 'a list" where
  "first_seen xs = fold (\<lambda>x seen. if x \<in> set seen then seen else seen @ [x]) xs []"

definition cards_by_id :: "capability_card list \<Rightarrow> (string \<times> capability_card) list" where
  "cards_by_id cards = dict_of (map (\<lambda>c. (card_id c, c)) cards)"

definition matched_fact_types :: "escalation_handoff \<Rightarrow> capability_card list \<Rightarrow> string list" where
  "matched_fact_types handoff cards =
     first_seen (concat (map (\<lambda>m. case map_of (cards_by_id cards) (intent_capability m) of
        None \<Rightarrow> [] | Some c \<Rightarrow> card_produces c) (matched_intents handoff)))"

definition bound_parameters :: "escalation_handoff \<Rightarrow> (string \<times> string) list" where
  "bound_parameters handoff = dict_of (concat (map intent_parameters (matched_intents handoff)))"

definition matched_cards :: "escalation_handoff \<Rightarrow> capability_card list \<Rightarrow> capability_card list" where
  "matched_cards handoff cards =
     List.map_filter (\<lambda>m. map_of (cards_by_id cards) (intent_capability m)) (matched_intents handoff)"

definition derive_goal_id :: "escalation_handoff \<Rightarrow> string" where
  "derive_goal_id handoff =
     ''goal.dry-run.'' @ handoff_snapshot handoff @ '':'' @ join '','' (map intent_capability (matched_intents handoff))"

definition after_last_colon :: "string \<Rightarrow> string" where
  "after_last_colon s = rev (takeWhile (\<lambda>c. c \<noteq> CHR '':'') (rev s))"

definition derive_goal_type :: "string list \<Rightarrow> string" where
  "derive_goal_type desired =
     (case desired of f # _ \<Rightarrow> ''sapnexus:GoalFor:'' @ after_last_colon f | [] \<Rightarrow> ''sapnexus:PlannerDryRunGoal'')"

definition build_goal_spec :: "escalation_handoff \<Rightarrow> capability_card list \<Rightarrow> planner_goal" where
  "build_goal_spec handoff cards =
     (let desired = matched_fact_types handoff cards;
          pulled = auto_pulled_fact_types cards (matched_cards handoff cards) (bound_parameters handoff) desired;
          all_desired = desired @ map pulled_fact_type pulled
      in \<lparr>goal_id = derive_goal_id handoff, execution_mode = ''PLAN_ONLY'', desired_fact_types = all_desired,
          constraints = [], goal_type = derive_goal_type all_desired, goal_spec_version = 1, pulled_facts = pulled\<rparr>)"

section \<open>The closure\<close>

text \<open>
  What an input that a fact could satisfy asks for: nothing if it is optional or stated by the user.
\<close>

definition wants :: "(string \<times> string) list \<Rightarrow> input_descriptor \<Rightarrow> string \<Rightarrow> bool" where
  "wants bound inp f \<longleftrightarrow>
     desc_required inp \<and> desc_satisfiable_by inp = Some f \<and> f \<noteq> [] \<and> map_of bound (desc_name inp) = None"

text \<open>The cards the closure works on: those of the matched intents and the producers it pulled.\<close>

definition worked_cards :: "capability_card list \<Rightarrow> capability_card list \<Rightarrow> auto_pulled_fact_type list \<Rightarrow> capability_card set" where
  "worked_cards cards matched records =
     set matched \<union> {p. \<exists>r \<in> set records. first_pullable cards (pulled_fact_type r) = Some p}"

text \<open>
  A justified record names the first pullable producer of its fact and a consumer that was there before
  it, with an input that wants the fact.
\<close>

definition pull_justified ::
    "capability_card list \<Rightarrow> capability_card list \<Rightarrow> (string \<times> string) list \<Rightarrow> auto_pulled_fact_type list
     \<Rightarrow> auto_pulled_fact_type \<Rightarrow> bool" where
  "pull_justified cards matched bound earlier r \<longleftrightarrow>
     (\<exists>p c inp. first_pullable cards (pulled_fact_type r) = Some p \<and> pulled_producer r = card_id p
        \<and> c \<in> worked_cards cards matched earlier \<and> pulled_consumer r = card_id c
        \<and> inp \<in> set (card_inputs c) \<and> pulled_input r = desc_name inp \<and> wants bound inp (pulled_fact_type r))"

definition pulls_justified ::
    "capability_card list \<Rightarrow> capability_card list \<Rightarrow> (string \<times> string) list \<Rightarrow> auto_pulled_fact_type list \<Rightarrow> bool" where
  "pulls_justified cards matched bound records \<longleftrightarrow>
     (\<forall>k < length records. pull_justified cards matched bound (take k records) (records ! k))"

definition card_closed :: "capability_card list \<Rightarrow> (string \<times> string) list \<Rightarrow> string list \<Rightarrow> capability_card \<Rightarrow> bool" where
  "card_closed cards bound in_goal c \<longleftrightarrow>
     (\<forall>inp \<in> set (card_inputs c). \<forall>f. wants bound inp f \<longrightarrow> f \<in> set in_goal \<or> first_pullable cards f = None)"

definition input_closed :: "capability_card list \<Rightarrow> (string \<times> string) list \<Rightarrow> string list \<Rightarrow> input_descriptor \<Rightarrow> bool" where
  "input_closed cards bound in_goal inp \<longleftrightarrow>
     (\<forall>f. wants bound inp f \<longrightarrow> f \<in> set in_goal \<or> first_pullable cards f = None)"

lemma card_closed_inputs: "card_closed cards bound in_goal c \<longleftrightarrow> (\<forall>inp \<in> set (card_inputs c). input_closed cards bound in_goal inp)"
  by (simp add: card_closed_def input_closed_def)

lemma input_closed_mono: "input_closed cards bound xs inp \<Longrightarrow> set xs \<subseteq> set ys \<Longrightarrow> input_closed cards bound ys inp"
  by (auto simp: input_closed_def)

text \<open>The state of the loop, apart from which of the worked cards are done.\<close>

definition pull_ok :: "capability_card list \<Rightarrow> capability_card list \<Rightarrow> (string \<times> string) list \<Rightarrow> string list \<Rightarrow> pull_state \<Rightarrow> bool" where
  "pull_ok cards matched bound desired s \<longleftrightarrow>
     added_set s = desired @ map pulled_fact_type (added s) \<and> distinct (added_set s)
     \<and> pulls_justified cards matched bound (added s)"

lemma worked_cards_snoc:
  "worked_cards cards matched (records @ [r]) =
     worked_cards cards matched records \<union> {p. first_pullable cards (pulled_fact_type r) = Some p}"
  by (auto simp: worked_cards_def)

lemma pulls_justified_snoc:
  "pulls_justified cards matched bound (records @ [r]) \<longleftrightarrow>
     pulls_justified cards matched bound records \<and> pull_justified cards matched bound records r"
  by (auto simp: pulls_justified_def nth_append less_Suc_eq)

lemma pull_ok_worklist [simp]: "pull_ok cards matched bound desired (s\<lparr>pull_worklist := w\<rparr>) = pull_ok cards matched bound desired s"
  by (simp add: pull_ok_def)

lemma pull_ok_snoc:
  assumes "pull_ok cards matched bound desired s" and "pulled_fact_type r \<notin> set (added_set s)"
    and "pull_justified cards matched bound (added s) r"
  shows "pull_ok cards matched bound desired
    \<lparr>added_set = added_set s @ [pulled_fact_type r], added = added s @ [r], pull_worklist = w\<rparr>"
  using assms unfolding pull_ok_def by (elim conjE) (simp add: pulls_justified_snoc)

lemma pull_input_grows: "set (added_set s) \<subseteq> set (added_set (pull_input cards bound c inp s))"
  by (auto simp: pull_input_def split: option.splits)

lemma pull_inputs_grow: "set (added_set s) \<subseteq> set (added_set (fold (pull_input cards bound c) inps s))"
proof (induction inps arbitrary: s)
  case (Cons inp inps)
  then show ?case using pull_input_grows [of s cards bound c inp] by fastforce
qed simp

lemma pull_input_closes: "input_closed cards bound (added_set (pull_input cards bound c inp s)) inp"
  by (auto simp: input_closed_def wants_def pull_input_def pull_candidate_def split: option.splits if_splits)

lemma pull_inputs_close:
  "inp \<in> set inps \<Longrightarrow> input_closed cards bound (added_set (fold (pull_input cards bound c) inps s)) inp"
proof (induction inps arbitrary: s)
  case (Cons i inps)
  then show ?case
    using input_closed_mono [OF pull_input_closes [of cards bound c i s] pull_inputs_grow] by auto
qed simp

lemma pull_input_ok:
  assumes "pull_ok cards matched bound desired s" and "c \<in> worked_cards cards matched (added s)" and "inp \<in> set (card_inputs c)"
  shows "pull_ok cards matched bound desired (pull_input cards bound c inp s)
    \<and> (\<exists>ps. worked_cards cards matched (added (pull_input cards bound c inp s)) = worked_cards cards matched (added s) \<union> set ps
         \<and> pull_worklist (pull_input cards bound c inp s) = pull_worklist s @ ps)"
proof (cases "pull_candidate cards bound (added_set s) inp")
  case None
  then show ?thesis using assms(1) by (simp add: pull_input_def)
next
  case (Some fp)
  then obtain f p where fp: "pull_candidate cards bound (added_set s) inp = Some (f, p)" by (cases fp) auto
  let ?r = "\<lparr>pulled_fact_type = f, pulled_producer = card_id p, pulled_consumer = card_id c, pulled_input = desc_name inp\<rparr>"
  from fp have p: "first_pullable cards f = Some p" and "f \<notin> set (added_set s)" and "wants bound inp f"
    by (simp_all add: pull_candidate_Some wants_def)
  with assms(2,3) have "pull_justified cards matched bound (added s) ?r"
    by (auto simp: pull_justified_def)
  with pull_ok_snoc [OF assms(1), of ?r "pull_worklist s @ [p]"] \<open>f \<notin> set (added_set s)\<close> p show ?thesis
    by (auto simp: pull_input_def fp worked_cards_snoc intro!: exI [of _ "[p]"])
qed

lemma pull_inputs_ok:
  assumes "pull_ok cards matched bound desired s" and "c \<in> worked_cards cards matched (added s)"
    and "set inps \<subseteq> set (card_inputs c)"
  shows "pull_ok cards matched bound desired (fold (pull_input cards bound c) inps s)
    \<and> (\<exists>ps. worked_cards cards matched (added (fold (pull_input cards bound c) inps s)) = worked_cards cards matched (added s) \<union> set ps
         \<and> pull_worklist (fold (pull_input cards bound c) inps s) = pull_worklist s @ ps)"
  using assms
proof (induction inps arbitrary: s)
  case (Cons inp inps)
  let ?s = "pull_input cards bound c inp s"
  from Cons.prems pull_input_ok [of cards matched bound desired s c inp] obtain ps where
    s: "pull_ok cards matched bound desired ?s" "worked_cards cards matched (added ?s) = worked_cards cards matched (added s) \<union> set ps"
      "pull_worklist ?s = pull_worklist s @ ps" by auto
  with Cons.prems have "c \<in> worked_cards cards matched (added ?s)" by simp
  from Cons.IH [OF s(1) this] Cons.prems(3) obtain qs where
    "pull_ok cards matched bound desired (fold (pull_input cards bound c) inps ?s)"
    "worked_cards cards matched (added (fold (pull_input cards bound c) inps ?s)) = worked_cards cards matched (added ?s) \<union> set qs"
    "pull_worklist (fold (pull_input cards bound c) inps ?s) = pull_worklist ?s @ qs" by auto
  with s show ?case by (auto intro!: exI [of _ "ps @ qs"])
qed (auto intro!: exI [of _ "[]"])

lemma pull_loop_ok:
  assumes "pull_ok cards matched bound desired s"
    and "worked_cards cards matched (added s) = finished \<union> set (pull_worklist s)"
    and "\<And>c. c \<in> finished \<Longrightarrow> card_closed cards bound (added_set s) c"
  shows "pull_ok cards matched bound desired (pull_loop cards bound s)
    \<and> (\<forall>c \<in> worked_cards cards matched (added (pull_loop cards bound s)).
         card_closed cards bound (added_set (pull_loop cards bound s)) c)"
  using assms
proof (induction cards bound s arbitrary: finished rule: pull_loop.induct)
  case (1 cards bound s)
  show ?case
  proof (cases "pull_worklist s")
    case Nil
    with 1 show ?thesis by (simp add: pull_loop.simps [of cards bound s])
  next
    case (Cons c rest)
    let ?start = "s\<lparr>pull_worklist := rest\<rparr>"
    let ?s = "fold (pull_input cards bound c) (card_inputs c) ?start"
    have start: "pull_ok cards matched bound desired ?start" and c: "c \<in> worked_cards cards matched (added ?start)"
      using 1(2,3) Cons by simp_all
    obtain ps where ps: "pull_ok cards matched bound desired ?s"
      "worked_cards cards matched (added ?s) = worked_cards cards matched (added s) \<union> set ps" "pull_worklist ?s = rest @ ps"
      using pull_inputs_ok [OF start c subset_refl] by auto
    have "card_closed cards bound (added_set ?s) d" if "d \<in> insert c finished" for d
    proof (cases "d = c")
      case True
      then show ?thesis by (simp add: card_closed_inputs pull_inputs_close)
    next
      case False
      with that 1(4) have "card_closed cards bound (added_set s) d" by simp
      moreover have "set (added_set s) \<subseteq> set (added_set ?s)" using pull_inputs_grow [of ?start] by simp
      ultimately show ?thesis unfolding card_closed_inputs using input_closed_mono by blast
    qed
    moreover have "worked_cards cards matched (added ?s) = insert c finished \<union> set (pull_worklist ?s)"
      using 1(3) Cons ps(2,3) by auto
    ultimately have "pull_ok cards matched bound desired (pull_loop cards bound ?s)
        \<and> (\<forall>c \<in> worked_cards cards matched (added (pull_loop cards bound ?s)).
             card_closed cards bound (added_set (pull_loop cards bound ?s)) c)"
      using 1(1) [OF Cons ps(1)] by blast
    then show ?thesis by (simp add: pull_loop.simps [of cards bound s] Cons)
  qed
qed

lemma distinct_first_seen [simp]: "distinct (first_seen xs)"
  by (simp add: first_seen_def distinct_fold_add)

lemma set_first_seen [simp]: "set (first_seen xs) = set xs"
  by (simp add: first_seen_def set_fold_add)

text \<open>
  C8: the closure of a goal is sound and complete.  A fact nobody asked for is added once, for an input of a
  matched capability or of an earlier pulled producer that requires it and that the user did not state, and
  is answered by a producer without side effect that needs no approval; and no such input of a matched or
  pulled capability is left out whose fact has a producer of this kind.
\<close>

theorem build_goal_spec_closed:
  assumes "matched = matched_cards handoff cards" and "bound = bound_parameters handoff"
    and "goal = build_goal_spec handoff cards"
  shows "desired_fact_types goal = matched_fact_types handoff cards @ map pulled_fact_type (pulled_facts goal)
    \<and> distinct (desired_fact_types goal) \<and> pulls_justified cards matched bound (pulled_facts goal)
    \<and> (\<forall>r \<in> set (pulled_facts goal). \<exists>p \<in> set cards. pulled_producer r = card_id p
         \<and> pulled_fact_type r \<in> set (card_produces p)
         \<and> card_side_effect (card_governance_of p) = ''none'' \<and> \<not> card_requires_approval (card_governance_of p))
    \<and> (\<forall>c \<in> worked_cards cards matched (pulled_facts goal). card_closed cards bound (desired_fact_types goal) c)"
proof -
  let ?start = "\<lparr>added_set = matched_fact_types handoff cards, added = [], pull_worklist = matched\<rparr>"
  have "pull_ok cards matched bound (matched_fact_types handoff cards) ?start"
    by (simp add: pull_ok_def matched_fact_types_def pulls_justified_def)
  moreover have "worked_cards cards matched (added ?start) = {} \<union> set (pull_worklist ?start)"
    by (simp add: worked_cards_def)
  ultimately have closed: "pull_ok cards matched bound (matched_fact_types handoff cards) (pull_loop cards bound ?start)
      \<and> (\<forall>c \<in> worked_cards cards matched (added (pull_loop cards bound ?start)).
           card_closed cards bound (added_set (pull_loop cards bound ?start)) c)"
    by (rule pull_loop_ok) simp
  have goal: "pulled_facts goal = added (pull_loop cards bound ?start)"
    "desired_fact_types goal = matched_fact_types handoff cards @ map pulled_fact_type (pulled_facts goal)"
    by (simp_all add: assms build_goal_spec_def auto_pulled_fact_types_def Let_def)
  with closed have desired: "desired_fact_types goal = added_set (pull_loop cards bound ?start)"
    and just: "pulls_justified cards matched bound (pulled_facts goal)"
    by (simp_all add: pull_ok_def)
  have producer: "\<exists>p \<in> set cards. pulled_producer r = card_id p \<and> pulled_fact_type r \<in> set (card_produces p)
      \<and> card_side_effect (card_governance_of p) = ''none'' \<and> \<not> card_requires_approval (card_governance_of p)"
    if "r \<in> set (pulled_facts goal)" for r
  proof -
    from that just obtain k where "pull_justified cards matched bound (take k (pulled_facts goal)) r"
      by (auto simp: pulls_justified_def in_set_conv_nth)
    then obtain p where "first_pullable cards (pulled_fact_type r) = Some p" "pulled_producer r = card_id p"
      by (auto simp: pull_justified_def)
    with first_pullable_Some [OF this(1)] show ?thesis
      by (auto simp: is_auto_pullable_def is_auto_pullable_governance_def)
  qed
  have "distinct (desired_fact_types goal)" using closed unfolding desired pull_ok_def by blast
  with closed producer just show ?thesis unfolding desired [symmetric] goal(1) [symmetric] using goal(2) by blast
qed

section \<open>A handoff to evaluate on\<close>

definition demo_card :: "string \<Rightarrow> string list \<Rightarrow> input_descriptor list \<Rightarrow> capability_card" where
  "demo_card i produces ins = \<lparr>card_id = i, card_name = i,
     card_governance_of = \<lparr>card_side_effect = ''none'', card_requires_approval = False, card_data_classification = ''internal''\<rparr>,
     card_visibility = ''VISIBLE_DRY_RUN'', card_produces = produces, card_inputs = ins, card_snapshot_id = ''s''\<rparr>"

definition demo_descriptor :: "string \<Rightarrow> string option \<Rightarrow> input_descriptor" where
  "demo_descriptor n f = \<lparr>desc_name = n, desc_semantic_type = n, desc_required = True, desc_binding_kind = ''identifier'',
     desc_satisfiable_by = f\<rparr>"

definition demo_cards_list :: "capability_card list" where
  "demo_cards_list =
     [demo_card ''Order'' [''Ord''] [demo_descriptor ''material'' None, demo_descriptor ''uom'' (Some ''Mat'')],
      demo_card ''Info'' [''Mat''] [demo_descriptor ''plant'' (Some ''Org'')],
      demo_card ''Plants'' [''Org''] [demo_descriptor ''uom'' (Some ''Mat'')]]"

definition demo_handoff :: escalation_handoff where
  "demo_handoff = \<lparr>handoff_reason = ''r'', matched_intents =
     [\<lparr>intent_capability = ''Order'', intent_parameters = [(''material'', ''M1'')], intent_missing = []\<rparr>],
     utterance = ''u'', handoff_snapshot = ''s''\<rparr>"

lemma demo_goal: "desired_fact_types (build_goal_spec demo_handoff demo_cards_list) = [''Ord'', ''Mat'', ''Org'']"
  by code_simp

lemma build_goal_spec_closed_witness:
  "map pulled_fact_type (pulled_facts (build_goal_spec demo_handoff demo_cards_list)) = [''Mat'', ''Org'']
   \<and> distinct [''Ord'', ''Mat'', ''Org'']"
proof -
  have "matched_fact_types demo_handoff demo_cards_list = [''Ord'']" by code_simp
  moreover have "desired_fact_types (build_goal_spec demo_handoff demo_cards_list) =
      matched_fact_types demo_handoff demo_cards_list @ map pulled_fact_type (pulled_facts (build_goal_spec demo_handoff demo_cards_list))"
    using build_goal_spec_closed [OF refl refl refl, of demo_handoff demo_cards_list] by blast
  ultimately have "map pulled_fact_type (pulled_facts (build_goal_spec demo_handoff demo_cards_list)) = [''Mat'', ''Org'']"
    by (simp add: demo_goal)
  then show ?thesis by (rule conjI) simp
qed

end
