(* ===== verification/Planning_Contracts.thy ===== *)
theory Planning_Contracts
  imports Snapshot
begin

text \<open>
  \<open>ontology_planning/contracts.py\<close>: the goal draft an interpreter proposes and the typed facts
  and results of an analysis, with their dictionary forms; \<open>ontology_planning/bounds.py\<close>.

  A field whose values the code copies without converting them (\<open>fields\<close>,
  \<open>dependsOn\<close>, \<open>assumptions\<close>) stays a list of JSON values.  \<open>int(...)\<close> of a
  text or a float and \<open>dict(...)\<close> of a value that is no mapping are parameters.
\<close>

section \<open>Bounds\<close>

definition max_read_nodes :: nat where "max_read_nodes = 6"
definition max_analysis_nodes :: nat where "max_analysis_nodes = 6"
definition max_depth :: nat where "max_depth = 4"
definition max_model_turns :: nat where "max_model_turns = 2"
definition overall_timeout_seconds :: nat where "overall_timeout_seconds = 90"
definition max_rows :: nat where "max_rows = 5000"
definition max_response_bytes :: nat where "max_response_bytes = 2 * 1024 * 1024"
definition max_draft_bytes :: nat where "max_draft_bytes = 256 * 1024"
definition max_string_chars :: nat where "max_string_chars = 4096"
definition max_nesting_depth :: nat where "max_nesting_depth = 8"
definition max_requested_facts :: nat where "max_requested_facts = 6"

section \<open>Reading a document\<close>

definition str_item :: "json \<Rightarrow> string \<Rightarrow> string result" where
  "str_item document key = map_sum id plain_str (jitem document key)"

definition sequence_item :: "json \<Rightarrow> string \<Rightarrow> json list result" where
  "sequence_item document key = py_iter (jget_default document key (JList []))"

definition dict_value :: "(json \<Rightarrow> (string \<times> json) list result) \<Rightarrow> json \<Rightarrow> json result" where
  "dict_value dict_of_pairs v = (case v of JObj kvs \<Rightarrow> Inr v | _ \<Rightarrow> map_sum id JObj (dict_of_pairs v))"

section \<open>Goal drafts\<close>

record object_selector =
  object_type_id :: string
  selector_key :: string
  selector_value :: string

definition selector_to_dict :: "object_selector \<Rightarrow> json" where
  "selector_to_dict s = JObj [(''objectTypeId'', JStr (object_type_id s)), (''key'', JStr (selector_key s)),
     (''value'', JStr (selector_value s))]"

definition selector_from_dict :: "json \<Rightarrow> object_selector result" where
  "selector_from_dict document =
     rbind (str_item document ''objectTypeId'') (\<lambda>t. rbind (str_item document ''key'') (\<lambda>k.
       rbind (str_item document ''value'') (\<lambda>v.
         Inr \<lparr>object_type_id = t, selector_key = k, selector_value = v\<rparr>)))"

record requested_fact =
  requested_fact_type :: string
  requested_fields :: "json list"
  selectors :: "object_selector list"

definition requested_fact_to_dict :: "requested_fact \<Rightarrow> json" where
  "requested_fact_to_dict f = JObj [(''factTypeId'', JStr (requested_fact_type f)),
     (''fields'', JList (requested_fields f)), (''objectSelectors'', JList (map selector_to_dict (selectors f)))]"

definition requested_fact_from_dict :: "json \<Rightarrow> requested_fact result" where
  "requested_fact_from_dict document =
     rbind (str_item document ''factTypeId'') (\<lambda>t. rbind (sequence_item document ''fields'') (\<lambda>fields.
       rbind (sequence_item document ''objectSelectors'') (\<lambda>ss. rbind (mapM selector_from_dict ss) (\<lambda>sels.
         Inr \<lparr>requested_fact_type = t, requested_fields = fields, selectors = sels\<rparr>))))"

record typed_constraint =
  tc_name :: string
  tc_semantic_type :: string
  tc_value :: string
  tc_source :: string

definition constraint_sources :: "string list" where
  "constraint_sources = [''explicitUser'', ''confirmedContext'']"

definition typed_constraint_of :: "string \<Rightarrow> string \<Rightarrow> string \<Rightarrow> string \<Rightarrow> typed_constraint result" where
  "typed_constraint_of n t v src =
     (if src \<notin> set constraint_sources then
        Inl (ValueError (''constraint source must be one of '' @ repr_tuple (map repr_str constraint_sources)
          @ '', got '' @ repr_str src))
      else Inr \<lparr>tc_name = n, tc_semantic_type = t, tc_value = v, tc_source = src\<rparr>)"

definition constraint_to_dict :: "typed_constraint \<Rightarrow> json" where
  "constraint_to_dict c = JObj [(''name'', JStr (tc_name c)), (''semanticType'', JStr (tc_semantic_type c)),
     (''value'', JStr (tc_value c)), (''source'', JStr (tc_source c))]"

definition constraint_from_dict :: "json \<Rightarrow> typed_constraint result" where
  "constraint_from_dict document =
     rbind (str_item document ''name'') (\<lambda>n. rbind (str_item document ''semanticType'') (\<lambda>t.
       rbind (str_item document ''value'') (\<lambda>v. rbind (str_item document ''source'') (\<lambda>src.
         typed_constraint_of n t v src))))"

record analysis_node_draft =
  an_id :: string
  an_operator :: string
  an_inputs :: "json list"
  an_params :: json
  an_depends_on :: "json list"

definition analysis_node_to_dict :: "analysis_node_draft \<Rightarrow> json" where
  "analysis_node_to_dict n = JObj [(''nodeId'', JStr (an_id n)), (''operatorId'', JStr (an_operator n)),
     (''inputs'', JList (an_inputs n)), (''params'', an_params n), (''dependsOn'', JList (an_depends_on n))]"

definition analysis_node_from_dict ::
    "(json \<Rightarrow> (string \<times> json) list result) \<Rightarrow> json \<Rightarrow> analysis_node_draft result" where
  "analysis_node_from_dict dict_of_pairs document =
     rbind (str_item document ''nodeId'') (\<lambda>i. rbind (str_item document ''operatorId'') (\<lambda>op.
       rbind (sequence_item document ''inputs'') (\<lambda>raw. rbind (mapM (dict_value dict_of_pairs) raw) (\<lambda>inputs.
         rbind (dict_value dict_of_pairs (jget_default document ''params'' (JObj []))) (\<lambda>params.
           rbind (sequence_item document ''dependsOn'') (\<lambda>deps.
             Inr \<lparr>an_id = i, an_operator = op, an_inputs = inputs, an_params = params, an_depends_on = deps\<rparr>))))))"

record requested_conclusion =
  conclusion_id :: string
  conclusion_statement :: string
  evidence_requirement :: string

definition conclusion_to_dict :: "requested_conclusion \<Rightarrow> json" where
  "conclusion_to_dict c = JObj [(''id'', JStr (conclusion_id c)), (''statement'', JStr (conclusion_statement c)),
     (''evidenceRequirement'', JStr (evidence_requirement c))]"

definition conclusion_from_dict :: "json \<Rightarrow> requested_conclusion result" where
  "conclusion_from_dict document =
     rbind (str_item document ''id'') (\<lambda>i. rbind (str_item document ''statement'') (\<lambda>s.
       Inr \<lparr>conclusion_id = i, conclusion_statement = s,
            evidence_requirement = plain_str (jget_default document ''evidenceRequirement'' (JStr []))\<rparr>))"

record goal_draft =
  draft_schema_version :: int
  requested_facts :: "requested_fact list"
  draft_constraints :: "typed_constraint list"
  analysis_nodes :: "analysis_node_draft list"
  requested_conclusions :: "requested_conclusion list"
  assumptions :: "json list"

definition draft_to_dict :: "goal_draft \<Rightarrow> json" where
  "draft_to_dict d = JObj [(''schemaVersion'', JInt (draft_schema_version d)),
     (''requestedFacts'', JList (map requested_fact_to_dict (requested_facts d))),
     (''constraints'', JList (map constraint_to_dict (draft_constraints d))),
     (''analysisNodes'', JList (map analysis_node_to_dict (analysis_nodes d))),
     (''requestedConclusions'', JList (map conclusion_to_dict (requested_conclusions d))),
     (''assumptions'', JList (assumptions d))]"

definition list_from_dict :: "(json \<Rightarrow> 'a result) \<Rightarrow> json \<Rightarrow> string \<Rightarrow> 'a list result" where
  "list_from_dict read document key = rbind (sequence_item document key) (mapM read)"

definition draft_from_dict ::
    "(json \<Rightarrow> int result) \<Rightarrow> (json \<Rightarrow> (string \<times> json) list result) \<Rightarrow> json \<Rightarrow> goal_draft result" where
  "draft_from_dict int_of_text dict_of_pairs document =
     rbind (jitem document ''schemaVersion'') (\<lambda>raw. rbind (py_int int_of_text raw) (\<lambda>version.
     rbind (list_from_dict requested_fact_from_dict document ''requestedFacts'') (\<lambda>facts.
     rbind (list_from_dict constraint_from_dict document ''constraints'') (\<lambda>constraints.
     rbind (list_from_dict (analysis_node_from_dict dict_of_pairs) document ''analysisNodes'') (\<lambda>nodes.
     rbind (list_from_dict conclusion_from_dict document ''requestedConclusions'') (\<lambda>conclusions.
     rbind (sequence_item document ''assumptions'') (\<lambda>assumed.
       Inr \<lparr>draft_schema_version = version, requested_facts = facts, draft_constraints = constraints,
            analysis_nodes = nodes, requested_conclusions = conclusions, assumptions = assumed\<rparr>)))))))"

section \<open>Facts and results\<close>

record node_result =
  nr_node :: string
  nr_capability :: string
  nr_parameters :: "(string \<times> string) list"
  nr_trace :: "string option"
  nr_executed_at :: string
  nr_data :: "(string \<times> json) list"

definition option_json :: "string option \<Rightarrow> json" where
  "option_json v = (case v of None \<Rightarrow> JNull | Some s \<Rightarrow> JStr s)"

definition texts_json :: "(string \<times> string) list \<Rightarrow> json" where
  "texts_json kvs = JObj (map (\<lambda>(k, v). (k, JStr v)) kvs)"

record typed_field_value =
  field_value :: string
  field_semantic_type :: string

definition field_value_to_dict :: "typed_field_value \<Rightarrow> json" where
  "field_value_to_dict v = JObj [(''value'', JStr (field_value v)), (''semanticType'', JStr (field_semantic_type v))]"

definition field_value_from_dict :: "json \<Rightarrow> typed_field_value result" where
  "field_value_from_dict document =
     rbind (str_item document ''value'') (\<lambda>v. rbind (str_item document ''semanticType'') (\<lambda>t.
       Inr \<lparr>field_value = v, field_semantic_type = t\<rparr>))"

record fact_evidence =
  ev_run :: string
  ev_node :: string
  ev_trace :: "string option"
  ev_raw_fields :: "string list"
  ev_completeness :: string

definition evidence_to_dict :: "fact_evidence \<Rightarrow> json" where
  "evidence_to_dict e = JObj [(''runId'', JStr (ev_run e)), (''nodeId'', JStr (ev_node e)),
     (''gatewayTraceId'', option_json (ev_trace e)), (''rawFields'', JList (map JStr (ev_raw_fields e))),
     (''completeness'', JStr (ev_completeness e))]"

record typed_fact =
  fact_id :: string
  fact_type_of :: string
  object_type :: string
  object_key :: "(string \<times> string) list"
  fact_scope :: "(string \<times> string) list"
  row_identity :: "(string \<times> string) list"
  fact_fields :: "(string \<times> typed_field_value) list"
  fact_unit :: "(string \<times> string) list option"
  business_time :: "string option"
  collected_at :: string
  definition_ref :: "string option"
  fact_evidence_of :: fact_evidence
  fact_completeness :: string

definition typed_fact_to_dict :: "typed_fact \<Rightarrow> json" where
  "typed_fact_to_dict f = JObj [(''schemaVersion'', JInt 1), (''factId'', JStr (fact_id f)),
     (''factTypeRef'', JStr (fact_type_of f)), (''objectType'', JStr (object_type f)),
     (''objectKey'', texts_json (object_key f)), (''scope'', texts_json (fact_scope f)),
     (''rowIdentity'', texts_json (row_identity f)),
     (''fields'', JObj (map (\<lambda>(k, v). (k, field_value_to_dict v)) (fact_fields f))),
     (''unit'', case fact_unit f of None \<Rightarrow> JNull | Some u \<Rightarrow> if u = [] then JNull else texts_json u),
     (''businessTime'', option_json (business_time f)), (''collectedAt'', JStr (collected_at f)),
     (''definitionRef'', option_json (definition_ref f)), (''evidence'', evidence_to_dict (fact_evidence_of f)),
     (''completeness'', JStr (fact_completeness f))]"

record excluded_row =
  excluded_fact :: string
  excluded_reason :: string

definition excluded_row_to_dict :: "excluded_row \<Rightarrow> json" where
  "excluded_row_to_dict r = JObj [(''factId'', JStr (excluded_fact r)), (''reason'', JStr (excluded_reason r))]"

record normalization =
  norm_facts :: "typed_fact list"
  norm_exclusions :: "excluded_row list"
  norm_conflicts :: "string list"

record analysis_result =
  ar_node :: string
  ar_operator :: string
  ar_status :: string
  ar_output_type :: string
  ar_rows :: "(string \<times> json) list list"
  ar_excluded :: "excluded_row list"
  ar_operator_version :: string
  ar_definition_refs :: "string list"
  ar_partial :: bool
  ar_limits :: "(string \<times> json) list"
  ar_reasons :: "string list"

definition analysis_result_to_dict :: "analysis_result \<Rightarrow> json" where
  "analysis_result_to_dict r = JObj [(''schemaVersion'', JInt 1), (''nodeId'', JStr (ar_node r)),
     (''operatorId'', JStr (ar_operator r)), (''status'', JStr (ar_status r)),
     (''outputType'', JStr (ar_output_type r)), (''rows'', JList (map JObj (ar_rows r))),
     (''excludedRows'', JList (map excluded_row_to_dict (ar_excluded r))),
     (''operatorVersion'', JStr (ar_operator_version r)),
     (''definitionRefs'', JList (map JStr (ar_definition_refs r))), (''partial'', JBool (ar_partial r)),
     (''limits'', JObj (ar_limits r)), (''reasons'', JList (map JStr (ar_reasons r)))]"

section \<open>Dictionary forms read back\<close>

text \<open>What \<open>__post_init__\<close> and \<open>dict(...)\<close> leave true of every draft.\<close>

definition draft_ok :: "goal_draft \<Rightarrow> bool" where
  "draft_ok d \<longleftrightarrow> (\<forall>c \<in> set (draft_constraints d). tc_source c \<in> set constraint_sources)
     \<and> (\<forall>n \<in> set (analysis_nodes d). is_mapping (an_params n) \<and> (\<forall>i \<in> set (an_inputs n). is_mapping i))"

lemma str_item_eq [simp]: "str_item (JObj kvs) key =
  (case map_of kvs key of None \<Rightarrow> Inl (KeyError key) | Some v \<Rightarrow> Inr (plain_str v))"
  by (simp add: str_item_def jitem_def split: option.splits)

lemma sequence_item_eq [simp]:
  "map_of kvs key = Some (JList vs) \<Longrightarrow> sequence_item (JObj kvs) key = Inr vs"
  by (simp add: sequence_item_def jget_default_def py_iter_def)

lemma mapM_roundtrip: "(\<And>x. x \<in> set xs \<Longrightarrow> f (g x) = Inr x) \<Longrightarrow> mapM f (map g xs) = Inr xs"
  by (induction xs) simp_all

lemma selector_roundtrip: "selector_from_dict (selector_to_dict s) = Inr s"
  by (simp add: selector_from_dict_def selector_to_dict_def)

lemma requested_fact_roundtrip: "requested_fact_from_dict (requested_fact_to_dict f) = Inr f"
  by (simp add: requested_fact_from_dict_def requested_fact_to_dict_def mapM_roundtrip selector_roundtrip)

lemma constraint_roundtrip:
  "tc_source c \<in> set constraint_sources \<Longrightarrow> constraint_from_dict (constraint_to_dict c) = Inr c"
  by (simp add: constraint_from_dict_def constraint_to_dict_def typed_constraint_of_def)

lemma dict_value_mapping: "is_mapping v \<Longrightarrow> dict_value d v = Inr v"
  by (cases v) (simp_all add: dict_value_def)

lemma analysis_node_roundtrip:
  assumes "is_mapping (an_params n)" and "\<forall>i \<in> set (an_inputs n). is_mapping i"
  shows "analysis_node_from_dict d (analysis_node_to_dict n) = Inr n"
proof -
  have "mapM (dict_value d) (map (\<lambda>i. i) (an_inputs n)) = Inr (an_inputs n)"
    by (rule mapM_roundtrip) (use assms(2) in \<open>simp add: dict_value_mapping\<close>)
  then show ?thesis
    using assms(1) by (simp add: analysis_node_from_dict_def analysis_node_to_dict_def jget_default_def dict_value_mapping)
qed

lemma conclusion_roundtrip: "conclusion_from_dict (conclusion_to_dict c) = Inr c"
  by (simp add: conclusion_from_dict_def conclusion_to_dict_def jget_default_def)

lemma draft_roundtrip:
  assumes "draft_ok d"
  shows "draft_from_dict n p (draft_to_dict d) = Inr d"
  using assms
  by (simp add: draft_from_dict_def draft_to_dict_def list_from_dict_def jitem_def py_int_def mapM_roundtrip
      requested_fact_roundtrip constraint_roundtrip analysis_node_roundtrip conclusion_roundtrip draft_ok_def)

lemma dict_value_ok: "dict_value p v = Inr w \<Longrightarrow> is_mapping w"
  by (cases "p v"; cases v) (auto simp: dict_value_def)

lemma draft_from_dict_ok:
  assumes "draft_from_dict n p document = Inr d"
  shows "draft_ok d"
proof -
  from assms obtain cs ns where read:
    "mapM constraint_from_dict cs = Inr (draft_constraints d)"
    "mapM (analysis_node_from_dict p) ns = Inr (analysis_nodes d)"
    by (auto simp: draft_from_dict_def list_from_dict_def result_simps)
  have "tc_source c \<in> set constraint_sources" if "c \<in> set (draft_constraints d)" for c
  proof -
    from that read(1) obtain j where "constraint_from_dict j = Inr c"
      by (auto simp: result_simps list_all2_conv_all_nth in_set_conv_nth)
    then show ?thesis by (auto simp: constraint_from_dict_def result_simps typed_constraint_of_def split: if_splits)
  qed
  moreover have "is_mapping (an_params a) \<and> (\<forall>i \<in> set (an_inputs a). is_mapping i)" if "a \<in> set (analysis_nodes d)" for a
  proof -
    from that read(2) obtain j where "analysis_node_from_dict p j = Inr a"
      by (auto simp: result_simps list_all2_conv_all_nth in_set_conv_nth)
    then obtain raw v where "mapM (dict_value p) raw = Inr (an_inputs a)" "dict_value p v = Inr (an_params a)"
      by (auto simp: analysis_node_from_dict_def result_simps)
    then show ?thesis using dict_value_ok by (fastforce simp: result_simps list_all2_conv_all_nth in_set_conv_nth)
  qed
  ultimately show ?thesis by (simp add: draft_ok_def)
qed

text \<open>
  C37: every draft that was read from a document, whatever the document held, names an allowed source for
  each constraint, has mappings for its operator inputs and parameters, and writes itself as a document
  that reads back as the same draft.
\<close>

theorem draft_reread:
  assumes "draft_from_dict n p document = Inr d"
  shows "draft_ok d \<and> draft_from_dict n p (draft_to_dict d) = Inr d"
  using draft_from_dict_ok [OF assms] draft_roundtrip by blast

definition demo_draft_document :: json where
  "demo_draft_document = JObj [(''schemaVersion'', JBool True),
     (''requestedFacts'', JList [JObj [(''factTypeId'', JStr ''Mat''), (''fields'', JList [JStr ''unit'']),
        (''objectSelectors'', JList [JObj [(''objectTypeId'', JStr ''M''), (''key'', JStr ''material''), (''value'', JInt 7)]])]]),
     (''constraints'', JList [JObj [(''name'', JStr ''plant''), (''semanticType'', JStr ''Plant''),
        (''value'', JStr ''1000''), (''source'', JStr ''explicitUser'')]])]"

lemma draft_reread_witness:
  "draft_from_dict (\<lambda>_. Inl StopIteration) (\<lambda>_. Inl StopIteration)
     (draft_to_dict (projr (draft_from_dict (\<lambda>_. Inl StopIteration) (\<lambda>_. Inl StopIteration) demo_draft_document)))
   = draft_from_dict (\<lambda>_. Inl StopIteration) (\<lambda>_. Inl StopIteration) demo_draft_document"
proof -
  have "\<not> isl (draft_from_dict (\<lambda>_. Inl StopIteration) (\<lambda>_. Inl StopIteration) demo_draft_document)" by code_simp
  then have "draft_from_dict (\<lambda>_. Inl StopIteration) (\<lambda>_. Inl StopIteration) demo_draft_document
      = Inr (projr (draft_from_dict (\<lambda>_. Inl StopIteration) (\<lambda>_. Inl StopIteration) demo_draft_document))"
    by simp
  from draft_reread [OF this] this show ?thesis by simp
qed

end
