(* ===== verification/Resolver.thy ===== *)
theory Resolver
  imports Derivation Cards Planning_Contracts
begin

text \<open>
  \<open>ontology_planning/resolver.py\<close>: from the facts a draft asks for to the capabilities that
  read them.  \<open>close_inputs\<close> follows the derived data edges to further producers with a
  worklist; the order in which Python iterates over the set it starts from is the parameter
  \<open>set_order\<close>.
\<close>

section \<open>Data\<close>

record desired_fact =
  desired_type :: string
  desired_fields :: "json list"
  desired_producer :: string
  desired_selectors :: "object_selector list"

datatype closure_binding = ClosureBinding
  (bound_consumer: string) (bound_input: string) (bound_producer: string) (bound_fact_type: string) (bound_field: string)

definition binding_key :: "closure_binding \<Rightarrow> string \<times> string \<times> string \<times> string \<times> string" where
  "binding_key b = (bound_consumer b, bound_input b, bound_producer b, bound_fact_type b, bound_field b)"

lemma binding_key_inj: "binding_key b = binding_key c \<longleftrightarrow> b = c"
  by (cases b; cases c) (simp add: binding_key_def)

instantiation closure_binding :: linorder
begin

definition less_eq_closure_binding :: "closure_binding \<Rightarrow> closure_binding \<Rightarrow> bool" where
  "less_eq_closure_binding b c \<longleftrightarrow> binding_key b \<le> binding_key c"

definition less_closure_binding :: "closure_binding \<Rightarrow> closure_binding \<Rightarrow> bool" where
  "less_closure_binding b c \<longleftrightarrow> binding_key b < binding_key c"

instance
proof
  fix a b c :: closure_binding
  show "a < b \<longleftrightarrow> a \<le> b \<and> \<not> b \<le> a"
    unfolding less_eq_closure_binding_def less_closure_binding_def by (rule less_le_not_le)
  show "a \<le> a" unfolding less_eq_closure_binding_def by (rule order_refl)
  show "a \<le> b \<Longrightarrow> b \<le> c \<Longrightarrow> a \<le> c" unfolding less_eq_closure_binding_def by (rule order_trans)
  show "a \<le> b \<Longrightarrow> b \<le> a \<Longrightarrow> a = b"
    unfolding less_eq_closure_binding_def by (metis binding_key_inj order_antisym)
  show "a \<le> b \<or> b \<le> a" unfolding less_eq_closure_binding_def by (rule linear)
qed

end

record resolution =
  res_status :: string
  res_desired :: "desired_fact list"
  res_producers :: "(string \<times> string) list"
  res_clarification :: "string list"
  res_gaps :: "string list"
  res_candidates :: "(string \<times> string list) list"
  res_closure :: "closure_binding list"
  res_closure_capabilities :: "string list"

text \<open>The part of a pinned release the planner reads.\<close>

record pinned_release =
  allowlist_fields :: "(string \<times> string list) list"
  pinned_operators :: "string list"
  operator_versions :: "(string \<times> json) list"
  semantic_snapshot_id :: string

section \<open>Producers\<close>

definition visible_read_card :: "(string \<times> json) list \<Rightarrow> capability_card \<Rightarrow> bool" where
  "visible_read_card raw c \<longleftrightarrow>
     (case map_of raw (card_id c) of None \<Rightarrow> False | Some definition \<Rightarrow> jget definition ''kind'' = JStr ''Function'')
     \<and> \<not> card_requires_approval (card_governance_of c) \<and> card_side_effect (card_governance_of c) = ''none''"

definition visible_read_cards :: "capability_card list \<Rightarrow> source_documents \<Rightarrow> capability_card list result" where
  "visible_read_cards cards docs =
     rbind (raw_capabilities docs) (\<lambda>raw. Inr (filter (visible_read_card raw) cards))"

definition producers_by_fact :: "capability_card list \<Rightarrow> (string \<times> capability_card list) list" where
  "producers_by_fact cards =
     map (\<lambda>(fact_type, producers). (fact_type, sort_key card_id producers))
       (group_by (concat (map (\<lambda>c. map (\<lambda>fact_type. (fact_type, c)) (card_produces c)) cards)))"

section \<open>Supplied values\<close>

definition supplied_map :: "goal_draft \<Rightarrow> (string \<times> string) list" where
  "supplied_map draft =
     fold (\<lambda>(k, v). setdefault k v)
       (concat (map (\<lambda>f. map (\<lambda>s. (selector_key s, selector_value s)) (selectors f)) (requested_facts draft))
        @ map (\<lambda>c. (tc_name c, tc_value c)) (draft_constraints draft)) []"

definition fact_supplied :: "requested_fact \<Rightarrow> goal_draft \<Rightarrow> (string \<times> string) list" where
  "fact_supplied requested draft =
     fold (\<lambda>(k, v). setdefault k v) (map (\<lambda>c. (tc_name c, tc_value c)) (draft_constraints draft))
       (dict_of (map (\<lambda>s. (selector_key s, selector_value s)) (selectors requested)))"

definition missing_required_values :: "requested_fact \<Rightarrow> goal_draft \<Rightarrow> capability_card \<Rightarrow> string list" where
  "missing_required_values requested draft c =
     map desc_name (filter (\<lambda>d. desc_required d \<and> desc_binding_kind d = ''identifier''
         \<and> (case desc_satisfiable_by d of None \<Rightarrow> True | Some f \<Rightarrow> f = [])
         \<and> map_of (fact_supplied requested draft) (desc_name d) = None) (card_inputs c))"

section \<open>Requested facts\<close>

datatype fact_outcome =
    No_Producer string
  | Ambiguous_Producer string "string list"
  | Illegal_Fields string "json list"
  | Missing_Values "string list"
  | Wanted desired_fact

text \<open>\<open>field in allowed\<close>, for a value of the draft: a list or a dictionary cannot be hashed.\<close>

definition field_allowed :: "string list \<Rightarrow> json \<Rightarrow> bool result" where
  "field_allowed allowed field =
     (case field of
        JStr s \<Rightarrow> Inr (s \<in> set allowed)
      | JList _ \<Rightarrow> Inl (TypeError ''unhashable type: list'')
      | JObj _ \<Rightarrow> Inl (TypeError ''unhashable type: dict'')
      | _ \<Rightarrow> Inr False)"

definition illegal_field :: "string list \<Rightarrow> json \<Rightarrow> json list result" where
  "illegal_field allowed field = rbind (field_allowed allowed field) (\<lambda>ok. Inr (if ok then [] else [field]))"

definition resolve_fact ::
    "pinned_release \<Rightarrow> (string \<times> capability_card list) list \<Rightarrow> goal_draft \<Rightarrow> requested_fact \<Rightarrow> fact_outcome result" where
  "resolve_fact pinned by_fact draft requested =
     (let fact_type = requested_fact_type requested in
      case group_get by_fact fact_type of
        [] \<Rightarrow> Inr (No_Producer fact_type)
      | [c] \<Rightarrow>
          rbind (collectM (illegal_field (group_get (allowlist_fields pinned) fact_type)) (requested_fields requested))
            (\<lambda>illegal.
              if illegal \<noteq> [] then Inr (Illegal_Fields fact_type illegal)
              else if missing_required_values requested draft c \<noteq> [] then
                Inr (Missing_Values (missing_required_values requested draft c))
              else Inr (Wanted \<lparr>desired_type = fact_type, desired_fields = requested_fields requested,
                     desired_producer = card_id c, desired_selectors = selectors requested\<rparr>))
      | cs \<Rightarrow> Inr (Ambiguous_Producer fact_type (map card_id cs)))"

fun outcome_gaps :: "fact_outcome \<Rightarrow> string list" where
  "outcome_gaps (No_Producer f) = [''NO_PRODUCER:'' @ f]"
| "outcome_gaps (Illegal_Fields f illegal) = map (\<lambda>n. ''FIELD_NOT_ALLOWLISTED:'' @ f @ ''.'' @ plain_str n) illegal"
| "outcome_gaps _ = []"

fun outcome_clarification :: "fact_outcome \<Rightarrow> string list" where
  "outcome_clarification (Ambiguous_Producer f ids) =
     [''AMBIGUOUS_PRODUCER:'' @ f @ '' candidates='' @ repr_list (map repr_str ids)]"
| "outcome_clarification (Missing_Values names) = map (\<lambda>n. ''MISSING_SELECTOR_VALUE:'' @ n) names"
| "outcome_clarification _ = []"

fun outcome_candidates :: "fact_outcome \<Rightarrow> (string \<times> string list) list" where
  "outcome_candidates (Ambiguous_Producer f ids) = [(f, ids)]"
| "outcome_candidates _ = []"

fun outcome_desired :: "fact_outcome \<Rightarrow> desired_fact list" where
  "outcome_desired (Wanted d) = [d]"
| "outcome_desired _ = []"

section \<open>The closure of the inputs\<close>

fun field_cardinality :: "string \<Rightarrow> json list \<Rightarrow> string option result" where
  "field_cardinality field_name [] = Inr None"
| "field_cardinality field_name (f # fs) =
     rbind (get_attr f ''name'' JNull) (\<lambda>n.
       if n = JStr field_name then Inr (Some (frozen_str (jget_default f ''cardinality'' (JStr ''one''))))
       else field_cardinality field_name fs)"

fun fact_cardinality :: "string \<Rightarrow> string \<Rightarrow> json list \<Rightarrow> string result" where
  "fact_cardinality fact_type field_name [] = Inr ''one''"
| "fact_cardinality fact_type field_name (ft # fts) =
     rbind (get_attr ft ''factTypeId'' JNull) (\<lambda>i.
       if i \<noteq> JStr fact_type then fact_cardinality fact_type field_name fts
       else rbind (get_attr ft ''fields'' (JList [])) (\<lambda>raw. rbind (py_iter raw) (\<lambda>fs.
         rbind (field_cardinality field_name fs) (\<lambda>found.
           case found of Some cardinality \<Rightarrow> Inr cardinality
           | None \<Rightarrow> fact_cardinality fact_type field_name fts))))"

definition fact_field_cardinality :: "source_documents \<Rightarrow> string \<Rightarrow> string \<Rightarrow> string result" where
  "fact_field_cardinality docs fact_type field_name =
     rbind (get_attr (fact_types_doc docs) ''factTypes'' (JList [])) (\<lambda>raw. rbind (py_iter raw)
       (fact_cardinality fact_type field_name))"

datatype edge_outcome = Skip | Note string | Bind closure_binding

definition edge_outcome_of ::
    "source_documents \<Rightarrow> (string \<times> capability_card list) list \<Rightarrow> (string \<times> string) list \<Rightarrow> capability_card
     \<Rightarrow> derived_edge \<Rightarrow> edge_outcome result" where
  "edge_outcome_of docs by_fact supplied consumer e =
     (case find (\<lambda>d. desc_name d = edge_input e) (card_inputs consumer) of
        None \<Rightarrow> Inr Skip
      | Some d \<Rightarrow>
          (if \<not> desc_required d \<or> map_of supplied (edge_input e) \<noteq> None then Inr Skip
           else rbind (fact_field_cardinality docs (edge_fact_type e) (edge_field e)) (\<lambda>cardinality.
             if cardinality = ''many'' then
               Inr (Note (''NEEDS_REDUCTION:'' @ edge_fact_type e @ ''.'' @ edge_field e
                 @ '' for '' @ edge_consumer e @ ''.'' @ edge_input e))
             else (case group_get by_fact (edge_fact_type e) of
                 [p] \<Rightarrow> Inr (Bind (ClosureBinding (edge_consumer e) (edge_input e) (card_id p) (edge_fact_type e) (edge_field e)))
               | _ \<Rightarrow> Inr (Note (''MISSING_SELECTOR_VALUE:'' @ edge_input e))))))"

text \<open>What the body of the loop finds for one consumer: nothing, if it has no visible card.\<close>

definition consumer_outcomes ::
    "source_documents \<Rightarrow> derived_view \<Rightarrow> capability_card list \<Rightarrow> (string \<times> capability_card list) list
     \<Rightarrow> (string \<times> string) list \<Rightarrow> string \<Rightarrow> edge_outcome list result" where
  "consumer_outcomes docs view visible by_fact supplied consumer_id =
     (case map_of (dict_of (map (\<lambda>c. (card_id c, c)) visible)) consumer_id of
        None \<Rightarrow> Inr []
      | Some consumer \<Rightarrow>
          mapM (edge_outcome_of docs by_fact supplied consumer)
            (filter (\<lambda>e. edge_consumer e = consumer_id) (view_edges view)))"

text \<open>The worklist is a stack: \<open>append\<close> and \<open>pop\<close> work at its head.\<close>

record closure_state =
  worklist :: "string list"
  planned :: "string list"
  bindings :: "closure_binding list"
  auto_pulled :: "string list"
  closure_notes :: "string list"

fun apply_outcome :: "edge_outcome \<Rightarrow> closure_state \<Rightarrow> closure_state" where
  "apply_outcome Skip s = s"
| "apply_outcome (Note n) s = s\<lparr>closure_notes := closure_notes s @ [n]\<rparr>"
| "apply_outcome (Bind b) s =
     (let bound = s\<lparr>bindings := List.insert b (bindings s)\<rparr> in
      if bound_producer b \<in> set (planned s) then bound
      else bound\<lparr>auto_pulled := bound_producer b # auto_pulled s, planned := bound_producer b # planned s,
                 worklist := bound_producer b # worklist s\<rparr>)"

text \<open>\<open>None\<close> if the loop never ended.\<close>

partial_function (option) close_loop ::
    "(string \<Rightarrow> edge_outcome list result) \<Rightarrow> closure_state \<Rightarrow> closure_state result option" where
  "close_loop outcomes s =
     (case worklist s of
        [] \<Rightarrow> Some (Inr s)
      | consumer_id # rest \<Rightarrow>
          (case outcomes consumer_id of
             Inl e \<Rightarrow> Some (Inl e)
           | Inr os \<Rightarrow> close_loop outcomes (fold apply_outcome os (s\<lparr>worklist := rest\<rparr>))))"

declare close_loop.simps [code]

definition reduction_note :: "diagnostic \<Rightarrow> string" where
  "reduction_note d = ''NEEDS_REDUCTION:'' @ diag_fact_type d @ ''.'' @ diag_input d @ '' for '' @ diag_consumer d"

definition closure_start :: "(string list \<Rightarrow> string list) \<Rightarrow> derived_view \<Rightarrow> desired_fact list \<Rightarrow> closure_state" where
  "closure_start set_order view desired =
     (let ids = remdups (map desired_producer desired) in
      \<lparr>worklist = rev (set_order ids), planned = ids, bindings = [], auto_pulled = [],
       closure_notes = map reduction_note
         (filter (\<lambda>d. diag_consumer d \<in> set ids \<and> diag_kind d = ''needsReduction'') (view_diagnostics view))\<rparr>)"

definition close_inputs ::
    "(string list \<Rightarrow> string list) \<Rightarrow> source_documents \<Rightarrow> capability_card list \<Rightarrow> desired_fact list
     \<Rightarrow> (string \<times> capability_card list) list \<Rightarrow> (string \<times> string) list \<Rightarrow> closure_state result option" where
  "close_inputs set_order docs visible desired by_fact supplied =
     (case derive_data_dependencies docs of
        Inl e \<Rightarrow> Some (Inl e)
      | Inr view \<Rightarrow> close_loop (consumer_outcomes docs view visible by_fact supplied) (closure_start set_order view desired))"

section \<open>The resolution\<close>

definition overall_status :: "string list \<Rightarrow> string list \<Rightarrow> string" where
  "overall_status gaps clarification =
     (if \<exists>g \<in> set gaps. starts_with ''NO_PRODUCER'' g then ''capability_gap''
      else if \<exists>g \<in> set gaps. starts_with ''FIELD_NOT_ALLOWLISTED'' g then ''semantic_gap''
      else if clarification \<noteq> [] then ''clarification''
      else ''complete'')"

definition resolution_of :: "fact_outcome list \<Rightarrow> closure_state \<Rightarrow> resolution" where
  "resolution_of outcomes closed =
     (let gaps = concat (map outcome_gaps outcomes);
          clarification = concat (map outcome_clarification outcomes) @ closure_notes closed;
          desired = concat (map outcome_desired outcomes) in
      \<lparr>res_status = overall_status gaps clarification, res_desired = desired,
       res_producers = sort_key fst (dict_of (map (\<lambda>d. (desired_type d, desired_producer d)) desired)),
       res_clarification = clarification, res_gaps = gaps,
       res_candidates = sort_key fst (dict_of (concat (map outcome_candidates outcomes))),
       res_closure = sorted_set (bindings closed), res_closure_capabilities = sorted_set (auto_pulled closed)\<rparr>)"

definition resolve ::
    "(string list \<Rightarrow> string list) \<Rightarrow> goal_draft \<Rightarrow> pinned_release \<Rightarrow> source_documents \<Rightarrow> registry_snapshot
     \<Rightarrow> resolution result option" where
  "resolve set_order draft pinned docs snapshot =
     (case rbind (discover_cards snapshot docs) (\<lambda>cards. visible_read_cards cards docs) of
        Inl e \<Rightarrow> Some (Inl e)
      | Inr visible \<Rightarrow>
          (let by_fact = producers_by_fact visible in
           case mapM (resolve_fact pinned by_fact draft) (requested_facts draft) of
             Inl e \<Rightarrow> Some (Inl e)
           | Inr outcomes \<Rightarrow>
               map_option (map_sum id (resolution_of outcomes))
                 (close_inputs set_order docs visible (concat (map outcome_desired outcomes)) by_fact (supplied_map draft))))"

end
