(* ===== verification/Plan_Validation.thy ===== *)
theory Plan_Validation
  imports Contract_Build
begin

text \<open>
  The plan graph and its validators: \<open>validate_plan_graph\<close> of \<open>semantic_planning/validation.py\<close>
  and \<open>validate_plan_graph_v2\<close> of \<open>semantic_planning/validation_v2.py\<close>, behind the schema stage.
  The records have the fields \<open>schemas/plan-graph-v2.schema.json\<close> requires; version 1 plans have
  no partitions and no references.

  Each \<open>_validate_*\<close> function is a definition that returns the issues it appends.
\<close>

section \<open>Plans\<close>

datatype parameter_source =
    GoalConstraint string
  | Literal string json
  | FactField string string string
  | RegisteredDefault string string json

record parameter_binding =
  parameter_name :: string
  binding_source :: parameter_source

record plan_node =
  node_id :: string
  node_capability :: string
  parameter_bindings :: "parameter_binding list"
  produces_fact_types :: "string list"
  capability_kind :: string
  node_governance :: governance

datatype plan_edge =
    DataEdge (edge_id: string) (from_node: string) (to_node: string) (data_fact_type: string)
  | DependencyEdge (edge_id: string) (from_node: string) (to_node: string)

record goal_output =
  output_fact_type :: string
  output_producer :: string

record plan_graph =
  plan_id :: string
  plan_goal_id :: string
  plan_execution_mode :: string
  plan_snapshot_id :: string
  plan_nodes :: "plan_node list"
  plan_edges :: "plan_edge list"
  topological_order :: "string list"
  goal_outputs :: "goal_output list"

record plan_graph_v2 = plan_graph +
  read_partition :: "string list"
  action_partition :: "string list"
  projection_ref :: "string list"
  ruleset_refs :: "string list"

section \<open>Stable ids, snapshot and goal identity\<close>

fun duplicate_ids_from :: "string \<Rightarrow> string \<Rightarrow> nat \<Rightarrow> string list \<Rightarrow> string list \<Rightarrow> issue list" where
  "duplicate_ids_from collection id_field index seen [] = []"
| "duplicate_ids_from collection id_field index seen (i # is) =
     (if i \<in> set seen then
        ValidationIssue (''/'' @ collection @ ''/'' @ string_of_nat index @ ''/'' @ id_field) ''DUPLICATE_ID''
          (''duplicate '' @ id_field @ '': '' @ i)
        # duplicate_ids_from collection id_field (Suc index) seen is
      else duplicate_ids_from collection id_field (Suc index) (i # seen) is)"

definition validate_plan_stable_ids :: "'a plan_graph_scheme \<Rightarrow> issue list" where
  "validate_plan_stable_ids plan =
     duplicate_ids_from ''nodes'' ''nodeId'' 0 [] (map node_id (plan_nodes plan))
     @ duplicate_ids_from ''edges'' ''edgeId'' 0 [] (map edge_id (plan_edges plan))"

definition validate_snapshot_and_goal_identity ::
    "registry_snapshot \<Rightarrow> goal_spec \<Rightarrow> 'a plan_graph_scheme \<Rightarrow> issue list" where
  "validate_snapshot_and_goal_identity snapshot goal plan =
     (if plan_snapshot_id plan \<noteq> snapshot_id snapshot then
        [ValidationIssue ''/snapshotId'' ''SNAPSHOT_MISMATCH'' ''plan snapshotId does not match RegistrySnapshot'']
      else [])
     @ (if plan_goal_id plan \<noteq> goal_id goal then
          [ValidationIssue ''/goalId'' ''PLAN_PROJECTION_MISMATCH'' ''plan goalId does not match GoalSpec'']
        else [])
     @ (if plan_execution_mode plan \<noteq> execution_mode goal then
          [ValidationIssue ''/executionMode'' ''PLAN_PROJECTION_MISMATCH'' ''plan executionMode does not match GoalSpec'']
        else [])"

section \<open>Nodes and projections\<close>

type_synonym node_entry = "nat \<times> plan_node \<times> capability"
type_synonym node_index = "(string \<times> node_entry) list"

definition output_facts :: "capability \<Rightarrow> string list" where
  "output_facts cap = concat (map (\<lambda>out. case fact_type_ref out of Some f \<Rightarrow> [f] | None \<Rightarrow> []) (cap_outputs cap))"

definition node_path :: "nat \<Rightarrow> string \<Rightarrow> string" where
  "node_path index field = at_index ''/nodes'' index @ ''/'' @ field"

definition node_projection_issues :: "node_entry \<Rightarrow> issue list" where
  "node_projection_issues = (\<lambda>(index, node, cap).
     (if sort (produces_fact_types node) \<noteq> sorted_set (output_facts cap) then
        [ValidationIssue (node_path index ''producesFactTypes'') ''PLAN_PROJECTION_MISMATCH''
           ''producesFactTypes does not match Registry projection'']
      else [])
     @ (if capability_kind node \<noteq> cap_kind cap \<or> node_governance node \<noteq> cap_governance cap then
          [ValidationIssue (node_path index ''governance'') ''PLAN_PROJECTION_MISMATCH''
             ''governance does not match Registry projection'']
        else []))"

definition known_entries :: "typed_graph \<Rightarrow> 'a plan_graph_scheme \<Rightarrow> (string \<times> node_entry) list" where
  "known_entries g plan =
     concat (map (\<lambda>(index, node). case map_of (capability_table g) (node_capability node) of
                    None \<Rightarrow> [] | Some cap \<Rightarrow> [(node_id node, index, node, cap)])
            (enumerate_list (plan_nodes plan)))"

definition node_index_of :: "typed_graph \<Rightarrow> 'a plan_graph_scheme \<Rightarrow> node_index" where
  "node_index_of g plan = dict_of (known_entries g plan)"

definition node_issues :: "typed_graph \<Rightarrow> nat \<times> plan_node \<Rightarrow> issue list" where
  "node_issues g = (\<lambda>(index, node).
     (case map_of (capability_table g) (node_capability node) of
        None \<Rightarrow> [ValidationIssue (node_path index ''capabilityId'') ''UNKNOWN_CAPABILITY''
                   (''capability is not registered: '' @ node_capability node)]
      | Some cap \<Rightarrow> node_projection_issues (index, node, cap)))"

definition validate_nodes_and_projections :: "typed_graph \<Rightarrow> 'a plan_graph_scheme \<Rightarrow> issue list \<times> node_index" where
  "validate_nodes_and_projections g plan =
     (concat (map (node_issues g) (enumerate_list (plan_nodes plan))), node_index_of g plan)"

section \<open>Parameter sources\<close>

definition source_path_at :: "nat \<Rightarrow> nat \<Rightarrow> string" where
  "source_path_at node_position binding_index =
     at_index (node_path node_position ''parameterBindings'') binding_index @ ''/source''"

definition validate_parameter_source ::
    "nat \<Rightarrow> nat \<Rightarrow> input_field \<Rightarrow> parameter_source \<Rightarrow> (string \<times> goal_constraint) list \<Rightarrow> node_index
     \<Rightarrow> issue list result" where
  "validate_parameter_source node_position binding_index input source constraint_table index =
     (let base_path = source_path_at node_position binding_index in
      case source of
        GoalConstraint name \<Rightarrow>
          Inr (if binding_kind input \<noteq> ''identifier''
                  \<or> (case map_of constraint_table name of
                       None \<Rightarrow> True | Some c \<Rightarrow> constraint_semantic_type c \<noteq> input_semantic_type input)
               then [ValidationIssue (base_path @ ''/constraintName'') ''PARAMETER_SOURCE_MISSING''
                       ''goal constraint cannot satisfy parameter semantic type'']
               else [])
      | Literal semantic_type value \<Rightarrow>
          Inr (if binding_kind input \<noteq> ''identifier'' \<or> semantic_type \<noteq> input_semantic_type input
               then [ValidationIssue (base_path @ ''/semanticType'') ''PARAMETER_SOURCE_MISSING''
                       ''literal cannot satisfy parameter semantic type'']
               else [])
      | FactField producer_node fact_type_id field \<Rightarrow>
          Inr (if satisfiable_by input \<noteq> Some fact_type_id \<or> satisfiable_by input = Some [] then
                 [ValidationIssue (base_path @ ''/factTypeId'') ''FACT_TYPE_MISMATCH''
                    ''fact source cannot satisfy parameter Fact Type'']
               else (case map_of index producer_node of
                       None \<Rightarrow> [ValidationIssue (base_path @ ''/producerNodeId'') ''FACT_TYPE_MISMATCH''
                                  ''fact producer node is not valid'']
                     | Some (_, _, producer_capability) \<Rightarrow>
                         if \<exists>out \<in> set (cap_outputs producer_capability).
                              output_name out = field \<and> fact_type_ref out = Some fact_type_id
                         then []
                         else [ValidationIssue (base_path @ ''/field'') ''FACT_TYPE_MISMATCH''
                                 ''field is not published for the declared producer Fact Type'']))
      | RegisteredDefault name semantic_type value \<Rightarrow> Inl (KeyError ''producerNodeId''))"

definition validate_registered_default_source :: "nat \<Rightarrow> nat \<Rightarrow> input_field \<Rightarrow> string \<Rightarrow> issue list" where
  "validate_registered_default_source node_position binding_index input semantic_type =
     (let base_path = source_path_at node_position binding_index in
      (if semantic_type \<noteq> input_semantic_type input then
         [ValidationIssue (base_path @ ''/semanticType'') ''PARAMETER_SOURCE_MISSING''
            ''registeredDefault semanticType does not match parameter'']
       else [])
      @ [ValidationIssue base_path ''RESERVED_SOURCE_NOT_AUTHORED''
           ''registeredDefault source is reserved and not authored this phase''])"

definition validate_parameter_source_v2 ::
    "nat \<Rightarrow> nat \<Rightarrow> input_field \<Rightarrow> parameter_source \<Rightarrow> (string \<times> goal_constraint) list \<Rightarrow> node_index
     \<Rightarrow> issue list result" where
  "validate_parameter_source_v2 node_position binding_index input source constraint_table index =
     (case source of
        RegisteredDefault name semantic_type value \<Rightarrow>
          Inr (validate_registered_default_source node_position binding_index input semantic_type)
      | _ \<Rightarrow> validate_parameter_source node_position binding_index input source constraint_table index)"

type_synonym source_check =
  "nat \<Rightarrow> nat \<Rightarrow> input_field \<Rightarrow> parameter_source \<Rightarrow> (string \<times> goal_constraint) list \<Rightarrow> node_index \<Rightarrow> issue list result"

definition node_inputs :: "capability \<Rightarrow> (string \<times> input_field) list" where
  "node_inputs cap = dict_of (map (\<lambda>item. (input_name item, item)) (cap_inputs cap))"

definition registered_bindings :: "node_entry \<Rightarrow> (string \<times> (nat \<times> parameter_binding) list) list" where
  "registered_bindings = (\<lambda>(_, node, cap).
     group_by (map (\<lambda>(i, b). (parameter_name b, (i, b)))
       (filter (\<lambda>(i, b). map_of (node_inputs cap) (parameter_name b) \<noteq> None)
          (enumerate_list (parameter_bindings node)))))"

definition unregistered_binding_issues :: "node_entry \<Rightarrow> issue list" where
  "unregistered_binding_issues = (\<lambda>(node_position, node, cap).
     concat (map (\<lambda>(i, b).
       if map_of (node_inputs cap) (parameter_name b) = None then
         [ValidationIssue (at_index (node_path node_position ''parameterBindings'') i @ ''/parameterName'')
            ''PLAN_PROJECTION_MISMATCH'' (''parameter is not registered: '' @ parameter_name b)]
       else []) (enumerate_list (parameter_bindings node))))"

definition input_binding_issues ::
    "source_check \<Rightarrow> (string \<times> goal_constraint) list \<Rightarrow> node_index \<Rightarrow> node_entry \<Rightarrow> string \<times> input_field \<Rightarrow> issue list result" where
  "input_binding_issues check constraint_table index entry = (\<lambda>(name, input).
     (case entry of (node_position, node, cap) \<Rightarrow>
        (let matches = group_get (registered_bindings entry) name;
             base = node_path node_position ''parameterBindings'';
             missing = (if input_required input \<and> matches = [] then
                          [ValidationIssue base ''PARAMETER_SOURCE_MISSING''
                             (''required parameter has no source: '' @ name)]
                        else []);
             duplicates = map (\<lambda>(i, _). ValidationIssue (at_index base i @ ''/parameterName'')
                                ''PARAMETER_SOURCE_DUPLICATE'' (''parameter has multiple sources: '' @ name)) (tl matches)
         in case matches of
              [(binding_index, binding)] \<Rightarrow>
                rbind (check node_position binding_index input (binding_source binding) constraint_table index)
                  (\<lambda>found. Inr (missing @ duplicates @ found))
            | _ \<Rightarrow> Inr (missing @ duplicates))))"

definition node_parameter_issues ::
    "source_check \<Rightarrow> (string \<times> goal_constraint) list \<Rightarrow> node_index \<Rightarrow> node_entry \<Rightarrow> issue list result" where
  "node_parameter_issues check constraint_table index = (\<lambda>(node_position, node, cap).
     append_results (Inr (unregistered_binding_issues (node_position, node, cap)))
       (collectM (input_binding_issues check constraint_table index (node_position, node, cap)) (node_inputs cap)))"

definition sorted_entries :: "node_index \<Rightarrow> node_entry list" where
  "sorted_entries index = map snd (sort_key fst index)"

definition constraint_table_of :: "goal_spec \<Rightarrow> (string \<times> goal_constraint) list" where
  "constraint_table_of goal = dict_of (map (\<lambda>c. (constraint_name c, c)) (constraints goal))"

definition validate_parameter_sources_with :: "source_check \<Rightarrow> goal_spec \<Rightarrow> node_index \<Rightarrow> issue list result" where
  "validate_parameter_sources_with check goal index =
     collectM (node_parameter_issues check (constraint_table_of goal) index) (sorted_entries index)"

definition validate_parameter_sources :: "goal_spec \<Rightarrow> node_index \<Rightarrow> issue list result" where
  "validate_parameter_sources = validate_parameter_sources_with validate_parameter_source"

definition validate_parameter_sources_v2 :: "goal_spec \<Rightarrow> node_index \<Rightarrow> issue list result" where
  "validate_parameter_sources_v2 = validate_parameter_sources_with validate_parameter_source_v2"

section \<open>Edges\<close>

type_synonym data_key = "string \<times> string \<times> string"

definition fact_source_entry :: "string \<Rightarrow> nat \<Rightarrow> nat \<times> parameter_binding \<Rightarrow> (data_key \<times> string) list" where
  "fact_source_entry consumer node_position = (\<lambda>(i, b).
     (case binding_source b of
        FactField producer fact_type_id field \<Rightarrow>
          [((producer, consumer, fact_type_id), source_path_at node_position i)]
      | _ \<Rightarrow> []))"

definition expected_data :: "node_index \<Rightarrow> (data_key \<times> string list) list" where
  "expected_data index =
     group_by (concat (map (\<lambda>(consumer, node_position, node, _).
       concat (map (fact_source_entry consumer node_position) (enumerate_list (parameter_bindings node)))) index))"

definition data_edge_table :: "'a plan_graph_scheme \<Rightarrow> (data_key \<times> nat list) list" where
  "data_edge_table plan =
     group_by (concat (map (\<lambda>(i, e). case e of
         DataEdge _ source target fact_type_id \<Rightarrow> [((source, target, fact_type_id), i)]
       | DependencyEdge _ _ _ \<Rightarrow> []) (enumerate_list (plan_edges plan))))"

definition dependency_edge_table :: "'a plan_graph_scheme \<Rightarrow> ((string \<times> string) \<times> nat list) list" where
  "dependency_edge_table plan =
     group_by (concat (map (\<lambda>(i, e). case e of
         DataEdge _ _ _ _ \<Rightarrow> []
       | DependencyEdge _ source target \<Rightarrow> [((source, target), i)]) (enumerate_list (plan_edges plan))))"

definition edge_issue :: "string \<Rightarrow> string \<Rightarrow> issue" where
  "edge_issue path message = ValidationIssue path ''EDGE_INCONSISTENT'' message"

definition missing_data_edges :: "node_index \<Rightarrow> 'a plan_graph_scheme \<Rightarrow> issue list" where
  "missing_data_edges index plan =
     concat (map (\<lambda>(key, source_paths).
       if group_get (data_edge_table plan) key = [] then
         map (\<lambda>p. edge_issue p ''factField source must have exactly one matching data edge'') source_paths
       else []) (expected_data index))"

definition unexpected_data_edges :: "node_index \<Rightarrow> 'a plan_graph_scheme \<Rightarrow> issue list" where
  "unexpected_data_edges index plan =
     concat (map (\<lambda>(key, edge_indexes).
       if map_of (expected_data index) key = None then
         map (\<lambda>i. edge_issue (at_index ''/edges'' i) ''data edge must have at least one matching factField source'') edge_indexes
       else map (\<lambda>i. edge_issue (at_index ''/edges'' i) ''duplicate semantic data edge'') (tl edge_indexes))
       (data_edge_table plan))"

definition nodes_by_capability :: "node_index \<Rightarrow> (string \<times> string list) list" where
  "nodes_by_capability index = group_by (map (\<lambda>(i, _, _, cap). (capability_id cap, i)) index)"

definition authored_dependency_edges :: "typed_graph \<Rightarrow> semantic_edge list" where
  "authored_dependency_edges g = filter (\<lambda>e. relation_type e = ''dependsOn'') (edge_table g)"

definition absent_prerequisites :: "typed_graph \<Rightarrow> node_index \<Rightarrow> issue list" where
  "absent_prerequisites g index =
     concat (map (\<lambda>e.
       if group_get (nodes_by_capability index) (source_id e) \<noteq> []
          \<and> group_get (nodes_by_capability index) (target_id e) = [] then
         [edge_issue ''/edges'' (''authored dependency prerequisite is absent: '' @ target_id e)]
       else []) (authored_dependency_edges g))"

definition expected_dependencies :: "typed_graph \<Rightarrow> node_index \<Rightarrow> (string \<times> string) list" where
  "expected_dependencies g index =
     concat (map (\<lambda>e. concat (map (\<lambda>dependent. map (\<lambda>prerequisite. (prerequisite, dependent))
                 (group_get (nodes_by_capability index) (target_id e)))
               (group_get (nodes_by_capability index) (source_id e)))) (authored_dependency_edges g))"

definition missing_dependency_edges :: "typed_graph \<Rightarrow> node_index \<Rightarrow> 'a plan_graph_scheme \<Rightarrow> issue list" where
  "missing_dependency_edges g index plan =
     concat (map (\<lambda>d. if length (group_get (dependency_edge_table plan) d) \<noteq> 1 then
         [edge_issue ''/edges'' ''authored dependency requires one prerequisite-to-dependent edge'']
       else []) (sorted_set (expected_dependencies g index)))"

definition unexpected_dependency_edges :: "typed_graph \<Rightarrow> node_index \<Rightarrow> 'a plan_graph_scheme \<Rightarrow> issue list" where
  "unexpected_dependency_edges g index plan =
     concat (map (\<lambda>(d, edge_indexes).
       if d \<notin> set (expected_dependencies g index) \<or> length edge_indexes \<noteq> 1 then
         map (\<lambda>i. edge_issue (at_index ''/edges'' i) ''dependency edge does not match authored dependsOn relation'') edge_indexes
       else []) (dependency_edge_table plan))"

definition plan_adjacency :: "node_index \<Rightarrow> 'a plan_graph_scheme \<Rightarrow> (string \<times> (string \<times> nat) list) list" where
  "plan_adjacency index plan =
     group_by (concat (map (\<lambda>(i, e).
       if map_of index (from_node e) \<noteq> None \<and> map_of index (to_node e) \<noteq> None
       then [(from_node e, (to_node e, i))] else []) (enumerate_list (plan_edges plan))))"

definition plan_successors :: "node_index \<Rightarrow> 'a plan_graph_scheme \<Rightarrow> string \<Rightarrow> (string \<times> nat) list" where
  "plan_successors index plan i = sort (group_get (plan_adjacency index plan) i)"

definition plan_cycle_issue :: "string list \<Rightarrow> nat \<Rightarrow> issue" where
  "plan_cycle_issue cycle i =
     ValidationIssue (at_index ''/edges'' i @ ''/toNodeId'') ''DEPENDENCY_CYCLE''
       (''plan edge cycle detected: '' @ join '' -> '' cycle)"

text \<open>\<open>None\<close> if the loop never ended.\<close>

definition validate_plan_edge_cycles :: "node_index \<Rightarrow> 'a plan_graph_scheme \<Rightarrow> issue list result option" where
  "validate_plan_edge_cycles index plan =
     (case frames_roots (plan_successors index plan) plan_cycle_issue (sort (map fst index)) dfs_start [] of
        None \<Rightarrow> None
      | Some (Inl e) \<Rightarrow> Some (Inl e)
      | Some (Inr (_, issues)) \<Rightarrow> Some (Inr issues))"

definition edge_consistency_issues :: "typed_graph \<Rightarrow> node_index \<Rightarrow> 'a plan_graph_scheme \<Rightarrow> issue list" where
  "edge_consistency_issues g index plan =
     missing_data_edges index plan @ unexpected_data_edges index plan @ absent_prerequisites g index
     @ missing_dependency_edges g index plan @ unexpected_dependency_edges g index plan"

definition validate_edges :: "typed_graph \<Rightarrow> node_index \<Rightarrow> 'a plan_graph_scheme \<Rightarrow> issue list result option" where
  "validate_edges g index plan =
     map_option (append_results (Inr (edge_consistency_issues g index plan))) (validate_plan_edge_cycles index plan)"

section \<open>Order, governance, outputs\<close>

definition order_positions :: "string list \<Rightarrow> (string \<times> nat) list" where
  "order_positions order = dict_of (map (\<lambda>(i, n). (n, i)) (enumerate_list order))"

definition edge_violates_order :: "string list \<Rightarrow> plan_edge \<Rightarrow> bool" where
  "edge_violates_order order e \<longleftrightarrow>
     (case map_of (order_positions order) (from_node e) of None \<Rightarrow> int (length order) | Some i \<Rightarrow> int i)
       \<ge> (case map_of (order_positions order) (to_node e) of None \<Rightarrow> - 1 | Some j \<Rightarrow> int j)"

definition validate_topological_order :: "node_index \<Rightarrow> 'a plan_graph_scheme \<Rightarrow> issue list" where
  "validate_topological_order index plan =
     (let order = topological_order plan in
      if length order \<noteq> length index \<or> set order \<noteq> set (map fst index) then
        [ValidationIssue ''/topologicalOrder'' ''PLAN_PROJECTION_MISMATCH''
           ''topologicalOrder must cover every valid plan node exactly once'']
      else if \<exists>e \<in> set (plan_edges plan). edge_violates_order order e then
        [ValidationIssue ''/topologicalOrder'' ''EDGE_INCONSISTENT'' ''topologicalOrder violates a plan edge direction'']
      else [])"

definition validate_plan_governance :: "goal_spec \<Rightarrow> node_index \<Rightarrow> issue list" where
  "validate_plan_governance goal index =
     (if execution_mode goal \<noteq> ''READ_ONLY'' then []
      else concat (map (\<lambda>(node_position, _, cap).
             if \<not> is_read_only cap then
               [ValidationIssue (node_path node_position ''governance'') ''GOVERNANCE_VIOLATION''
                  ''READ_ONLY plan contains a non-read-only capability'']
             else []) (sorted_entries index)))"

definition outputs_by_fact :: "'a plan_graph_scheme \<Rightarrow> (string \<times> (nat \<times> goal_output) list) list" where
  "outputs_by_fact plan = group_by (map (\<lambda>(i, out). (output_fact_type out, (i, out))) (enumerate_list (goal_outputs plan)))"

definition desired_output_issues :: "node_index \<Rightarrow> 'a plan_graph_scheme \<Rightarrow> string \<Rightarrow> issue list" where
  "desired_output_issues index plan fact_type_id =
     (case group_get (outputs_by_fact plan) fact_type_id of
        [(i, out)] \<Rightarrow>
          (if (case map_of index (output_producer out) of
                 None \<Rightarrow> True | Some (_, node, _) \<Rightarrow> fact_type_id \<notin> set (produces_fact_types node))
           then [ValidationIssue (at_index ''/goalOutputs'' i @ ''/producerNodeId'') ''GOAL_OUTPUT_UNSATISFIED''
                   ''producer node does not project the desired Fact Type'']
           else [])
      | _ \<Rightarrow> [ValidationIssue ''/goalOutputs'' ''GOAL_OUTPUT_UNSATISFIED''
                (''desired Fact Type requires exactly one producer: '' @ fact_type_id)])"

definition validate_goal_outputs :: "goal_spec \<Rightarrow> node_index \<Rightarrow> 'a plan_graph_scheme \<Rightarrow> issue list" where
  "validate_goal_outputs goal index plan =
     concat (map (\<lambda>(i, out). if output_fact_type out \<notin> set (desired_fact_types goal) then
         [ValidationIssue (at_index ''/goalOutputs'' i @ ''/factTypeId'') ''GOAL_OUTPUT_UNSATISFIED''
            ''goal output is not requested by GoalSpec'']
       else []) (enumerate_list (goal_outputs plan)))
     @ concat (map (desired_output_issues index plan) (sorted_set (desired_fact_types goal)))"

section \<open>Partitions and references of version 2\<close>

definition node_read_only :: "plan_node \<Rightarrow> bool" where
  "node_read_only node \<longleftrightarrow>
     capability_kind node = ''Function'' \<and> side_effect (node_governance node) = ''none''
     \<and> \<not> requires_approval (node_governance node) \<and> approval_policy (node_governance node) = ''not_required''"

definition validate_partitions :: "node_index \<Rightarrow> 'a plan_graph_v2_scheme \<Rightarrow> issue list" where
  "validate_partitions index plan =
     (let reads = read_partition plan; actions = action_partition plan in
      (if set reads \<union> set actions \<noteq> set (map fst index) then
         [ValidationIssue ''/readPartition'' ''PARTITION_COVERAGE''
            (''readPartition '' @ [CHR 0xE2, CHR 0x88, CHR 0xAA] @ '' actionPartition must equal all node ids'')]
       else [])
      @ (if set reads \<inter> set actions \<noteq> {} then
           [ValidationIssue ''/actionPartition'' ''PARTITION_OVERLAP''
              (''readPartition '' @ [CHR 0xE2, CHR 0x88, CHR 0xA9] @ '' actionPartition must be empty'')]
         else [])
      @ concat (map (\<lambda>i. case map_of index i of
           None \<Rightarrow> []
         | Some (_, node, _) \<Rightarrow>
             if \<not> node_read_only node then
               [ValidationIssue ''/readPartition'' ''PARTITION_GOVERNANCE_VIOLATION''
                  (''non-read-only node in readPartition: '' @ i)]
             else []) reads))"

definition ref_issues :: "string \<Rightarrow> string \<Rightarrow> string list \<Rightarrow> issue list" where
  "ref_issues field_name code refs =
     map (\<lambda>(i, ref). ValidationIssue (at_index (''/'' @ field_name) i) code
            (field_name @ '' references entity not present in snapshot: '' @ ref)) (enumerate_list refs)"

definition validate_refs :: "'a plan_graph_v2_scheme \<Rightarrow> issue list" where
  "validate_refs plan =
     ref_issues ''projectionRef'' ''UNKNOWN_PROJECTION_REF'' (projection_ref plan)
     @ ref_issues ''ruleSetRefs'' ''UNKNOWN_RULESET_REF'' (ruleset_refs plan)"

section \<open>The validators\<close>

definition plan_report :: "issue list \<Rightarrow> validation_report" where
  "plan_report issues =
     (let ordered = canonical_issues issues in \<lparr>report_valid = (ordered = []), report_issues = ordered\<rparr>)"

text \<open>
  The shape issues a plan already has, from the schema stage, are the argument \<open>shape_issues\<close>;
  duplicate ids are added to them.
\<close>

definition validate_plan_graph ::
    "typed_graph \<Rightarrow> registry_snapshot \<Rightarrow> goal_spec \<Rightarrow> issue list \<Rightarrow> plan_graph \<Rightarrow> validation_report result option" where
  "validate_plan_graph g snapshot goal shape_issues plan =
     (let shape = shape_issues @ validate_plan_stable_ids plan in
      if shape \<noteq> [] then Some (Inr \<lparr>report_valid = False, report_issues = canonical_issues shape\<rparr>)
      else (case validate_nodes_and_projections g plan of (node_found, index) \<Rightarrow>
        map_option (\<lambda>edges_found.
          rbind (validate_parameter_sources goal index) (\<lambda>sources_found.
            rbind edges_found (\<lambda>edge_issues.
              Inr (plan_report (validate_snapshot_and_goal_identity snapshot goal plan @ node_found @ sources_found
                @ edge_issues @ validate_topological_order index plan @ validate_plan_governance goal index
                @ validate_goal_outputs goal index plan)))))
          (validate_edges g index plan)))"

definition validate_plan_graph_v2 ::
    "typed_graph \<Rightarrow> registry_snapshot \<Rightarrow> goal_spec \<Rightarrow> issue list \<Rightarrow> plan_graph_v2 \<Rightarrow> validation_report result option" where
  "validate_plan_graph_v2 g snapshot goal shape_issues plan =
     (let shape = shape_issues @ validate_plan_stable_ids plan in
      if shape \<noteq> [] then Some (Inr \<lparr>report_valid = False, report_issues = canonical_issues shape\<rparr>)
      else (case validate_nodes_and_projections g plan of (node_found, index) \<Rightarrow>
        map_option (\<lambda>edges_found.
          rbind (validate_parameter_sources_v2 goal index) (\<lambda>sources_found.
            rbind edges_found (\<lambda>edge_issues.
              Inr (plan_report (validate_snapshot_and_goal_identity snapshot goal plan @ node_found @ sources_found
                @ edge_issues @ validate_topological_order index plan @ validate_plan_governance goal index
                @ validate_goal_outputs goal index plan @ validate_partitions index plan @ validate_refs plan)))))
          (validate_edges g index plan)))"

end
