(* ===== verification/Compiler.thy ===== *)
theory Compiler
  imports Resolver Plan_Validation
begin

text \<open>
  \<open>ontology_planning/compiler.py\<close>: from a complete resolution to the read plan and the
  analysis DAG.  The governance values of a node are copied from the registry unconverted, so they stay
  JSON values; \<open>plan_graph_of\<close> is the plan the validator reads, once they have the types
  its schema asks for.
\<close>

section \<open>Data\<close>

record read_node =
  rn_id :: string
  rn_capability :: string
  rn_bindings :: "parameter_binding list"
  rn_produces :: "string list"
  rn_kind :: json
  rn_side_effect :: json
  rn_requires_approval :: json
  rn_approval_policy :: json

record read_plan =
  rp_id :: string
  rp_goal :: string
  rp_snapshot :: string
  rp_nodes :: "read_node list"
  rp_edges :: "plan_edge list"
  rp_order :: "string list"
  rp_outputs :: "goal_output list"

record analysis_plan =
  ap_nodes :: "json list"
  ap_outputs :: "string list"

record compiled_plan =
  cp_id :: string
  cp_semantic_snapshot :: string
  cp_registry_snapshot :: string
  cp_principal :: json
  cp_scope :: "(string \<times> json) list"
  cp_read_plan :: read_plan
  cp_analysis :: analysis_plan
  cp_goal :: goal_spec
  cp_covered :: "string list"

definition compiler_failure :: "string \<Rightarrow> py_error" where
  "compiler_failure message = Refused ''CompilerFailure'' message"

section \<open>Read-only capabilities\<close>

definition assert_read_only_one :: "(string \<times> json) list \<Rightarrow> string \<Rightarrow> unit list result" where
  "assert_read_only_one raw i =
     (case map_of raw i of
        None \<Rightarrow> Inl (compiler_failure (''capability not in registry: '' @ i))
      | Some definition \<Rightarrow>
          (if jget definition ''kind'' \<noteq> JStr ''Function'' then
             Inl (compiler_failure (''non-Function capability in read plan: '' @ i))
           else
             (let governance = jget_default definition ''governance'' (JObj []) in
              rbind (get_attr governance ''sideEffect'' (JStr ''none'')) (\<lambda>effect.
                if effect \<noteq> JStr ''none'' then Inl (compiler_failure (''WRITE rejected pre-Gateway: '' @ i))
                else if truthy (jget_default governance ''requiresApproval'' (JBool False)) then
                  Inl (compiler_failure (''approval-bearing capability rejected: '' @ i))
                else Inr []))))"

definition assert_read_only :: "string list \<Rightarrow> (string \<times> json) list \<Rightarrow> unit list result" where
  "assert_read_only planned_ids raw = collectM (assert_read_only_one raw) (sorted_set planned_ids)"

section \<open>Nodes\<close>

definition constraint_users :: "(string \<times> capability_card) list \<Rightarrow> (string \<times> string) list \<Rightarrow> string \<Rightarrow> (string \<times> string) list" where
  "constraint_users cards_by_id supplied i =
     (case map_of cards_by_id i of
        None \<Rightarrow> []
      | Some c \<Rightarrow> concat (map (\<lambda>d. if desc_binding_kind d = ''identifier'' \<and> map_of supplied (desc_name d) \<noteq> None
                                    then [(desc_name d, i)] else []) (card_inputs c)))"

definition goal_constraint_names ::
    "(string \<times> capability_card) list \<Rightarrow> string list \<Rightarrow> (string \<times> string) list \<Rightarrow> string list" where
  "goal_constraint_names cards_by_id planned_ids supplied =
     map fst (filter (\<lambda>(_, caps). 2 \<le> length (remdups caps))
       (group_by (concat (map (constraint_users cards_by_id supplied) planned_ids))))"

definition node_ids_of :: "string list \<Rightarrow> (string \<times> string) list" where
  "node_ids_of planned_ids = dict_of (map (\<lambda>(index, i). (i, ''read-'' @ string_of_nat index)) (enumerate_list planned_ids))"

definition derived_binding :: "closure_binding list \<Rightarrow> string \<Rightarrow> string \<Rightarrow> closure_binding option" where
  "derived_binding bs i name =
     map_of (dict_of (map (\<lambda>b. ((bound_consumer b, bound_input b), b)) bs)) (i, name)"

definition author_binding ::
    "(string \<times> string) list \<Rightarrow> string list \<Rightarrow> (string \<times> string) list \<Rightarrow> closure_binding list \<Rightarrow> string
     \<Rightarrow> input_descriptor \<Rightarrow> parameter_binding list result" where
  "author_binding node_by_cap constraint_names supplied bs i d =
     (case derived_binding bs i (desc_name d) of
        Some b \<Rightarrow>
          (case map_of node_by_cap (bound_producer b) of
             None \<Rightarrow> Inl (KeyError (bound_producer b))
           | Some producer_node \<Rightarrow>
               Inr [\<lparr>parameter_name = desc_name d,
                     binding_source = FactField producer_node (bound_fact_type b) (bound_field b)\<rparr>])
      | None \<Rightarrow>
          (case map_of supplied (desc_name d) of
             None \<Rightarrow> Inr []
           | Some value \<Rightarrow>
               Inr [\<lparr>parameter_name = desc_name d,
                     binding_source = (if desc_name d \<in> set constraint_names then GoalConstraint (desc_name d)
                                       else Literal (desc_semantic_type d) (JStr value))\<rparr>]))"

definition author_node ::
    "(string \<times> capability_card) list \<Rightarrow> (string \<times> json) list \<Rightarrow> (string \<times> string) list \<Rightarrow> string list
     \<Rightarrow> (string \<times> string) list \<Rightarrow> closure_binding list \<Rightarrow> string \<Rightarrow> read_node result" where
  "author_node cards_by_id raw node_by_cap constraint_names supplied bs i =
     (case map_of cards_by_id i of
        None \<Rightarrow> Inl (KeyError i)
      | Some c \<Rightarrow>
          rbind (collectM (author_binding node_by_cap constraint_names supplied bs i) (card_inputs c)) (\<lambda>authored.
            case map_of raw i of
              None \<Rightarrow> Inl (KeyError i)
            | Some definition \<Rightarrow>
                (let governance = jget_default definition ''governance'' (JObj []) in
                 if \<not> is_mapping governance then Inl (AttributeError ''get'')
                 else (case map_of node_by_cap i of
                     None \<Rightarrow> Inl (KeyError i)
                   | Some node \<Rightarrow>
                       Inr \<lparr>rn_id = node, rn_capability = i, rn_bindings = authored, rn_produces = sort (card_produces c),
                            rn_kind = jget_default definition ''kind'' (JStr ''Function''),
                            rn_side_effect = jget_default governance ''sideEffect'' (JStr ''none''),
                            rn_requires_approval = jget_default governance ''requiresApproval'' (JBool False),
                            rn_approval_policy = jget_default governance ''approvalPolicy'' (JStr ''not_required'')\<rparr>))))"

definition binding_edge_key :: "(string \<times> string) list \<Rightarrow> closure_binding \<Rightarrow> (string \<times> string \<times> string) list" where
  "binding_edge_key node_by_cap b =
     (case (map_of node_by_cap (bound_producer b), map_of node_by_cap (bound_consumer b)) of
        (Some producer_node, Some consumer_node) \<Rightarrow> [(producer_node, consumer_node, bound_fact_type b)]
      | _ \<Rightarrow> [])"

text \<open>The edges in the order their keys are first met, numbered from 0.\<close>

definition data_edges_of :: "(string \<times> string) list \<Rightarrow> closure_binding list \<Rightarrow> plan_edge list" where
  "data_edges_of node_by_cap bs =
     map (\<lambda>(k, producer_node, consumer_node, fact_type).
            DataEdge (''edge.data.'' @ string_of_nat k) producer_node consumer_node fact_type)
       (enumerate_list (fold (\<lambda>key keys. if key \<in> set keys then keys else keys @ [key])
          (concat (map (binding_edge_key node_by_cap) bs)) []))"

definition author_nodes ::
    "string list \<Rightarrow> (string \<times> capability_card) list \<Rightarrow> (string \<times> json) list \<Rightarrow> (string \<times> string) list
     \<Rightarrow> closure_binding list \<Rightarrow> (read_node list \<times> (string \<times> string) list \<times> plan_edge list) result" where
  "author_nodes planned_ids cards_by_id raw supplied bs =
     (let node_by_cap = node_ids_of planned_ids;
          constraint_names = goal_constraint_names cards_by_id planned_ids supplied in
      rbind (mapM (author_node cards_by_id raw node_by_cap constraint_names supplied bs) planned_ids) (\<lambda>nodes.
        Inr (nodes, node_by_cap, data_edges_of node_by_cap bs)))"

section \<open>Order\<close>

definition incoming_of :: "string list \<Rightarrow> plan_edge list \<Rightarrow> string \<Rightarrow> string list" where
  "incoming_of node_ids es n =
     map from_node (filter (\<lambda>e. to_node e = n \<and> to_node e \<in> set node_ids \<and> from_node e \<in> set node_ids) es)"

text \<open>One pass over the nodes that remained at its start; \<open>done\<close> holds the nodes of \<open>order\<close>.\<close>

fun topo_pass :: "(string \<Rightarrow> string list) \<Rightarrow> string list \<Rightarrow> string list \<times> string list \<Rightarrow> string list \<times> string list" where
  "topo_pass incoming [] (order, remaining) = (order, remaining)"
| "topo_pass incoming (n # ns) (order, remaining) =
     (if set (incoming n) \<subseteq> set order then topo_pass incoming ns (order @ [n], remove1 n remaining)
      else topo_pass incoming ns (order, remaining))"

lemma topo_pass_shrinks:
  "mset todo \<subseteq># mset remaining \<Longrightarrow>
   length (snd (topo_pass incoming todo (order, remaining))) + length (fst (topo_pass incoming todo (order, remaining)))
     = length remaining + length order"
proof (induction todo arbitrary: order remaining)
  case (Cons n ns)
  show ?case
  proof (cases "set (incoming n) \<subseteq> set order")
    case True
    have "n \<in> set remaining" using Cons.prems by (metis list.set_intros(1) mset_subset_eqD set_mset_mset)
    moreover have "mset ns \<subseteq># mset (remove1 n remaining)"
      using Cons.prems by (simp add: insert_subset_eq_iff)
    ultimately show ?thesis
      using True Cons.IH [of "remove1 n remaining" "order @ [n]"] length_pos_if_in_set [of n remaining]
      by (simp add: length_remove1)
  next
    case False
    have "mset ns \<subseteq># mset remaining" using Cons.prems by (simp add: insert_subset_eq_iff) (meson diff_subset_eq_self subset_mset.order_trans)
    then show ?thesis using False Cons.IH by simp
  qed
qed simp

lemma topo_pass_grows: "length order \<le> length (fst (topo_pass incoming todo (order, remaining)))"
proof (induction todo arbitrary: order remaining)
  case (Cons n ns)
  from Cons [of "order @ [n]" "remove1 n remaining"] Cons [of order remaining] show ?case by simp
qed simp

text \<open>A pass that added nothing made no progress.\<close>

function topo_loop :: "(string \<Rightarrow> string list) \<Rightarrow> string list \<Rightarrow> string list \<Rightarrow> string list result" where
  "topo_loop incoming order remaining =
     (if remaining = [] then Inr order
      else if length (fst (topo_pass incoming remaining (order, remaining))) = length order then
        Inl (compiler_failure ''cycle in read plan data edges'')
      else topo_loop incoming (fst (topo_pass incoming remaining (order, remaining)))
             (snd (topo_pass incoming remaining (order, remaining))))"
  by pat_completeness auto
termination
proof (relation "measure (\<lambda>(_, _, remaining). length remaining)")
  fix incoming :: "string \<Rightarrow> string list" and order remaining :: "string list"
  assume "length (fst (topo_pass incoming remaining (order, remaining))) \<noteq> length order"
  with topo_pass_shrinks [of remaining remaining incoming order] topo_pass_grows [of order incoming remaining remaining]
  show "((incoming, fst (topo_pass incoming remaining (order, remaining)), snd (topo_pass incoming remaining (order, remaining))),
      incoming, order, remaining) \<in> measure (\<lambda>(_, _, remaining). length remaining)"
    by (simp add: case_prod_beta)
qed simp

declare topo_loop.simps [simp del]

definition topological_order_of :: "string list \<Rightarrow> plan_edge list \<Rightarrow> string list result" where
  "topological_order_of node_ids es = topo_loop (incoming_of node_ids es) [] node_ids"

section \<open>The analysis DAG\<close>

record dag_state =
  marks :: "(string \<times> nat) list"
  dag_planned :: "json list"

definition mark_of :: "dag_state \<Rightarrow> string \<Rightarrow> nat" where
  "mark_of s i = (case map_of (marks s) i of None \<Rightarrow> 0 | Some m \<Rightarrow> m)"

definition set_mark :: "string \<Rightarrow> nat \<Rightarrow> dag_state \<Rightarrow> dag_state" where
  "set_mark i m s = s\<lparr>marks := AList.update i m (marks s)\<rparr>"

text \<open>
  The inputs of a node were frozen when it was built, so a list inside one is a tuple; a value that cannot be
  hashed raises before the message is made.
\<close>

definition fact_input_check :: "pinned_release \<Rightarrow> json \<Rightarrow> unit list result" where
  "fact_input_check pinned input_ref =
     (let fact_type = jget input_ref ''factTypeId''; field = jget input_ref ''field'' in
      if \<not> frozen_hashable fact_type then Inl (TypeError ''unhashable type'')
      else rbind (frozen_member field (case fact_type of JStr f \<Rightarrow> group_get (allowlist_fields pinned) f | _ \<Rightarrow> []))
        (\<lambda>ok. if ok then Inr []
              else Inl (compiler_failure (''analysis input not allowed: '' @ frozen_str fact_type @ ''.'' @ frozen_str field))))"

definition dag_input_check :: "pinned_release \<Rightarrow> string list \<Rightarrow> json \<Rightarrow> unit list result" where
  "dag_input_check pinned ids input_ref =
     rbind (get_attr input_ref ''kind'' JNull) (\<lambda>kind.
       if kind = JStr ''factField'' then fact_input_check pinned input_ref
       else if kind = JStr ''nodeRef'' then
         (if \<exists>i \<in> set ids. jget input_ref ''nodeId'' = JStr i then Inr []
          else Inl (compiler_failure ''analysis nodeRef unresolved''))
       else Inl (compiler_failure ''analysis input kind must be factField|nodeRef''))"

definition planned_node :: "pinned_release \<Rightarrow> analysis_node_draft \<Rightarrow> json result" where
  "planned_node pinned node =
     (case map_of (operator_versions pinned) (an_operator node) of
        None \<Rightarrow> Inl (KeyError (an_operator node))
      | Some version \<Rightarrow>
          Inr (JObj [(''nodeId'', JStr (an_id node)), (''operatorId'', JStr (an_operator node)),
                 (''operatorVersion'', version), (''inputs'', JList (an_inputs node)), (''params'', an_params node),
                 (''definitionRefs'', JList []), (''dependsOn'', JList (an_depends_on node))]))"

definition finish_node :: "pinned_release \<Rightarrow> string list \<Rightarrow> analysis_node_draft \<Rightarrow> dag_state \<Rightarrow> dag_state result" where
  "finish_node pinned ids node s =
     rbind (collectM (dag_input_check pinned ids) (an_inputs node)) (\<lambda>_.
       rbind (planned_node pinned node) (\<lambda>entry.
         Inr (set_mark (an_id node) 2 (s\<lparr>dag_planned := dag_planned s @ [entry]\<rparr>))))"

text \<open>\<open>visit\<close>; \<open>None\<close> if the depth given ran out before it returned.\<close>

fun visit_node :: "nat \<Rightarrow> pinned_release \<Rightarrow> analysis_node_draft list \<Rightarrow> string \<Rightarrow> dag_state \<Rightarrow> dag_state result option"
  and visit_deps :: "nat \<Rightarrow> pinned_release \<Rightarrow> analysis_node_draft list \<Rightarrow> json list \<Rightarrow> dag_state \<Rightarrow> dag_state result option" where
  "visit_node 0 pinned nodes i s = None"
| "visit_node (Suc n) pinned nodes i s =
     (if mark_of s i = 1 then Some (Inl (compiler_failure ''cycle in analysis DAG''))
      else if mark_of s i = 2 then Some (Inr s)
      else (case find (\<lambda>m. an_id m = i) nodes of
          None \<Rightarrow> Some (Inl StopIteration)
        | Some node \<Rightarrow>
            (if an_operator node \<notin> set (pinned_operators pinned) then
               Some (Inl (compiler_failure (''unknown operator: '' @ an_operator node)))
             else (case visit_deps n pinned nodes (an_depends_on node) (set_mark i 1 s) of
                 None \<Rightarrow> None
               | Some (Inl e) \<Rightarrow> Some (Inl e)
               | Some (Inr s') \<Rightarrow> Some (finish_node pinned (map an_id nodes) node s')))))"
| "visit_deps n pinned nodes [] s = Some (Inr s)"
| "visit_deps n pinned nodes (d # ds) s =
     (case find (\<lambda>i. d = JStr i) (map an_id nodes) of
        None \<Rightarrow> Some (Inl (compiler_failure (''analysis node depends on unknown node: '' @ plain_str d)))
      | Some i \<Rightarrow>
          (case visit_node n pinned nodes i s of
             None \<Rightarrow> None
           | Some (Inl e) \<Rightarrow> Some (Inl e)
           | Some (Inr s') \<Rightarrow> visit_deps n pinned nodes ds s'))"

fun visit_all :: "nat \<Rightarrow> pinned_release \<Rightarrow> analysis_node_draft list \<Rightarrow> analysis_node_draft list \<Rightarrow> dag_state
    \<Rightarrow> dag_state result option" where
  "visit_all n pinned nodes [] s = Some (Inr s)"
| "visit_all n pinned nodes (m # ms) s =
     (case visit_node n pinned nodes (an_id m) s of
        None \<Rightarrow> None
      | Some (Inl e) \<Rightarrow> Some (Inl e)
      | Some (Inr s') \<Rightarrow> visit_all n pinned nodes ms s')"

definition dag_start :: dag_state where
  "dag_start = \<lparr>marks = [], dag_planned = []\<rparr>"

definition analysis_dag :: "goal_draft \<Rightarrow> pinned_release \<Rightarrow> analysis_plan result option" where
  "analysis_dag draft pinned =
     (let nodes = analysis_nodes draft; ids = map an_id nodes in
      if max_analysis_nodes < length nodes then Some (Inl (compiler_failure ''too many analysis nodes''))
      else if \<not> distinct ids then Some (Inl (compiler_failure ''duplicate analysis node ids''))
      else map_option (map_sum id (\<lambda>s.
             \<lparr>ap_nodes = dag_planned s,
              ap_outputs = filter (\<lambda>i. JStr i \<notin> set (concat (map an_depends_on nodes))) ids\<rparr>))
             (visit_all (Suc (length nodes)) pinned nodes nodes dag_start))"

section \<open>Compiling\<close>

definition fact_source_json :: "parameter_source \<Rightarrow> json" where
  "fact_source_json src =
     (case src of
        FactField producer f field \<Rightarrow> JObj [(''kind'', JStr ''factField''), (''producerNodeId'', JStr producer),
          (''factTypeId'', JStr f), (''field'', JStr field)]
      | GoalConstraint name \<Rightarrow> JObj [(''kind'', JStr ''goalConstraint''), (''constraintName'', JStr name)]
      | Literal st v \<Rightarrow> JObj [(''kind'', JStr ''literal''), (''semanticType'', JStr st), (''value'', v)]
      | RegisteredDefault n st v \<Rightarrow> JObj [(''kind'', JStr ''registeredDefault''), (''parameterName'', JStr n),
          (''semanticType'', JStr st), (''value'', v)])"

definition read_node_json :: "read_node \<Rightarrow> json" where
  "read_node_json n = JObj [(''nodeId'', JStr (rn_id n)), (''capabilityId'', JStr (rn_capability n)),
     (''parameterBindings'', JList (map (\<lambda>b. JObj [(''parameterName'', JStr (parameter_name b)),
        (''source'', fact_source_json (binding_source b))]) (rn_bindings n))),
     (''producesFactTypes'', JList (map JStr (rn_produces n))),
     (''governance'', JObj [(''capabilityKind'', rn_kind n), (''sideEffect'', rn_side_effect n),
        (''requiresApproval'', rn_requires_approval n), (''approvalPolicy'', rn_approval_policy n)])]"

definition data_edge_json :: "plan_edge \<Rightarrow> json" where
  "data_edge_json e = JObj ([(''edgeId'', JStr (edge_id e)),
     (''kind'', JStr (case e of DataEdge _ _ _ _ \<Rightarrow> ''data'' | DependencyEdge _ _ _ \<Rightarrow> ''dependency'')),
     (''fromNodeId'', JStr (from_node e)), (''toNodeId'', JStr (to_node e))]
     @ (case e of DataEdge _ _ _ f \<Rightarrow> [(''factTypeId'', JStr f)] | DependencyEdge _ _ _ \<Rightarrow> []))"

definition read_plan_json :: "read_plan \<Rightarrow> json" where
  "read_plan_json p = JObj [(''planGraphVersion'', JInt 2), (''planId'', JStr (rp_id p)), (''goalId'', JStr (rp_goal p)),
     (''executionMode'', JStr ''READ_ONLY''), (''snapshotId'', JStr (rp_snapshot p)),
     (''nodes'', JList (map read_node_json (rp_nodes p))), (''edges'', JList (map data_edge_json (rp_edges p))),
     (''topologicalOrder'', JList (map JStr (rp_order p))),
     (''goalOutputs'', JList (map (\<lambda>out. JObj [(''factTypeId'', JStr (output_fact_type out)),
        (''producerNodeId'', JStr (output_producer out))]) (rp_outputs p))),
     (''readPartition'', JList (map (\<lambda>n. JStr (rn_id n)) (rp_nodes p))), (''actionPartition'', JList []),
     (''projectionRef'', JList []), (''ruleSetRefs'', JList [])]"

definition analysis_plan_json :: "analysis_plan \<Rightarrow> json" where
  "analysis_plan_json p = JObj [(''nodes'', JList (ap_nodes p)), (''outputs'', JList (map JStr (ap_outputs p)))]"

definition supplied_values :: "resolution \<Rightarrow> goal_draft \<Rightarrow> (string \<times> string) list" where
  "supplied_values r draft =
     fold (\<lambda>(k, v). setdefault k v)
       (concat (map (\<lambda>f. map (\<lambda>s. (selector_key s, selector_value s)) (desired_selectors f)) (res_desired r))
        @ map (\<lambda>c. (tc_name c, tc_value c)) (draft_constraints draft)) []"

definition input_types :: "(string \<times> capability_card) list \<Rightarrow> string list \<Rightarrow> (string \<times> string) list result" where
  "input_types cards_by_id planned_ids =
     rbind (collectM (\<lambda>i. case map_of cards_by_id i of None \<Rightarrow> Inl (KeyError i)
              | Some c \<Rightarrow> Inr (map (\<lambda>d. (desc_name d, desc_semantic_type d)) (card_inputs c))) planned_ids)
       (\<lambda>kvs. Inr (fold (\<lambda>(k, v). setdefault k v) kvs []))"

definition item_of :: "(string \<times> 'a) list \<Rightarrow> string \<Rightarrow> 'a result" where
  "item_of d k = (case map_of d k of None \<Rightarrow> Inl (KeyError k) | Some v \<Rightarrow> Inr v)"

definition constraint_parameters :: "read_node list \<Rightarrow> string list" where
  "constraint_parameters nodes =
     sorted_set (concat (map (\<lambda>n. concat (map (\<lambda>b. case binding_source b of
         GoalConstraint _ \<Rightarrow> [parameter_name b] | _ \<Rightarrow> []) (rn_bindings n))) nodes))"

definition goal_constraint_of ::
    "(string \<times> string) list \<Rightarrow> (string \<times> string) list \<Rightarrow> string \<Rightarrow> goal_constraint result" where
  "goal_constraint_of types supplied name =
     rbind (item_of types name) (\<lambda>t. rbind (item_of supplied name) (\<lambda>v.
       Inr \<lparr>constraint_name = name, constraint_semantic_type = t, constraint_value = JStr v\<rparr>))"

definition goal_constraint_json :: "goal_constraint \<Rightarrow> json" where
  "goal_constraint_json c = JObj [(''name'', JStr (constraint_name c)),
     (''semanticType'', JStr (constraint_semantic_type c)), (''value'', constraint_value c)]"

definition desired_types_of :: "resolution \<Rightarrow> string list" where
  "desired_types_of r = sorted_set (map desired_type (res_desired r))"

definition goal_of :: "(string \<Rightarrow> string) \<Rightarrow> resolution \<Rightarrow> goal_constraint list \<Rightarrow> goal_spec" where
  "goal_of sha256_hex r cs =
     \<lparr>goal_id = ''ont:'' @ take 13 (drop 7 (sha256_id sha256_hex (JObj
        [(''facts'', JList (map JStr (desired_types_of r))), (''constraints'', JList (map goal_constraint_json cs))]))),
      execution_mode = ''READ_ONLY'', desired_fact_types = desired_types_of r, constraints = cs\<rparr>"

definition goal_output_of :: "(string \<times> string) list \<Rightarrow> desired_fact \<Rightarrow> goal_output result" where
  "goal_output_of node_by_cap d =
     rbind (item_of node_by_cap (desired_producer d)) (\<lambda>n.
       Inr \<lparr>output_fact_type = desired_type d, output_producer = n\<rparr>)"

definition assemble ::
    "(string \<Rightarrow> string) \<Rightarrow> goal_draft \<Rightarrow> resolution \<Rightarrow> pinned_release \<Rightarrow> registry_snapshot \<Rightarrow> (string \<times> json) list
     \<Rightarrow> (string \<times> json) list \<Rightarrow> read_node list \<Rightarrow> plan_edge list \<Rightarrow> string list \<Rightarrow> goal_spec \<Rightarrow> goal_output list
     \<Rightarrow> analysis_plan \<Rightarrow> compiled_plan" where
  "assemble sha256_hex draft r pinned snapshot who scope nodes es order goal outputs analysis =
     (let plan = \<lparr>rp_id = ''read-'' @ take 17 (drop 7 (sha256_id sha256_hex (JObj
                     [(''goal'', JStr (goal_id goal)), (''nodes'', JList (map (\<lambda>n. JStr (rn_id n)) nodes))]))),
                  rp_goal = goal_id goal, rp_snapshot = snapshot_id snapshot, rp_nodes = nodes, rp_edges = es,
                  rp_order = order, rp_outputs = outputs\<rparr> in
      \<lparr>cp_id = sha256_id sha256_hex (JObj [(''readPlan'', read_plan_json plan),
          (''analysisPlan'', analysis_plan_json analysis), (''scope'', JObj scope)]),
       cp_semantic_snapshot = semantic_snapshot_id pinned, cp_registry_snapshot = snapshot_id snapshot,
       cp_principal = jget_default (JObj who) ''principalId'' (JStr ''local-user-0001''), cp_scope = scope,
       cp_read_plan = plan, cp_analysis = analysis, cp_goal = goal,
       cp_covered = map conclusion_id (requested_conclusions draft)\<rparr>)"

definition planned_ids_of :: "resolution \<Rightarrow> string list" where
  "planned_ids_of r = sorted_set (map desired_producer (res_desired r) @ res_closure_capabilities r)"

text \<open>The steps before the analysis DAG: nodes, edges, order, goal.\<close>

definition compile_read ::
    "(string \<Rightarrow> string) \<Rightarrow> goal_draft \<Rightarrow> resolution \<Rightarrow> source_documents \<Rightarrow> registry_snapshot
     \<Rightarrow> (read_node list \<times> (string \<times> string) list \<times> plan_edge list \<times> string list \<times> goal_spec) result" where
  "compile_read sha256_hex draft r docs snapshot =
     (if res_status r \<noteq> ''complete'' then
        Inl (compiler_failure (''cannot compile resolution with status '' @ res_status r))
      else
        rbind (raw_capabilities docs) (\<lambda>raw. rbind (discover_cards snapshot docs) (\<lambda>cards.
          let cards_by_id = dict_of (map (\<lambda>c. (card_id c, c)) cards);
              planned_ids = planned_ids_of r; supplied = supplied_values r draft in
          rbind (assert_read_only planned_ids raw) (\<lambda>_.
            if max_read_nodes < length planned_ids then Inl (compiler_failure ''too many read nodes'')
            else rbind (author_nodes planned_ids cards_by_id raw supplied (res_closure r)) (\<lambda>(nodes, node_by_cap, es).
              rbind (topological_order_of (map rn_id nodes) es) (\<lambda>order.
                rbind (input_types cards_by_id planned_ids) (\<lambda>types.
                  rbind (mapM (goal_constraint_of types supplied) (constraint_parameters nodes)) (\<lambda>cs.
                    Inr (nodes, node_by_cap, es, order, goal_of sha256_hex r cs)))))))))"

definition compile ::
    "(string \<Rightarrow> string) \<Rightarrow> goal_draft \<Rightarrow> resolution \<Rightarrow> pinned_release \<Rightarrow> source_documents \<Rightarrow> registry_snapshot
     \<Rightarrow> (string \<times> json) list \<Rightarrow> (string \<times> json) list \<Rightarrow> compiled_plan result option" where
  "compile sha256_hex draft r pinned docs snapshot who scope =
     (case compile_read sha256_hex draft r docs snapshot of
        Inl e \<Rightarrow> Some (Inl e)
      | Inr (nodes, node_by_cap, es, order, goal) \<Rightarrow>
          map_option (\<lambda>dag. rbind dag (\<lambda>analysis.
            rbind (mapM (goal_output_of node_by_cap) (sort_key desired_type (res_desired r))) (\<lambda>outputs.
              Inr (assemble sha256_hex draft r pinned snapshot who scope nodes es order goal outputs analysis))))
            (analysis_dag draft pinned))"

definition compiled_plan_json :: "compiled_plan \<Rightarrow> json" where
  "compiled_plan_json p = JObj [(''schemaVersion'', JInt 1), (''planId'', JStr (cp_id p)),
     (''semanticSnapshotId'', JStr (cp_semantic_snapshot p)), (''registrySnapshotId'', JStr (cp_registry_snapshot p)),
     (''principalId'', cp_principal p), (''scope'', JObj (cp_scope p)),
     (''readPlan'', read_plan_json (cp_read_plan p)), (''analysisPlan'', analysis_plan_json (cp_analysis p)),
     (''goalSpec'', JObj [(''goalSpecVersion'', JInt 1), (''goalId'', JStr (goal_id (cp_goal p))),
        (''goalType'', JStr ''dynamic-read-analysis''), (''executionMode'', JStr (execution_mode (cp_goal p))),
        (''desiredFactTypes'', JList (map JStr (desired_fact_types (cp_goal p)))),
        (''constraints'', JList (map goal_constraint_json (constraints (cp_goal p))))]),
     (''limits'', JObj [(''maxReadNodes'', JInt (int max_read_nodes)), (''maxAnalysisNodes'', JInt (int max_analysis_nodes)),
        (''maxDepth'', JInt (int max_depth)), (''overallTimeoutSeconds'', JInt (int overall_timeout_seconds)),
        (''maxRows'', JInt (int max_rows)), (''maxResponseBytes'', JInt (int max_response_bytes))]),
     (''freshness'', JObj []), (''coverage'', JObj [(''covered'', JList (map JStr (cp_covered p))), (''uncovered'', JList [])])]"

text \<open>The plan as the validator reads it, if the copied governance values have the types of its schema.\<close>

definition plan_node_of :: "read_node \<Rightarrow> plan_node option" where
  "plan_node_of n =
     (case (rn_kind n, rn_side_effect n, rn_requires_approval n, rn_approval_policy n) of
        (JStr k, JStr e, JBool b, JStr p) \<Rightarrow>
          Some \<lparr>node_id = rn_id n, node_capability = rn_capability n, parameter_bindings = rn_bindings n,
                produces_fact_types = rn_produces n, capability_kind = k,
                node_governance = \<lparr>side_effect = e, requires_approval = b, approval_policy = p\<rparr>\<rparr>
      | _ \<Rightarrow> None)"

definition plan_graph_of :: "read_plan \<Rightarrow> plan_graph_v2 option" where
  "plan_graph_of p =
     (case those (map plan_node_of (rp_nodes p)) of
        None \<Rightarrow> None
      | Some nodes \<Rightarrow>
          Some \<lparr>plan_id = rp_id p, plan_goal_id = rp_goal p, plan_execution_mode = ''READ_ONLY'',
                plan_snapshot_id = rp_snapshot p, plan_nodes = nodes, plan_edges = rp_edges p,
                topological_order = rp_order p, goal_outputs = rp_outputs p,
                read_partition = map rn_id (rp_nodes p), action_partition = [], projection_ref = [], ruleset_refs = []\<rparr>)"

end
