(* ===== verification/Plan_Shape.thy ===== *)
theory Plan_Shape
  imports Plan_Validation
begin

text \<open>
  The shape stage of goals and plans, \<open>_validate_goal_shape\<close>, \<open>_validate_plan_shape\<close> and
  \<open>_validate_plan_shape_v2\<close> of \<open>semantic_planning/validation.py\<close> and \<open>validation_v2.py\<close>, and the
  validators on documents: shape stage, reading the document, checks of \<open>Plan_Validation\<close>.
  The schema library's \<open>iter_errors\<close> is a parameter, as in \<open>Schema_Stage\<close>.
\<close>

section \<open>Numbers\<close>

text \<open>
  Python compares an \<open>int\<close> and a \<open>float\<close> by value.  The integer a float stands for is read from
  its \<open>repr\<close>: the decimal, rounded to the 53 bits of a double.
\<close>

fun bit_length :: "nat \<Rightarrow> nat" where
  "bit_length n = (if n = 0 then 0 else Suc (bit_length (n div 2)))"

declare bit_length.simps [simp del]

definition round_to_double :: "nat \<Rightarrow> nat" where
  "round_to_double v =
     (let shift = bit_length v - 53; q = v div 2 ^ shift; r = v mod 2 ^ shift; half = 2 ^ shift div 2 in
      if shift = 0 then v
      else (if half < r \<or> r = half \<and> odd q then Suc q else q) * 2 ^ shift)"

definition exponent_value :: "string \<Rightarrow> int" where
  "exponent_value e =
     (case e of [] \<Rightarrow> 0 | c # ds \<Rightarrow> if c = CHR ''-'' then - int (digits_value 0 ds)
        else if c = CHR ''+'' then int (digits_value 0 ds) else int (digits_value 0 e))"

definition unsigned_float_int :: "string \<Rightarrow> nat option" where
  "unsigned_float_int t =
     (let mantissa = takeWhile (\<lambda>c. c \<noteq> CHR ''e'') t; whole = takeWhile (\<lambda>c. c \<noteq> CHR ''.'') mantissa;
          frac = drop (Suc (length whole)) mantissa; m = digits_value 0 (whole @ frac);
          scale = exponent_value (drop (Suc (length mantissa)) t) - int (length frac) in
      if 0 \<le> scale then Some (round_to_double (m * 10 ^ nat scale))
      else if 10 ^ nat (- scale) dvd m then Some (round_to_double (m div 10 ^ nat (- scale)))
      else None)"

definition float_int :: "string \<Rightarrow> int option" where
  "float_int t =
     (case t of CHR ''-'' # u \<Rightarrow> map_option (\<lambda>n. - int n) (unsigned_float_int u)
      | _ \<Rightarrow> map_option int (unsigned_float_int t))"

fun numbers_equal :: "json \<Rightarrow> json \<Rightarrow> bool" where
  "numbers_equal (JInt a) (JInt b) = (a = b)"
| "numbers_equal (JInt a) (JFloat t) = (float_int t = Some a)"
| "numbers_equal (JFloat t) (JInt a) = (float_int t = Some a)"
| "numbers_equal (JFloat s) (JFloat t) = (s = t \<or> float_int s = Some 0 \<and> float_int t = Some 0)"
| "numbers_equal _ _ = False"

fun json_instances_equal :: "json \<Rightarrow> json \<Rightarrow> bool" where
  "json_instances_equal (JBool a) r = (r = JBool a)"
| "json_instances_equal (JInt a) r = numbers_equal (JInt a) r"
| "json_instances_equal (JFloat t) r = numbers_equal (JFloat t) r"
| "json_instances_equal (JObj kvs) r =
     (case r of
        JObj rkvs \<Rightarrow> length kvs = length rkvs
          \<and> (\<forall>kv \<in> set kvs. case map_of rkvs (fst kv) of None \<Rightarrow> False | Some w \<Rightarrow> json_instances_equal (snd kv) w)
      | _ \<Rightarrow> False)"
| "json_instances_equal (JList xs) r = (case r of JList ys \<Rightarrow> list_all2 json_instances_equal xs ys | _ \<Rightarrow> False)"
| "json_instances_equal JNull r = (r = JNull)"
| "json_instances_equal (JStr s) r = (r = JStr s)"

section \<open>Errors that are not reported as such\<close>

definition converted_item :: "string list \<Rightarrow> string \<Rightarrow> nat \<Rightarrow> bool" where
  "converted_item conversion_paths base_path index \<longleftrightarrow>
     (\<exists>path \<in> set conversion_paths. path = at_index base_path index \<or> starts_with (at_index base_path index @ ''/'') path)"

definition equal_pairs :: "json list \<Rightarrow> (nat \<times> nat) list" where
  "equal_pairs vs = filter (\<lambda>(i, j). json_instances_equal (vs ! i) (vs ! j))
     (concat (map (\<lambda>i. map (Pair i) [0..<i]) [0..<length vs]))"

definition unique_items_is_conversion_artifact :: "schema_error \<Rightarrow> string list \<Rightarrow> bool" where
  "unique_items_is_conversion_artifact e conversion_paths \<longleftrightarrow>
     validator e = ''uniqueItems''
     \<and> (case err_instance e of
          JList vs \<Rightarrow>
            (let converted = converted_item conversion_paths (pointer (absolute_path e)) in
             equal_pairs vs \<noteq> [] \<and> (\<forall>(i, j) \<in> set (equal_pairs vs). converted i \<or> converted j))
        | _ \<Rightarrow> False)"

definition plan_unique_items_is_semantic :: "schema_error \<Rightarrow> bool" where
  "plan_unique_items_is_semantic e \<longleftrightarrow>
     validator e = ''uniqueItems''
     \<and> (case absolute_path e of
          [Key a] \<Rightarrow> a = ''nodes'' \<or> a = ''edges''
        | [Key a, Index _, Key b] \<Rightarrow> a = ''nodes'' \<and> b = ''parameterBindings''
        | _ \<Rightarrow> False)"

fun plan_schema_error_details :: "schema_error \<Rightarrow> (token list \<times> string) list" where
  "plan_schema_error_details (SchemaError path v vv inst sch msg context) =
     (if v \<in> {''oneOf'', ''anyOf''} \<and> context \<noteq> [] then
        concat (map plan_schema_error_details (sort_key error_key context))
      else schema_error_details (SchemaError path v vv inst sch msg context))"

section \<open>The shape stages\<close>

definition shape_collection :: "string \<Rightarrow> collection" where
  "shape_collection name = \<lparr>source_base = [], collection_name = name, collection_path = []\<rparr>"

text \<open>
  The issues of one schema error, once it is not skipped: \<open>path_of\<close> prints the path of an issue.
\<close>

definition shape_error_issues ::
    "(token list \<Rightarrow> string) \<Rightarrow> string list \<Rightarrow> (schema_error \<Rightarrow> (token list \<times> string) list) \<Rightarrow> schema_error \<Rightarrow> issue list" where
  "shape_error_issues path_of conversion_paths details e =
     concat (map (\<lambda>(tokens, message).
       if err_instance e = JNull \<and> path_of tokens \<in> set conversion_paths then []
       else [ValidationIssue (path_of tokens) ''SCHEMA_INVALID'' message]) (details e))"

text \<open>The two stable id checks on the document as it is, before anything is known about it.\<close>

fun duplicate_item_ids :: "string \<Rightarrow> string \<Rightarrow> nat \<Rightarrow> string list \<Rightarrow> json list \<Rightarrow> issue list" where
  "duplicate_item_ids collection id_field index seen [] = []"
| "duplicate_item_ids collection id_field index seen (v # vs) =
     (case jget v id_field of
        JStr i \<Rightarrow>
          if i \<in> set seen then
            ValidationIssue (''/'' @ collection @ ''/'' @ string_of_nat index @ ''/'' @ id_field) ''DUPLICATE_ID''
              (''duplicate '' @ id_field @ '': '' @ i)
            # duplicate_item_ids collection id_field (Suc index) seen vs
          else duplicate_item_ids collection id_field (Suc index) (i # seen) vs
      | _ \<Rightarrow> duplicate_item_ids collection id_field (Suc index) seen vs)"

definition plan_item_id_issues :: "json \<Rightarrow> issue list" where
  "plan_item_id_issues document =
     concat (map (\<lambda>(collection, id_field).
       case jget document collection of
         JList vs \<Rightarrow> duplicate_item_ids collection id_field 0 [] vs
       | _ \<Rightarrow> []) [(''nodes'', ''nodeId''), (''edges'', ''edgeId'')])"

definition plan_shape_with ::
    "(token list \<Rightarrow> string) \<Rightarrow> string \<Rightarrow> (string \<Rightarrow> json \<Rightarrow> schema_error list) \<Rightarrow> json \<Rightarrow> issue list \<times> json" where
  "plan_shape_with path_of schema_name iter_errors plan =
     (case to_json_value (shape_collection ''__plan__'') [] 0 (of_json plan) of (normalized, conversion_issues) \<Rightarrow>
        (let paths = map issue_path conversion_issues;
             errors = filter (\<lambda>e. \<not> plan_unique_items_is_semantic e \<and> \<not> unique_items_is_conversion_artifact e paths)
                        (sorted_errors (iter_errors schema_name normalized));
             found = concat (map (shape_error_issues path_of paths plan_schema_error_details) errors) in
         if is_mapping normalized then (conversion_issues @ found @ plan_item_id_issues normalized, normalized)
         else (conversion_issues @ found, JObj [])))"

definition validate_plan_shape :: "(string \<Rightarrow> json \<Rightarrow> schema_error list) \<Rightarrow> json \<Rightarrow> issue list \<times> json" where
  "validate_plan_shape = plan_shape_with pointer ''plan-graph.schema.json''"

text \<open>Version 2 does not escape the tokens of a path.\<close>

definition plain_pointer :: "token list \<Rightarrow> string" where
  "plain_pointer tokens = concat (map (\<lambda>t. ''/'' @ token_str t) tokens)"

definition validate_plan_shape_v2 :: "(string \<Rightarrow> json \<Rightarrow> schema_error list) \<Rightarrow> json \<Rightarrow> issue list \<times> json" where
  "validate_plan_shape_v2 = plan_shape_with plain_pointer ''plan-graph-v2.schema.json''"

definition validate_goal_shape :: "(string \<Rightarrow> json \<Rightarrow> schema_error list) \<Rightarrow> json \<Rightarrow> issue list \<times> json" where
  "validate_goal_shape iter_errors goal =
     (case to_json_value (shape_collection ''__goal__'') [] 0 (of_json goal) of (normalized, conversion_issues) \<Rightarrow>
        (let paths = map issue_path conversion_issues;
             errors = filter (\<lambda>e. \<not> unique_items_is_conversion_artifact e paths)
                        (sorted_errors (iter_errors ''goal-spec.schema.json'' normalized));
             found = concat (map (shape_error_issues pointer paths schema_error_details) errors);
             duplicates = (case jget normalized ''constraints'' of JList cs \<Rightarrow> duplicate_constraint_issues 0 [] cs | _ \<Rightarrow> [])
         in (conversion_issues @ found @ duplicates, if is_mapping normalized then normalized else JObj [])))"

section \<open>Reading the documents\<close>

text \<open>
  What the checks read of a goal and of a plan the schemas admitted.  A missing key or a value of another type
  raises here, where the code raises at the first access.
\<close>

definition list_item :: "json \<Rightarrow> string \<Rightarrow> json list result" where
  "list_item d k = rbind (jitem d k) (\<lambda>v. case v of JList vs \<Rightarrow> Inr vs | _ \<Rightarrow> Inl (TypeError ''list expected''))"

definition texts_item :: "json \<Rightarrow> string \<Rightarrow> string list result" where
  "texts_item d k = rbind (list_item d k)
     (mapM (\<lambda>v. case v of JStr s \<Rightarrow> Inr s | _ \<Rightarrow> Inl (TypeError ''string expected'')))"

definition decode_constraint :: "json \<Rightarrow> goal_constraint result" where
  "decode_constraint v = rbind (text_item v ''name'') (\<lambda>n. rbind (text_item v ''semanticType'') (\<lambda>t.
     rbind (jitem v ''value'') (\<lambda>x. Inr \<lparr>constraint_name = n, constraint_semantic_type = t, constraint_value = x\<rparr>)))"

definition decode_goal :: "json \<Rightarrow> goal_spec result" where
  "decode_goal v = rbind (text_item v ''goalId'') (\<lambda>i. rbind (text_item v ''executionMode'') (\<lambda>m.
     rbind (texts_item v ''desiredFactTypes'') (\<lambda>fs. rbind (list_item v ''constraints'') (\<lambda>vs.
       rbind (mapM decode_constraint vs) (\<lambda>cs.
         Inr \<lparr>goal_id = i, execution_mode = m, desired_fact_types = fs, constraints = cs\<rparr>)))))"

definition decode_source :: "json \<Rightarrow> parameter_source result" where
  "decode_source v =
     rbind (text_item v ''kind'') (\<lambda>k.
       if k = ''goalConstraint'' then rbind (text_item v ''constraintName'') (\<lambda>n. Inr (GoalConstraint n))
       else if k = ''literal'' then
         rbind (text_item v ''semanticType'') (\<lambda>t. rbind (jitem v ''value'') (\<lambda>x. Inr (Literal t x)))
       else if k = ''factField'' then
         rbind (text_item v ''producerNodeId'') (\<lambda>n. rbind (text_item v ''factTypeId'') (\<lambda>f.
           rbind (text_item v ''field'') (\<lambda>d. Inr (FactField n f d))))
       else rbind (text_item v ''parameterName'') (\<lambda>n. rbind (text_item v ''semanticType'') (\<lambda>t.
         rbind (jitem v ''value'') (\<lambda>x. Inr (RegisteredDefault n t x)))))"

definition decode_binding :: "json \<Rightarrow> parameter_binding result" where
  "decode_binding v = rbind (text_item v ''parameterName'') (\<lambda>n. rbind (jitem v ''source'') (\<lambda>s.
     rbind (decode_source s) (\<lambda>src. Inr \<lparr>parameter_name = n, binding_source = src\<rparr>)))"

definition decode_node :: "json \<Rightarrow> plan_node result" where
  "decode_node v =
     rbind (text_item v ''nodeId'') (\<lambda>i. rbind (text_item v ''capabilityId'') (\<lambda>c.
       rbind (list_item v ''parameterBindings'') (\<lambda>bs. rbind (mapM decode_binding bs) (\<lambda>bindings.
         rbind (texts_item v ''producesFactTypes'') (\<lambda>fs. rbind (jitem v ''governance'') (\<lambda>g.
           rbind (text_item g ''capabilityKind'') (\<lambda>k. rbind (decode_governance g) (\<lambda>governance.
             Inr \<lparr>node_id = i, node_capability = c, parameter_bindings = bindings, produces_fact_types = fs,
                  capability_kind = k, node_governance = governance\<rparr>))))))))"

definition decode_edge :: "json \<Rightarrow> plan_edge result" where
  "decode_edge v =
     rbind (text_item v ''edgeId'') (\<lambda>i. rbind (text_item v ''fromNodeId'') (\<lambda>a. rbind (text_item v ''toNodeId'') (\<lambda>b.
       rbind (text_item v ''kind'') (\<lambda>k.
         if k = ''data'' then rbind (text_item v ''factTypeId'') (\<lambda>f. Inr (DataEdge i a b f))
         else Inr (DependencyEdge i a b)))))"

definition decode_output_ref :: "json \<Rightarrow> goal_output result" where
  "decode_output_ref v = rbind (text_item v ''factTypeId'') (\<lambda>f. rbind (text_item v ''producerNodeId'') (\<lambda>n.
     Inr \<lparr>output_fact_type = f, output_producer = n\<rparr>))"

definition decode_plan :: "json \<Rightarrow> plan_graph result" where
  "decode_plan v =
     rbind (text_item v ''planId'') (\<lambda>i. rbind (text_item v ''goalId'') (\<lambda>g.
       rbind (text_item v ''executionMode'') (\<lambda>m. rbind (text_item v ''snapshotId'') (\<lambda>s.
         rbind (list_item v ''nodes'') (\<lambda>ns. rbind (mapM decode_node ns) (\<lambda>nodes.
           rbind (list_item v ''edges'') (\<lambda>es. rbind (mapM decode_edge es) (\<lambda>edges.
             rbind (texts_item v ''topologicalOrder'') (\<lambda>order.
               rbind (list_item v ''goalOutputs'') (\<lambda>os. rbind (mapM decode_output_ref os) (\<lambda>outputs.
                 Inr \<lparr>plan_id = i, plan_goal_id = g, plan_execution_mode = m, plan_snapshot_id = s, plan_nodes = nodes,
                      plan_edges = edges, topological_order = order, goal_outputs = outputs\<rparr>)))))))))))"

definition decode_plan_v2 :: "json \<Rightarrow> plan_graph_v2 result" where
  "decode_plan_v2 v =
     rbind (decode_plan v) (\<lambda>p. rbind (texts_item v ''readPartition'') (\<lambda>rs. rbind (texts_item v ''actionPartition'') (\<lambda>as.
       rbind (texts_item v ''projectionRef'') (\<lambda>ps. rbind (texts_item v ''ruleSetRefs'') (\<lambda>us.
         Inr (plan_graph.extend p \<lparr>read_partition = rs, action_partition = as, projection_ref = ps, ruleset_refs = us\<rparr>))))))"

section \<open>The validators on documents\<close>

definition after_shape ::
    "issue list \<times> json \<Rightarrow> (json \<Rightarrow> 'a result) \<Rightarrow> ('a \<Rightarrow> validation_report result option) \<Rightarrow> validation_report result option" where
  "after_shape shape decode checks =
     (if fst shape \<noteq> [] then Some (Inr \<lparr>report_valid = False, report_issues = canonical_issues (fst shape)\<rparr>)
      else (case decode (snd shape) of Inl e \<Rightarrow> Some (Inl e) | Inr x \<Rightarrow> checks x))"

definition validate_plan_document ::
    "(string \<Rightarrow> json \<Rightarrow> schema_error list) \<Rightarrow> typed_graph \<Rightarrow> registry_snapshot \<Rightarrow> json \<Rightarrow> json
     \<Rightarrow> validation_report result option" where
  "validate_plan_document iter_errors g snapshot goal plan =
     after_shape (validate_plan_shape iter_errors plan)
       (\<lambda>v. rbind (decode_plan v) (\<lambda>p. rbind (decode_goal goal) (\<lambda>d. Inr (p, d))))
       (\<lambda>(p, d). validate_plan_graph g snapshot d [] p)"

definition validate_plan_document_v2 ::
    "(string \<Rightarrow> json \<Rightarrow> schema_error list) \<Rightarrow> typed_graph \<Rightarrow> registry_snapshot \<Rightarrow> json \<Rightarrow> json
     \<Rightarrow> validation_report result option" where
  "validate_plan_document_v2 iter_errors g snapshot goal plan =
     after_shape (validate_plan_shape_v2 iter_errors plan)
       (\<lambda>v. rbind (decode_plan_v2 v) (\<lambda>p. rbind (decode_goal goal) (\<lambda>d. Inr (p, d))))
       (\<lambda>(p, d). validate_plan_graph_v2 g snapshot d [] p)"

definition validate_goal_document ::
    "(string \<Rightarrow> json \<Rightarrow> schema_error list) \<Rightarrow> typed_graph \<Rightarrow> json \<Rightarrow> goal_report result" where
  "validate_goal_document iter_errors g goal =
     (case validate_goal_shape iter_errors goal of (issues, normalized) \<Rightarrow>
        if issues \<noteq> [] then
          Inr \<lparr>goal_valid = False, goal_issues = canonical_issues issues, reachable_fact_types = [], capability_gaps = []\<rparr>
        else rbind (decode_goal normalized) (validate_goal_reachability g))"

end
