(* ===== verification/Dry_Run.thy ===== *)
theory Dry_Run
  imports Goal_Spec Compiler Plan_Shape
begin

text \<open>
  \<open>planner/plan_compiler.py\<close> and \<open>planner/handoff.py\<close>: the version 1 dry run, from a goal to a plan
  graph, its gaps and its governance flags.  Nodes are those of \<open>Compiler\<close>: the governance values are
  copied from the registry as they are.
\<close>

section \<open>Data\<close>

record gap =
  gap_kind :: string
  gap_detail :: string

record flag =
  flag_kind :: string
  flag_detail :: string

record drafted_plan =
  dp_id :: string
  dp_goal :: string
  dp_mode :: string
  dp_snapshot :: string
  dp_nodes :: "read_node list"
  dp_edges :: "plan_edge list"
  dp_order :: "string list"
  dp_outputs :: "goal_output list"

record dry_run_result =
  dry_plan :: drafted_plan
  dry_gaps :: "gap list"
  dry_flags :: "flag list"
  dry_rationale :: string

definition goal_output_json :: "goal_output \<Rightarrow> json" where
  "goal_output_json out = JObj [(''factTypeId'', JStr (output_fact_type out)), (''producerNodeId'', JStr (output_producer out))]"

definition drafted_fields :: "int \<Rightarrow> 'a drafted_plan_scheme \<Rightarrow> (string \<times> json) list" where
  "drafted_fields version p =
     [(''planGraphVersion'', JInt version), (''planId'', JStr (dp_id p)), (''goalId'', JStr (dp_goal p)),
      (''executionMode'', JStr (dp_mode p)), (''snapshotId'', JStr (dp_snapshot p)),
      (''nodes'', JList (map read_node_json (dp_nodes p))), (''edges'', JList (map data_edge_json (dp_edges p))),
      (''topologicalOrder'', JList (map JStr (dp_order p))),
      (''goalOutputs'', JList (map goal_output_json (dp_outputs p)))]"

definition drafted_plan_json :: "drafted_plan \<Rightarrow> json" where
  "drafted_plan_json p = JObj (drafted_fields 1 p)"

section \<open>Indexes and names\<close>

definition index_producers_by_fact_type :: "capability_card list \<Rightarrow> (string \<times> capability_card list) list" where
  "index_producers_by_fact_type cards =
     map (\<lambda>(fact_type, producers). (fact_type, sort_key card_id producers))
       (group_by (concat (map (\<lambda>c. map (\<lambda>fact_type. (fact_type, c)) (card_produces c)) cards)))"

definition index_raw_capabilities :: "source_documents \<Rightarrow> (string \<times> json) list" where
  "index_raw_capabilities docs =
     (case jget (capabilities_doc docs) ''capabilities'' of
        JList raws \<Rightarrow> dict_of (concat (map (\<lambda>raw.
          case jget raw ''capabilityId'' of JStr i \<Rightarrow> if i = [] then [] else [(i, raw)] | _ \<Rightarrow> []) raws))
      | _ \<Rightarrow> [])"

definition raw_of :: "(string \<times> json) list \<Rightarrow> string \<Rightarrow> json" where
  "raw_of raw i = (case map_of raw i of None \<Rightarrow> JObj [] | Some v \<Rightarrow> v)"

definition node_id_for :: "string \<Rightarrow> string" where
  "node_id_for i = ''node.'' @ i"

definition plan_id_for :: "planner_goal \<Rightarrow> string" where
  "plan_id_for goal = ''plan.dry-run.'' @ goal_id goal"

definition format_issues :: "issue list \<Rightarrow> string" where
  "format_issues issues =
     (case issues of
        [] \<Rightarrow> ''S1 validator reported no issues''
      | i # _ \<Rightarrow> issue_code i @ '' at '' @ issue_path i @ '': '' @ issue_message i)"

section \<open>Nodes\<close>

definition project_node_governance :: "json \<Rightarrow> (json \<times> json \<times> json \<times> json) result" where
  "project_node_governance raw =
     (let governance = (if truthy (jget raw ''governance'') then jget raw ''governance'' else JObj []) in
      rbind (get_attr governance ''sideEffect'' (JStr ''none'')) (\<lambda>e.
        Inr (jget_default raw ''kind'' (JStr ''Function''), e,
             jget_default governance ''requiresApproval'' (JBool False),
             jget_default governance ''approvalPolicy'' (JStr ''not_required''))))"

definition constraints_by_name :: "planner_goal \<Rightarrow> (string \<times> goal_constraint) list" where
  "constraints_by_name goal = dict_of (map (\<lambda>c. (constraint_name c, c)) (constraints goal))"

definition constraint_binding :: "planner_goal \<Rightarrow> input_descriptor \<Rightarrow> parameter_binding option" where
  "constraint_binding goal inp =
     (case map_of (constraints_by_name goal) (desc_name inp) of
        None \<Rightarrow> None
      | Some c \<Rightarrow>
          if desc_binding_kind inp = ''identifier'' \<and> constraint_semantic_type c = desc_semantic_type inp
          then Some \<lparr>parameter_name = desc_name inp, binding_source = GoalConstraint (constraint_name c)\<rparr> else None)"

definition node_with_bindings :: "capability_card \<Rightarrow> string \<Rightarrow> json \<Rightarrow> parameter_binding list \<Rightarrow> read_node result" where
  "node_with_bindings c i raw bs =
     rbind (project_node_governance raw) (\<lambda>(k, e, a, p).
       Inr \<lparr>rn_id = i, rn_capability = card_id c, rn_bindings = bs, rn_produces = sort (card_produces c),
            rn_kind = k, rn_side_effect = e, rn_requires_approval = a, rn_approval_policy = p\<rparr>)"

definition build_node :: "planner_goal \<Rightarrow> capability_card \<Rightarrow> string \<Rightarrow> json \<Rightarrow> read_node result" where
  "build_node goal c i raw =
     node_with_bindings c i raw (List.map_filter (constraint_binding goal) (filter desc_required (card_inputs c)))"

text \<open>
  The loop over the desired facts: the nodes (in the order of their ids in \<open>node_ids\<close>), the node of each
  capability and the node of each fact.  The version 2 compiler has the same loop with another builder.
\<close>

record authoring =
  au_nodes :: "read_node list"
  au_by_capability :: "(string \<times> string) list"
  au_by_fact :: "(string \<times> string) list"

definition author_fact ::
    "(capability_card \<Rightarrow> string \<Rightarrow> read_node result) \<Rightarrow> (string \<times> capability_card list) list \<Rightarrow> string \<Rightarrow> authoring
     \<Rightarrow> authoring result" where
  "author_fact build producers fact_type s =
     (case group_get producers fact_type of
        [] \<Rightarrow> Inr s
      | c # _ \<Rightarrow>
          (case map_of (au_by_capability s) (card_id c) of
             Some i \<Rightarrow> Inr (s\<lparr>au_by_fact := AList.update fact_type i (au_by_fact s)\<rparr>)
           | None \<Rightarrow>
               (let i = node_id_for (card_id c) in
                rbind (build c i) (\<lambda>node.
                  Inr \<lparr>au_nodes = au_nodes s @ [node], au_by_capability = au_by_capability s @ [(card_id c, i)],
                       au_by_fact = AList.update fact_type i (au_by_fact s)\<rparr>))))"

fun author_facts ::
    "(capability_card \<Rightarrow> string \<Rightarrow> read_node result) \<Rightarrow> (string \<times> capability_card list) list \<Rightarrow> string list \<Rightarrow> authoring
     \<Rightarrow> authoring result" where
  "author_facts build producers [] s = Inr s"
| "author_facts build producers (f # fs) s = rbind (author_fact build producers f s) (author_facts build producers fs)"

definition authoring_start :: authoring where
  "authoring_start = \<lparr>au_nodes = [], au_by_capability = [], au_by_fact = []\<rparr>"

definition outputs_of_facts :: "authoring \<Rightarrow> goal_output list" where
  "outputs_of_facts s = map (\<lambda>(f, i). \<lparr>output_fact_type = f, output_producer = i\<rparr>) (au_by_fact s)"

definition build_plan_graph ::
    "planner_goal \<Rightarrow> registry_snapshot \<Rightarrow> capability_card list \<Rightarrow> (string \<times> json) list \<Rightarrow> drafted_plan result" where
  "build_plan_graph goal snapshot cards raw =
     rbind (author_facts (\<lambda>c i. build_node goal c i (raw_of raw (card_id c)))
              (index_producers_by_fact_type cards) (desired_fact_types goal) authoring_start) (\<lambda>s.
       Inr \<lparr>dp_id = plan_id_for goal, dp_goal = goal_id goal, dp_mode = execution_mode goal,
            dp_snapshot = snapshot_id snapshot, dp_nodes = au_nodes s, dp_edges = [],
            dp_order = map rn_id (au_nodes s), dp_outputs = outputs_of_facts s\<rparr>)"

section \<open>Gaps and flags\<close>

definition missing_capability_gaps :: "planner_goal \<Rightarrow> capability_card list \<Rightarrow> gap list" where
  "missing_capability_gaps goal cards =
     concat (map (\<lambda>f. if \<exists>c \<in> set cards. f \<in> set (card_produces c) then []
        else [\<lparr>gap_kind = ''missing_capability'', gap_detail = f\<rparr>]) (desired_fact_types goal))"

definition missing_parameter_gaps :: "capability_card list \<Rightarrow> read_node \<Rightarrow> gap list" where
  "missing_parameter_gaps cards node =
     (case map_of (cards_by_id cards) (rn_capability node) of
        None \<Rightarrow> []
      | Some c \<Rightarrow> concat (map (\<lambda>inp.
          if desc_required inp \<and> desc_name inp \<notin> set (map parameter_name (rn_bindings node)) then
            [\<lparr>gap_kind = ''missing_parameter'', gap_detail = card_id c @ ''.'' @ desc_name inp\<rparr>]
          else []) (card_inputs c)))"

definition compute_gaps :: "planner_goal \<Rightarrow> capability_card list \<Rightarrow> read_node list \<Rightarrow> gap list" where
  "compute_gaps goal cards nodes =
     missing_capability_gaps goal cards @ concat (map (missing_parameter_gaps cards) nodes)"

definition write_side_effects :: "string list" where
  "write_side_effects = [''write'', ''sap_write'']"

definition node_flags :: "capability_card list \<Rightarrow> read_node \<Rightarrow> flag list" where
  "node_flags cards node =
     (case map_of (cards_by_id cards) (rn_capability node) of
        None \<Rightarrow> []
      | Some c \<Rightarrow>
          (if card_side_effect (card_governance_of c) \<in> set write_side_effects
           then [\<lparr>flag_kind = ''write_side_effect'', flag_detail = card_id c\<rparr>] else [])
          @ (if card_requires_approval (card_governance_of c)
             then [\<lparr>flag_kind = ''approval_required'', flag_detail = card_id c\<rparr>] else []))"

definition compute_governance_flags :: "read_node list \<Rightarrow> capability_card list \<Rightarrow> flag list" where
  "compute_governance_flags nodes cards = first_seen (concat (map (node_flags cards) nodes))"

section \<open>The dry run\<close>

definition counted :: "string \<Rightarrow> nat \<Rightarrow> string \<Rightarrow> string" where
  "counted before_text n after_text = before_text @ string_of_nat n @ after_text"

text \<open>The capability records the validator reads, from the graph the sources compile to.\<close>

definition checked_graph :: "source_documents \<Rightarrow> typed_graph result" where
  "checked_graph docs = rbind (compile_graph docs) typed_graph_of"

definition dry_run_outcome :: "validation_report \<Rightarrow> flag list \<Rightarrow> nat \<Rightarrow> nat \<Rightarrow> flag list \<times> string" where
  "dry_run_outcome report governance_flags n_nodes n_gaps =
     (if \<not> report_valid report then
        ([\<lparr>flag_kind = ''invalid_plan_graph'', flag_detail = format_issues (report_issues report)\<rparr>],
         counted ''S1 validator failed: '' (length (report_issues report)) '' issue(s); ''
         @ counted ''dry-run compiled '' n_nodes '' node(s), '' @ counted [] n_gaps '' gap(s), 1 flag(s)'')
      else
        (governance_flags,
         counted ''dry-run compiled '' n_nodes '' node(s), '' @ counted [] n_gaps '' gap(s), ''
         @ counted [] (length governance_flags) '' flag(s)''))"

definition compile_dry_run ::
    "(string \<Rightarrow> json \<Rightarrow> schema_error list) \<Rightarrow> planner_goal \<Rightarrow> registry_snapshot \<Rightarrow> source_documents
     \<Rightarrow> dry_run_result result option" where
  "compile_dry_run iter_errors goal snapshot docs =
     (case rbind (discover_cards snapshot docs) (\<lambda>cards.
             rbind (build_plan_graph goal snapshot cards (index_raw_capabilities docs)) (\<lambda>p.
               rbind (checked_graph docs) (\<lambda>g. Inr (cards, p, g)))) of
        Inl e \<Rightarrow> Some (Inl e)
      | Inr (cards, p, g) \<Rightarrow>
          map_option (\<lambda>report. rbind report (\<lambda>report.
            let gaps = compute_gaps goal cards (dp_nodes p);
                outcome = dry_run_outcome report (compute_governance_flags (dp_nodes p) cards) (length (dp_nodes p)) (length gaps)
            in Inr \<lparr>dry_plan = p, dry_gaps = gaps, dry_flags = fst outcome, dry_rationale = snd outcome\<rparr>))
            (validate_plan_document iter_errors g snapshot (goal_to_dict goal) (drafted_plan_json p)))"

section \<open>From a handoff\<close>

definition inputs_by_name :: "capability_card \<Rightarrow> (string \<times> input_descriptor) list" where
  "inputs_by_name c = dict_of (map (\<lambda>inp. (desc_name inp, inp)) (card_inputs c))"

text \<open>
  The constraints the parameters of the matched intents give, identifier inputs only: the first of each
  name and semantic type.
\<close>

definition intent_constraints :: "(string \<times> capability_card) list \<Rightarrow> matched_intent \<Rightarrow> goal_constraint list" where
  "intent_constraints by_id m =
     (case map_of by_id (intent_capability m) of
        None \<Rightarrow> []
      | Some c \<Rightarrow> concat (map (\<lambda>(n, v).
          case map_of (inputs_by_name c) n of
            None \<Rightarrow> []
          | Some inp \<Rightarrow>
              if desc_binding_kind inp \<noteq> ''identifier'' then []
              else [\<lparr>constraint_name = n, constraint_semantic_type = desc_semantic_type inp, constraint_value = JStr v\<rparr>])
          (intent_parameters m)))"

fun first_constraints :: "(string \<times> string) list \<Rightarrow> goal_constraint list \<Rightarrow> goal_constraint list" where
  "first_constraints seen [] = []"
| "first_constraints seen (c # cs) =
     (if (constraint_name c, constraint_semantic_type c) \<in> set seen then first_constraints seen cs
      else c # first_constraints ((constraint_name c, constraint_semantic_type c) # seen) cs)"

definition build_goal_with_constraints :: "escalation_handoff \<Rightarrow> capability_card list \<Rightarrow> planner_goal" where
  "build_goal_with_constraints handoff cards =
     (build_goal_spec handoff cards)
       \<lparr>constraints := first_constraints [] (concat (map (intent_constraints (cards_by_id cards)) (matched_intents handoff))),
        pulled_facts := []\<rparr>"

definition compile_dry_run_from_handoff ::
    "(string \<Rightarrow> json \<Rightarrow> schema_error list) \<Rightarrow> escalation_handoff \<Rightarrow> registry_snapshot \<Rightarrow> source_documents
     \<Rightarrow> dry_run_result result option" where
  "compile_dry_run_from_handoff iter_errors handoff snapshot docs =
     (case discover_cards snapshot docs of
        Inl e \<Rightarrow> Some (Inl e)
      | Inr cards \<Rightarrow> compile_dry_run iter_errors (build_goal_with_constraints handoff cards) snapshot docs)"

end
