(* ===== verification/Plan_Authoring.thy ===== *)
theory Plan_Authoring
  imports Dry_Run
begin

text \<open>
  \<open>planner/plan_compiler_v2.py\<close>: from a handoff to a version 2 plan with literal, constraint and fact
  sources, data and dependency edges, a topological order and the two partitions.

  The names of outputs are texts, as the capability schema demands; another truthy name raises here.
\<close>

section \<open>Data\<close>

record drafted_plan_v2 = drafted_plan +
  dp_read :: "string list"
  dp_action :: "string list"

record plan_compile_result =
  pc_plan :: drafted_plan_v2
  pc_gaps :: "gap list"
  pc_flags :: "flag list"
  pc_projection_ref :: "string list"
  pc_rule_set_refs :: "string list"
  pc_snapshot :: string
  pc_rationale :: string

definition drafted_plan_v2_json :: "drafted_plan_v2 \<Rightarrow> json" where
  "drafted_plan_v2_json p = JObj (drafted_fields 2 p
     @ [(''readPartition'', JList (map JStr (dp_read p))), (''actionPartition'', JList (map JStr (dp_action p))),
        (''projectionRef'', JList []), (''ruleSetRefs'', JList [])])"

section \<open>The goal\<close>

definition ambiguous_producer_fact_types :: "planner_goal \<Rightarrow> capability_card list \<Rightarrow> (string \<times> string list) list" where
  "ambiguous_producer_fact_types goal cards =
     (let producers = index_producers_by_fact_type cards in
      dict_of (concat (map (\<lambda>f. if length (group_get producers f) > 1
                                then [(f, map card_id (group_get producers f))] else []) (desired_fact_types goal))))"

text \<open>The capabilities whose matched intents have an identifier parameter of a name.\<close>

definition intent_identifiers :: "(string \<times> capability_card) list \<Rightarrow> matched_intent \<Rightarrow> (string \<times> string) list" where
  "intent_identifiers by_id m =
     map (\<lambda>c. (constraint_name c, intent_capability m)) (intent_constraints by_id m)"

definition parameter_capabilities :: "(string \<times> capability_card) list \<Rightarrow> matched_intent list \<Rightarrow> string \<Rightarrow> string list" where
  "parameter_capabilities by_id ms n = remdups (group_get (group_by (concat (map (intent_identifiers by_id) ms))) n)"

definition build_goal_v2 :: "escalation_handoff \<Rightarrow> capability_card list \<Rightarrow> planner_goal" where
  "build_goal_v2 handoff cards =
     (let by_id = cards_by_id cards; ms = matched_intents handoff in
      (build_goal_spec handoff cards)
        \<lparr>constraints := first_constraints []
             (filter (\<lambda>c. 2 \<le> length (parameter_capabilities by_id ms (constraint_name c)))
                (concat (map (intent_constraints by_id) ms))),
         pulled_facts := []\<rparr>)"

section \<open>Nodes\<close>

definition parameters_of_capability :: "escalation_handoff \<Rightarrow> string \<Rightarrow> (string \<times> string) list" where
  "parameters_of_capability handoff i =
     dict_of (concat (map intent_parameters (filter (\<lambda>m. intent_capability m = i) (matched_intents handoff))))"

definition binding_v2 :: "planner_goal \<Rightarrow> (string \<times> string) list \<Rightarrow> input_descriptor \<Rightarrow> parameter_binding option" where
  "binding_v2 goal params inp =
     (case constraint_binding goal inp of
        Some b \<Rightarrow> Some b
      | None \<Rightarrow>
          (case map_of params (desc_name inp) of
             None \<Rightarrow> None
           | Some v \<Rightarrow>
               if desc_binding_kind inp = ''identifier'' \<and> map_of (constraints_by_name goal) (desc_name inp) = None
               then Some \<lparr>parameter_name = desc_name inp, binding_source = Literal (desc_semantic_type inp) (JStr v)\<rparr>
               else None))"

definition build_node_v2 :: "planner_goal \<Rightarrow> (string \<times> string) list \<Rightarrow> capability_card \<Rightarrow> string \<Rightarrow> json \<Rightarrow> read_node result" where
  "build_node_v2 goal params c i raw =
     node_with_bindings c i raw (List.map_filter (binding_v2 goal params) (card_inputs c))"

text \<open>The loop over the facts leaves out those with several producers.\<close>

definition unambiguous_facts :: "planner_goal \<Rightarrow> capability_card list \<Rightarrow> string list" where
  "unambiguous_facts goal cards =
     filter (\<lambda>f. map_of (ambiguous_producer_fact_types goal cards) f = None) (desired_fact_types goal)"

definition author_nodes_v2 ::
    "planner_goal \<Rightarrow> capability_card list \<Rightarrow> (string \<times> json) list \<Rightarrow> escalation_handoff \<Rightarrow> authoring result" where
  "author_nodes_v2 goal cards raw handoff =
     author_facts (\<lambda>c i. build_node_v2 goal (parameters_of_capability handoff (card_id c)) c i (raw_of raw (card_id c)))
       (index_producers_by_fact_type cards) (unambiguous_facts goal cards) authoring_start"

section \<open>Fact sources and data edges\<close>

definition text_or_raise :: "json \<Rightarrow> string result" where
  "text_or_raise v = (case v of JStr s \<Rightarrow> Inr s | _ \<Rightarrow> Inl (TypeError ''string expected''))"

definition matching_output :: "string \<Rightarrow> json \<Rightarrow> json list result" where
  "matching_output fact_type output =
     rbind (get_attr output ''factTypeRef'' JNull) (\<lambda>ref.
       Inr (if ref = JStr fact_type \<and> truthy (jget output ''name'') then [output] else []))"

definition fact_field_for_input :: "json \<Rightarrow> string \<Rightarrow> string \<Rightarrow> string \<Rightarrow> string result" where
  "fact_field_for_input producer_raw fact_type semantic_type kind =
     rbind (py_iter (jget_default producer_raw ''outputs'' (JList []))) (\<lambda>outputs.
       rbind (collectM (matching_output fact_type) outputs) (\<lambda>matching.
         let found = (if kind = ''identifier''
                      then filter (\<lambda>output. jget output ''semanticType'' = JStr semantic_type) matching else matching) in
         case found of [] \<Rightarrow> Inr [] | output # _ \<Rightarrow> text_or_raise (jget output ''name'')))"

definition diagnosed_consumer_inputs :: "source_documents \<Rightarrow> (string \<times> string) list" where
  "diagnosed_consumer_inputs docs =
     (case derive_data_dependencies docs of
        Inl _ \<Rightarrow> []
      | Inr view \<Rightarrow> map (\<lambda>d. (diag_consumer d, diag_input d)) (view_diagnostics view))"

definition user_supplied :: "parameter_source \<Rightarrow> bool" where
  "user_supplied src = (case src of GoalConstraint _ \<Rightarrow> True | Literal _ _ \<Rightarrow> True | _ \<Rightarrow> False)"

definition node_capability_of :: "read_node list \<Rightarrow> string \<Rightarrow> string result" where
  "node_capability_of nodes i =
     (case find (\<lambda>n. rn_id n = i) nodes of None \<Rightarrow> Inl StopIteration | Some n \<Rightarrow> Inr (rn_capability n))"

text \<open>The producer node of an input, if the pass authors a fact source for it.\<close>

definition wired_producer ::
    "(string \<times> string) list \<Rightarrow> (string \<times> string) list \<Rightarrow> read_node \<Rightarrow> input_descriptor \<Rightarrow> (string \<times> string) option" where
  "wired_producer by_fact diagnosed node inp =
     (case desc_satisfiable_by inp of
        None \<Rightarrow> None
      | Some f \<Rightarrow>
          if f = [] \<or> \<not> desc_required inp
             \<or> (\<exists>b \<in> set (rn_bindings node). user_supplied (binding_source b) \<and> parameter_name b = desc_name inp)
             \<or> (rn_capability node, desc_name inp) \<in> set diagnosed then None
          else (case map_of by_fact f of
              None \<Rightarrow> None
            | Some p \<Rightarrow> if p = rn_id node then None else Some (f, p)))"

definition edge_data_key :: "plan_edge \<Rightarrow> data_key option" where
  "edge_data_key e = (case e of DataEdge _ a b f \<Rightarrow> Some (a, b, f) | DependencyEdge _ _ _ \<Rightarrow> None)"

definition add_data_edge :: "string \<Rightarrow> string \<Rightarrow> string \<Rightarrow> plan_edge list \<Rightarrow> plan_edge list" where
  "add_data_edge a b f es =
     (if Some (a, b, f) \<in> set (map edge_data_key es) then es
      else es @ [DataEdge (''edge.data.'' @ string_of_nat (length es)) a b f])"

text \<open>One input of a node: the sources the node got and the edges authored so far.\<close>

fun wire_inputs ::
    "read_node list \<Rightarrow> (string \<times> json) list \<Rightarrow> (string \<times> string) list \<Rightarrow> (string \<times> string) list \<Rightarrow> read_node
     \<Rightarrow> input_descriptor list \<Rightarrow> parameter_binding list \<times> plan_edge list \<Rightarrow> (parameter_binding list \<times> plan_edge list) result" where
  "wire_inputs nodes raw by_fact diagnosed node [] (bs, es) = Inr (bs, es)"
| "wire_inputs nodes raw by_fact diagnosed node (inp # inps) (bs, es) =
     (case wired_producer by_fact diagnosed node inp of
        None \<Rightarrow> wire_inputs nodes raw by_fact diagnosed node inps (bs, es)
      | Some (f, p) \<Rightarrow>
          rbind (node_capability_of nodes p) (\<lambda>cap.
            rbind (fact_field_for_input (raw_of raw cap) f (desc_semantic_type inp) (desc_binding_kind inp)) (\<lambda>field.
              wire_inputs nodes raw by_fact diagnosed node inps
                (bs @ [\<lparr>parameter_name = desc_name inp, binding_source = FactField p f field\<rparr>],
                 add_data_edge p (rn_id node) f es))))"

fun wire_nodes ::
    "read_node list \<Rightarrow> (string \<times> capability_card) list \<Rightarrow> (string \<times> json) list \<Rightarrow> (string \<times> string) list
     \<Rightarrow> (string \<times> string) list \<Rightarrow> read_node list \<Rightarrow> read_node list \<times> plan_edge list \<Rightarrow> (read_node list \<times> plan_edge list) result" where
  "wire_nodes nodes by_id raw by_fact diagnosed [] (wired, es) = Inr (wired, es)"
| "wire_nodes nodes by_id raw by_fact diagnosed (node # rest) (wired, es) =
     (case map_of by_id (rn_capability node) of
        None \<Rightarrow> wire_nodes nodes by_id raw by_fact diagnosed rest (wired @ [node], es)
      | Some c \<Rightarrow>
          rbind (wire_inputs nodes raw by_fact diagnosed node (card_inputs c) ([], es)) (\<lambda>(bs, es').
            wire_nodes nodes by_id raw by_fact diagnosed rest (wired @ [node\<lparr>rn_bindings := rn_bindings node @ bs\<rparr>], es')))"

section \<open>Keys of pulled producers\<close>

definition keyed_by_of :: "string \<Rightarrow> json list \<Rightarrow> json result" where
  "keyed_by_of fact_type_id fact_types =
     rbind (mapM (\<lambda>f. rbind (get_attr f ''factTypeId'' JNull) (\<lambda>i. Inr (i, f)))
              (takeWhile (\<lambda>f. \<not> (is_mapping f \<and> jget f ''factTypeId'' = JStr fact_type_id)) fact_types)) (\<lambda>_.
       case find (\<lambda>f. is_mapping f \<and> jget f ''factTypeId'' = JStr fact_type_id) fact_types of
         None \<Rightarrow> Inr (JList [])
       | Some f \<Rightarrow> Inr (if truthy (jget f ''keyedBy'') then jget f ''keyedBy'' else JList []))"

definition keyed_by_semantic_types :: "source_documents \<Rightarrow> string \<Rightarrow> string list result" where
  "keyed_by_semantic_types docs fact_type_id =
     rbind (get_attr (fact_types_doc docs) ''factTypes'' (JList [])) (\<lambda>raw.
       rbind (py_iter (if truthy raw then raw else JList [])) (\<lambda>fact_types.
         rbind (keyed_by_of fact_type_id fact_types) (\<lambda>keys. rbind (py_iter keys) (\<lambda>ks.
           if list_all frozen_hashable ks then Inr (concat (map (\<lambda>k. case k of JStr s \<Rightarrow> [s] | _ \<Rightarrow> []) ks))
           else Inl (TypeError ''unhashable type'')))))"

definition supplied_sources :: "capability_card \<Rightarrow> read_node \<Rightarrow> (string \<times> parameter_source) list" where
  "supplied_sources consumer_card consumer =
     (let consumer_types = dict_of (map (\<lambda>inp. (desc_name inp, desc_semantic_type inp)) (card_inputs consumer_card)) in
      fold (\<lambda>(t, src). setdefault t src) (concat (map (\<lambda>b.
        if \<not> user_supplied (binding_source b) then []
        else (case map_of consumer_types (parameter_name b) of None \<Rightarrow> [] | Some t \<Rightarrow> [(t, binding_source b)]))
        (rn_bindings consumer))) [])"

definition propagated_bindings ::
    "capability_card \<Rightarrow> read_node \<Rightarrow> string list \<Rightarrow> (string \<times> parameter_source) list \<Rightarrow> parameter_binding list" where
  "propagated_bindings producer_card producer keyed_by supplied =
     concat (map (\<lambda>inp.
       if \<not> desc_required inp \<or> desc_name inp \<in> set (map parameter_name (rn_bindings producer))
          \<or> desc_semantic_type inp \<notin> set keyed_by then []
       else (case map_of supplied (desc_semantic_type inp) of
           None \<Rightarrow> []
         | Some src \<Rightarrow> [\<lparr>parameter_name = desc_name inp, binding_source = src\<rparr>])) (card_inputs producer_card))"

text \<open>\<open>nodes_by_id\<close> aliases the nodes: the node of an id is the last of the list with it.\<close>

definition node_of_id :: "read_node list \<Rightarrow> string \<Rightarrow> read_node option" where
  "node_of_id nodes i = find (\<lambda>n. rn_id n = i) (rev nodes)"

definition append_bindings :: "string \<Rightarrow> parameter_binding list \<Rightarrow> read_node list \<Rightarrow> read_node list" where
  "append_bindings i bs nodes =
     map (\<lambda>n. if rn_id n = i then n\<lparr>rn_bindings := rn_bindings n @ bs\<rparr> else n) nodes"

definition propagate_edge ::
    "(string \<times> capability_card) list \<Rightarrow> source_documents \<Rightarrow> plan_edge \<Rightarrow> read_node list \<Rightarrow> read_node list result" where
  "propagate_edge by_id docs e nodes =
     (case (node_of_id nodes (from_node e), node_of_id nodes (to_node e), e) of
        (Some producer, Some consumer, DataEdge _ _ _ fact_type) \<Rightarrow>
          (case map_of by_id (rn_capability producer) of
             None \<Rightarrow> Inr nodes
           | Some producer_card \<Rightarrow>
               rbind (keyed_by_semantic_types docs fact_type) (\<lambda>keyed_by.
                 case map_of by_id (rn_capability consumer) of
                   None \<Rightarrow> Inr nodes
                 | Some consumer_card \<Rightarrow>
                     if keyed_by = [] then Inr nodes
                     else Inr (append_bindings (rn_id producer)
                       (propagated_bindings producer_card producer keyed_by (supplied_sources consumer_card consumer)) nodes)))
      | _ \<Rightarrow> Inr nodes)"

fun propagate_keys_to_pulled_producers ::
    "(string \<times> capability_card) list \<Rightarrow> source_documents \<Rightarrow> plan_edge list \<Rightarrow> read_node list \<Rightarrow> read_node list result" where
  "propagate_keys_to_pulled_producers by_id docs [] nodes = Inr nodes"
| "propagate_keys_to_pulled_producers by_id docs (e # es) nodes =
     rbind (propagate_edge by_id docs e nodes) (propagate_keys_to_pulled_producers by_id docs es)"

section \<open>Dependency edges\<close>

definition dependency_pair :: "(string \<times> string) list \<Rightarrow> json \<Rightarrow> (string \<times> string) list result" where
  "dependency_pair cap_to_node relation =
     rbind (get_attr relation ''relationType'' JNull) (\<lambda>t.
       if t \<noteq> JStr ''dependsOn'' then Inr []
       else (let dependent = jget relation ''capabilityId''; prerequisite = jget relation ''dependsOnCapabilityId'' in
         rbind (frozen_member dependent (map fst cap_to_node)) (\<lambda>known.
           if \<not> known then Inr []
           else rbind (frozen_member prerequisite (map fst cap_to_node)) (\<lambda>known.
             case (dependent, prerequisite) of
               (JStr d, JStr p) \<Rightarrow>
                 (case (map_of cap_to_node p, map_of cap_to_node d) of
                    (Some a, Some b) \<Rightarrow> Inr [(a, b)]
                  | _ \<Rightarrow> Inr [])
             | _ \<Rightarrow> Inr []))))"

definition dependency_edges_of :: "source_documents \<Rightarrow> read_node list \<Rightarrow> nat \<Rightarrow> plan_edge list result" where
  "dependency_edges_of docs nodes edge_counter =
     (let cap_to_node = dict_of (map (\<lambda>n. (rn_capability n, rn_id n)) nodes) in
      rbind (get_attr (relations_doc docs) ''relations'' (JList [])) (\<lambda>raw. rbind (py_iter raw) (\<lambda>relations.
        rbind (collectM (dependency_pair cap_to_node) relations) (\<lambda>pairs.
          Inr (map (\<lambda>(k, a, b). DependencyEdge (''edge.dep.'' @ string_of_nat (edge_counter + k)) a b)
                 (enumerate_list pairs))))))"

section \<open>Topological order\<close>

text \<open>Kahn's algorithm; among the ready nodes the smallest id comes first.\<close>

type_synonym degrees = "(string \<times> int) list"

definition inner_edges :: "string list \<Rightarrow> plan_edge list \<Rightarrow> (string \<times> string) list" where
  "inner_edges ids es =
     filter (\<lambda>(a, b). a \<in> set ids \<and> b \<in> set ids) (map (\<lambda>e. (from_node e, to_node e)) es)"

definition initial_degrees :: "string list \<Rightarrow> (string \<times> string) list \<Rightarrow> degrees" where
  "initial_degrees ids pairs = map (\<lambda>i. (i, int (length (filter (\<lambda>(a, b). b = i) pairs)))) ids"

definition successors_of :: "(string \<times> string) list \<Rightarrow> string \<Rightarrow> string list" where
  "successors_of pairs i = map snd (filter (\<lambda>(a, b). a = i) pairs)"

fun relax :: "string list \<Rightarrow> degrees \<times> string list \<Rightarrow> degrees \<times> string list" where
  "relax [] (deg, ready) = (deg, ready)"
| "relax (n # ns) (deg, ready) =
     (case map_of deg n of
        None \<Rightarrow> relax ns (deg, ready)
      | Some d \<Rightarrow> relax ns (AList.update n (d - 1) deg, if d - 1 = 0 then ready @ [n] else ready))"

definition waiting :: "degrees \<Rightarrow> nat" where
  "waiting deg = length (filter (\<lambda>(_, d). 0 < d) deg)"

lemma waiting_update:
  "map_of deg n = Some d \<Longrightarrow> waiting (AList.update n (d - 1) deg) + (if d = 1 then 1 else 0) = waiting deg"
  by (induction deg) (auto simp: waiting_def)

lemma relax_waiting: "waiting (fst (relax ns (deg, ready))) + length (snd (relax ns (deg, ready))) = waiting deg + length ready"
proof (induction ns arbitrary: deg ready)
  case (Cons n ns)
  show ?case
  proof (cases "map_of deg n")
    case (Some d)
    with waiting_update [OF Some] show ?thesis
      by (simp add: Cons [of "AList.update n (d - 1) deg"] split: if_splits)
  qed (simp add: Cons)
qed simp

function kahn_loop :: "(string \<times> string) list \<Rightarrow> degrees \<Rightarrow> string list \<Rightarrow> string list \<Rightarrow> string list" where
  "kahn_loop pairs deg [] order = order"
| "kahn_loop pairs deg (n # ready) order =
     kahn_loop pairs (fst (relax (successors_of pairs n) (deg, ready)))
       (sort (snd (relax (successors_of pairs n) (deg, ready)))) (order @ [n])"
  by pat_completeness auto
termination
  by (relation "measure (\<lambda>(_, deg, ready, _). waiting deg + length ready)") (simp_all add: relax_waiting)

definition kahn_order :: "string list \<Rightarrow> plan_edge list \<Rightarrow> string list" where
  "kahn_order ids es =
     (if es = [] then ids
      else (let pairs = inner_edges ids es; deg = initial_degrees ids pairs;
                result = kahn_loop pairs deg (sort (filter (\<lambda>i. map_of deg i = Some 0) ids)) []
            in result @ (if length result < length ids then sort (filter (\<lambda>i. i \<notin> set result) ids) else [])))"

section \<open>Partitions\<close>

definition raw_read_only :: "json \<Rightarrow> bool result" where
  "raw_read_only raw =
     (let governance = jget_default raw ''governance'' (JObj []) in
      if jget_default raw ''kind'' (JStr ''Function'') \<noteq> JStr ''Function'' then Inr False
      else rbind (jitem governance ''sideEffect'') (\<lambda>e.
        if e \<noteq> JStr ''none'' then Inr False
        else rbind (jitem governance ''requiresApproval'') (\<lambda>a.
          if a \<noteq> JBool False then Inr False
          else rbind (jitem governance ''approvalPolicy'') (\<lambda>p. Inr (p = JStr ''not_required'')))))"

fun partition_nodes :: "read_node list \<Rightarrow> (string \<times> json) list \<Rightarrow> string list \<Rightarrow> (string list \<times> string list) result" where
  "partition_nodes nodes raw [] = Inr ([], [])"
| "partition_nodes nodes raw (i # order) =
     (case node_of_id nodes i of
        None \<Rightarrow> partition_nodes nodes raw order
      | Some n \<Rightarrow>
          rbind (raw_read_only (raw_of raw (rn_capability n))) (\<lambda>reads.
            rbind (partition_nodes nodes raw order) (\<lambda>(rs, as).
              Inr (if reads then (i # rs, as) else (rs, i # as)))))"

section \<open>The plan\<close>

definition build_plan_graph_v2 ::
    "planner_goal \<Rightarrow> registry_snapshot \<Rightarrow> capability_card list \<Rightarrow> (string \<times> json) list \<Rightarrow> escalation_handoff
     \<Rightarrow> source_documents \<Rightarrow> drafted_plan_v2 result" where
  "build_plan_graph_v2 goal snapshot cards raw handoff docs =
     rbind (author_nodes_v2 goal cards raw handoff) (\<lambda>s.
       let by_id = cards_by_id cards in
       rbind (wire_nodes (au_nodes s) by_id raw (au_by_fact s) (diagnosed_consumer_inputs docs) (au_nodes s) ([], [])) (\<lambda>(wired, data_edges).
         rbind (propagate_keys_to_pulled_producers by_id docs data_edges wired) (\<lambda>nodes.
           rbind (dependency_edges_of docs nodes (length data_edges)) (\<lambda>dependency_edges.
             let es = data_edges @ dependency_edges; order = kahn_order (map rn_id nodes) es in
             rbind (partition_nodes nodes raw order) (\<lambda>(rs, as).
               Inr \<lparr>dp_id = plan_id_for goal, dp_goal = goal_id goal, dp_mode = execution_mode goal,
                    dp_snapshot = snapshot_id snapshot, dp_nodes = nodes, dp_edges = es, dp_order = order,
                    dp_outputs = outputs_of_facts s, dp_read = rs, dp_action = as\<rparr>)))))"

section \<open>Gaps\<close>

definition ambiguous_producer_gaps :: "planner_goal \<Rightarrow> capability_card list \<Rightarrow> gap list" where
  "ambiguous_producer_gaps goal cards =
     map (\<lambda>(f, candidates). \<lparr>gap_kind = ''ambiguous_producer'',
        gap_detail = f @ '': '' @ string_of_nat (length candidates) @ '' active producers ('' @ join '', '' candidates
          @ ''); registry must disambiguate''\<rparr>)
       (sort_key fst (ambiguous_producer_fact_types goal cards))"

definition diagnostic_gap :: "diagnostic \<Rightarrow> gap" where
  "diagnostic_gap d = \<lparr>gap_kind = diag_kind d,
     gap_detail = diag_consumer d @ ''.'' @ diag_input d @ '': '' @ diag_candidate_kind d @ '' candidates (''
       @ join '', '' (diag_candidates d) @ '') for '' @ diag_fact_type d @ '' / '' @ diag_semantic_type d\<rparr>"

definition derivation_diagnostic_gaps :: "source_documents \<Rightarrow> read_node list \<Rightarrow> gap list" where
  "derivation_diagnostic_gaps docs nodes =
     (let ids = map rn_capability nodes in
      if ids = [] then []
      else (case derive_data_dependencies docs of
          Inl _ \<Rightarrow> []
        | Inr view \<Rightarrow> map diagnostic_gap (filter (\<lambda>d. diag_consumer d \<in> set ids) (view_diagnostics view))))"

definition plan_gaps_v2 :: "planner_goal \<Rightarrow> capability_card list \<Rightarrow> source_documents \<Rightarrow> read_node list \<Rightarrow> gap list" where
  "plan_gaps_v2 goal cards docs nodes =
     compute_gaps goal cards nodes @ ambiguous_producer_gaps goal cards @ derivation_diagnostic_gaps docs nodes"

section \<open>Compiling\<close>

definition compile_outcome_v2 :: "validation_report \<Rightarrow> flag list \<Rightarrow> nat \<Rightarrow> nat \<Rightarrow> flag list \<times> string" where
  "compile_outcome_v2 report governance_flags n_nodes n_gaps =
     (if \<not> report_valid report then
        ([\<lparr>flag_kind = ''invalid_plan_graph'', flag_detail = format_issues (report_issues report)\<rparr>],
         counted ''v2 validator failed: '' (length (report_issues report)) '' issue(s); ''
         @ counted ''compiled '' n_nodes '' node(s), '' @ counted [] n_gaps '' gap(s), 1 flag(s)'')
      else
        (governance_flags,
         counted ''v2 dry-run compiled '' n_nodes '' node(s), '' @ counted [] n_gaps '' gap(s), ''
         @ counted [] (length governance_flags) '' flag(s)''))"

definition snapshot_drift :: "escalation_handoff \<Rightarrow> registry_snapshot \<Rightarrow> py_error" where
  "snapshot_drift handoff snapshot = Refused ''PlannerFailure.SNAPSHOT_DRIFT''
     (''snapshot drift: handoff='' @ handoff_snapshot handoff @ '' != snapshot='' @ snapshot_id snapshot)"

text \<open>What the compiler has before the validator runs.\<close>

definition draft_plan_v2 ::
    "escalation_handoff \<Rightarrow> registry_snapshot \<Rightarrow> source_documents
     \<Rightarrow> (capability_card list \<times> planner_goal \<times> drafted_plan_v2 \<times> typed_graph) result" where
  "draft_plan_v2 handoff snapshot docs =
     (if handoff_snapshot handoff \<noteq> snapshot_id snapshot then Inl (snapshot_drift handoff snapshot)
      else rbind (discover_cards snapshot docs) (\<lambda>cards.
        let goal = build_goal_v2 handoff cards in
        rbind (build_plan_graph_v2 goal snapshot cards (index_raw_capabilities docs) handoff docs) (\<lambda>p.
          rbind (checked_graph docs) (\<lambda>g. Inr (cards, goal, p, g)))))"

definition compile_plan_v2 ::
    "(string \<Rightarrow> json \<Rightarrow> schema_error list) \<Rightarrow> escalation_handoff \<Rightarrow> registry_snapshot \<Rightarrow> source_documents
     \<Rightarrow> plan_compile_result result option" where
  "compile_plan_v2 iter_errors handoff snapshot docs =
     (case draft_plan_v2 handoff snapshot docs of
        Inl e \<Rightarrow> Some (Inl e)
      | Inr (cards, goal, p, g) \<Rightarrow>
          map_option (\<lambda>report. rbind report (\<lambda>report.
            let gaps = plan_gaps_v2 goal cards docs (dp_nodes p);
                outcome = compile_outcome_v2 report (compute_governance_flags (dp_nodes p) cards) (length (dp_nodes p)) (length gaps)
            in Inr \<lparr>pc_plan = p, pc_gaps = gaps, pc_flags = fst outcome, pc_projection_ref = [], pc_rule_set_refs = [],
                    pc_snapshot = snapshot_id snapshot, pc_rationale = snd outcome\<rparr>))
            (validate_plan_document_v2 iter_errors g snapshot (goal_to_dict goal) (drafted_plan_v2_json p)))"

end
