(* ===== verification/Dag_Marks.thy ===== *)
theory Dag_Marks
  imports Compiler
begin

text \<open>
  Marks of a depth-first search, 0 for new (white), 1 for on the path (grey) and 2 for finished (black):
  what the searches over the analysis nodes share.  A nested visit turns one white node grey, so a depth of
  one more than the number of nodes is enough.
\<close>

definition white_ids :: "string list \<Rightarrow> dag_state \<Rightarrow> nat" where
  "white_ids ids s = card {i \<in> set ids. mark_of s i \<notin> {1, 2}}"

lemma mark_of_set_mark [simp]: "mark_of (set_mark i m s) j = (if j = i then m else mark_of s j)"
  by (simp add: mark_of_def set_mark_def update_conv)

lemma dag_planned_set_mark [simp]: "dag_planned (set_mark i m s) = dag_planned s"
  by (simp add: set_mark_def)

definition darker :: "dag_state \<Rightarrow> dag_state \<Rightarrow> bool" where
  "darker s s' \<longleftrightarrow> (\<forall>i. mark_of s i \<in> {1, 2} \<longrightarrow> mark_of s' i \<in> {1, 2})"

lemma darker_refl [simp]: "darker s s" by (simp add: darker_def)
lemma darker_trans: "darker s s' \<Longrightarrow> darker s' s'' \<Longrightarrow> darker s s''" by (auto simp: darker_def)
lemma darker_set_mark: "m \<in> {1, 2} \<Longrightarrow> darker s (set_mark i m s)" by (auto simp: darker_def)

lemma white_ids_darker: "darker s s' \<Longrightarrow> white_ids ids s' \<le> white_ids ids s"
  unfolding white_ids_def darker_def by (intro card_mono) auto

lemma white_ids_mark:
  assumes "i \<in> set ids" and "mark_of s i \<notin> {1, 2}"
  shows "Suc (white_ids ids (set_mark i 1 s)) = white_ids ids s"
proof -
  have "{j \<in> set ids. mark_of s j \<notin> {1, 2}} = insert i {j \<in> set ids. mark_of (set_mark i 1 s) j \<notin> {1, 2}}"
    using assms by auto
  then show ?thesis by (simp add: white_ids_def)
qed

lemma white_ids_le: "white_ids ids s \<le> length ids"
proof -
  have "white_ids ids s \<le> card (set ids)" unfolding white_ids_def by (rule card_mono) auto
  also have "\<dots> \<le> length ids" by (rule card_length)
  finally show ?thesis .
qed

end
