(* ===== verification/Resolver_Correctness.thy ===== *)
theory Resolver_Correctness
  imports Resolver
begin

text \<open>
  What the resolver computes.  The worklist of \<open>close_inputs\<close> ends and yields the least set of
  capabilities that holds the producers of the requested facts and, with each consumer, the producers of
  its derived inputs, whatever order the set is iterated in.  A complete resolution reads through visible,
  read-only capabilities only and leaves no required input open.
\<close>

section \<open>The worklist\<close>

definition binds :: "edge_outcome list \<Rightarrow> closure_binding list" where
  "binds os = concat (map (\<lambda>x. case x of Bind b \<Rightarrow> [b] | _ \<Rightarrow> []) os)"

definition note_texts :: "edge_outcome list \<Rightarrow> string list" where
  "note_texts os = concat (map (\<lambda>x. case x of Note n \<Rightarrow> [n] | _ \<Rightarrow> []) os)"

lemma binds_simps [simp]: "binds [] = []" "binds (Skip # os) = binds os" "binds (Note n # os) = binds os"
  "binds (Bind b # os) = b # binds os"
  by (simp_all add: binds_def)

lemma note_texts_simps [simp]: "note_texts [] = []" "note_texts (Skip # os) = note_texts os"
  "note_texts (Note n # os) = n # note_texts os" "note_texts (Bind b # os) = note_texts os"
  by (simp_all add: note_texts_def)

lemma binds_mem [simp]: "b \<in> set (binds os) \<longleftrightarrow> Bind b \<in> set os"
  by (force simp: binds_def split: edge_outcome.splits)

text \<open>One consumer: the new producers are pushed, everything else is recorded.\<close>

lemma apply_outcomes:
  "\<exists>new. planned (fold apply_outcome os s) = new @ planned s
     \<and> worklist (fold apply_outcome os s) = new @ worklist s
     \<and> auto_pulled (fold apply_outcome os s) = new @ auto_pulled s
     \<and> distinct new \<and> set new = bound_producer ` set (binds os) - set (planned s)
     \<and> set (bindings (fold apply_outcome os s)) = set (bindings s) \<union> set (binds os)
     \<and> closure_notes (fold apply_outcome os s) = closure_notes s @ note_texts os"
proof (induction os arbitrary: s)
  case (Cons x os)
  show ?case
  proof (cases x)
    case (Bind b)
    show ?thesis
    proof (cases "bound_producer b \<in> set (planned s)")
      case True
      with Cons [of "s\<lparr>bindings := List.insert b (bindings s)\<rparr>"] Bind show ?thesis
        by (auto simp: Let_def)
    next
      case False
      let ?p = "bound_producer b"
      from Cons [of "apply_outcome x s"] Bind False obtain new where
        new: "planned (fold apply_outcome (x # os) s) = new @ ?p # planned s"
          "worklist (fold apply_outcome (x # os) s) = new @ ?p # worklist s"
          "auto_pulled (fold apply_outcome (x # os) s) = new @ ?p # auto_pulled s"
          "distinct new" "set new = bound_producer ` set (binds os) - insert ?p (set (planned s))"
          "set (bindings (fold apply_outcome (x # os) s)) = set (List.insert b (bindings s)) \<union> set (binds os)"
          "closure_notes (fold apply_outcome (x # os) s) = closure_notes s @ note_texts os"
        by (auto simp: Let_def)
      then show ?thesis
        using Bind False by (intro exI [of _ "new @ [?p]"]) auto
    qed
  next
    case (Note n)
    with Cons [of "s\<lparr>closure_notes := closure_notes s @ [n]\<rparr>"] show ?thesis by simp
  next
    case Skip
    with Cons [of s] show ?thesis by simp
  qed
qed simp

locale worklist_closure =
  fixes outcomes :: "string \<Rightarrow> edge_outcome list result" and universe :: "string list"
  assumes producer_known: "outcomes c = Inr os \<Longrightarrow> Bind b \<in> set os \<Longrightarrow> bound_producer b \<in> set universe"
begin

definition found :: "string \<Rightarrow> edge_outcome list" where
  "found c = (case outcomes c of Inl _ \<Rightarrow> [] | Inr os \<Rightarrow> os)"

definition pulls :: "(string \<times> string) set" where
  "pulls = {(c, bound_producer b) | c b. b \<in> set (binds (found c))}"

definition closed :: "string set \<Rightarrow> string set" where
  "closed start = pulls\<^sup>* `` start"

definition loop_inv :: "string list \<Rightarrow> string list \<Rightarrow> closure_state \<Rightarrow> bool" where
  "loop_inv start texts s \<longleftrightarrow>
     planned s = auto_pulled s @ start \<and> distinct (planned s) \<and> distinct (worklist s)
     \<and> set (worklist s) \<subseteq> set (planned s) \<and> set (planned s) \<subseteq> closed (set start)
     \<and> (\<forall>c \<in> set (planned s) - set (worklist s). (\<exists>os. outcomes c = Inr os)
          \<and> bound_producer ` set (binds (found c)) \<subseteq> set (planned s))
     \<and> set (bindings s) = (\<Union>c \<in> set (planned s) - set (worklist s). set (binds (found c)))
     \<and> set (closure_notes s) = set texts \<union> (\<Union>c \<in> set (planned s) - set (worklist s). set (note_texts (found c)))"

definition closes_to :: "string list \<Rightarrow> string list \<Rightarrow> closure_state \<Rightarrow> bool" where
  "closes_to start texts s \<longleftrightarrow>
     set (planned s) = closed (set start) \<and> planned s = auto_pulled s @ start \<and> distinct (planned s)
     \<and> (\<forall>c \<in> closed (set start). \<exists>os. outcomes c = Inr os)
     \<and> set (bindings s) = (\<Union>c \<in> closed (set start). set (binds (found c)))
     \<and> set (closure_notes s) = set texts \<union> (\<Union>c \<in> closed (set start). set (note_texts (found c)))"

lemma loop_inv_step:
  assumes inv: "loop_inv start texts s" and work: "worklist s = c # rest" and os: "outcomes c = Inr os"
  shows "loop_inv start texts (fold apply_outcome os (s\<lparr>worklist := rest\<rparr>))"
proof -
  let ?s = "s\<lparr>worklist := rest\<rparr>" let ?s' = "fold apply_outcome os ?s"
  have found: "found c = os" using os by (simp add: found_def)
  from inv work have c: "c \<in> set (planned s)" "c \<notin> set rest" "set rest \<subseteq> set (planned s)" "distinct rest"
    by (auto simp: loop_inv_def)
  obtain new where new: "planned ?s' = new @ planned s" "worklist ?s' = new @ rest"
      "auto_pulled ?s' = new @ auto_pulled s" "distinct new"
      "set new = bound_producer ` set (binds os) - set (planned s)"
      "set (bindings ?s') = set (bindings s) \<union> set (binds os)"
      "closure_notes ?s' = closure_notes s @ note_texts os"
    using apply_outcomes [of os ?s] by auto
  have todo: "set (planned ?s') - set (worklist ?s') = insert c (set (planned s) - set (worklist s))"
    using new(1,2,5) c work by auto
  have "set new \<subseteq> closed (set start)"
  proof
    fix p
    assume "p \<in> set new"
    then obtain b where "b \<in> set (binds os)" "p = bound_producer b" using new(5) by auto
    then have "(c, p) \<in> pulls" using found by (auto simp: pulls_def)
    moreover have "c \<in> closed (set start)" using c(1) inv by (auto simp: loop_inv_def)
    ultimately show "p \<in> closed (set start)" by (auto simp: closed_def intro: rtrancl_into_rtrancl)
  qed
  then have in_closed: "set (planned ?s') \<subseteq> closed (set start)" using inv new(1) by (auto simp: loop_inv_def)
  have "planned ?s' = auto_pulled ?s' @ start" "distinct (planned ?s')" "distinct (worklist ?s')"
    "set (worklist ?s') \<subseteq> set (planned ?s')"
    using inv new(1-5) c by (auto simp: loop_inv_def)
  moreover have "(\<exists>os. outcomes d = Inr os) \<and> bound_producer ` set (binds (found d)) \<subseteq> set (planned ?s')"
    if "d \<in> insert c (set (planned s) - set (worklist s))" for d
  proof (cases "d = c")
    case True
    have "bound_producer ` set (binds os) \<subseteq> set (planned ?s')" using new(1,5) by auto
    then show ?thesis using os found True by blast
  next
    case False
    with that inv have "(\<exists>os. outcomes d = Inr os) \<and> bound_producer ` set (binds (found d)) \<subseteq> set (planned s)"
      unfolding loop_inv_def by blast
    then show ?thesis using new(1) by auto
  qed
  moreover have "set (bindings ?s') = (\<Union>d \<in> insert c (set (planned s) - set (worklist s)). set (binds (found d)))"
    using inv found new(6) by (simp add: loop_inv_def Un_commute)
  moreover have "set (closure_notes ?s')
      = set texts \<union> (\<Union>d \<in> insert c (set (planned s) - set (worklist s)). set (note_texts (found d)))"
    using inv found new(7) by (simp add: loop_inv_def Un_ac)
  ultimately show ?thesis using in_closed unfolding loop_inv_def todo by blast
qed

lemma loop_inv_end:
  assumes "loop_inv start texts s" and "worklist s = []"
  shows "closes_to start texts s"
proof -
  have "closed (set start) \<subseteq> set (planned s)"
  proof
    fix p
    assume "p \<in> closed (set start)"
    then obtain c where "c \<in> set start" "(c, p) \<in> pulls\<^sup>*" by (auto simp: closed_def)
    from this(2,1) show "p \<in> set (planned s)"
    proof (induction rule: rtrancl_induct)
      case base
      then show ?case using assms(1) by (auto simp: loop_inv_def)
    next
      case (step y z)
      then have "z \<in> bound_producer ` set (binds (found y))" by (auto simp: pulls_def)
      moreover have "bound_producer ` set (binds (found y)) \<subseteq> set (planned s)"
        using assms step.IH [OF step.prems] unfolding loop_inv_def by fastforce
      ultimately show ?case by blast
    qed
  qed
  with assms have "set (planned s) = closed (set start)" by (auto simp: loop_inv_def)
  with assms show ?thesis by (auto simp: loop_inv_def closes_to_def)
qed

lemma loop_total:
  "loop_inv start texts s \<Longrightarrow>
   \<exists>r. close_loop outcomes s = Some r \<and>
     (case r of Inl e \<Rightarrow> \<exists>c \<in> closed (set start). outcomes c = Inl e | Inr s' \<Rightarrow> closes_to start texts s')"
proof (induction s rule: wf_induct [OF wf_inv_image [OF wf_lex_prod [OF wf_measure [of "\<lambda>n. n"] wf_measure [of "\<lambda>n. n"]]],
      where f1 = "\<lambda>s. (card (set universe - set (planned s)), length (worklist s))", consumes 0])
  case (1 s)
  show ?case
  proof (cases "worklist s")
    case Nil
    then show ?thesis using loop_inv_end [OF 1(2)] by (subst close_loop.simps) simp
  next
    case (Cons c rest)
    show ?thesis
    proof (cases "outcomes c")
      case (Inl e)
      have "c \<in> closed (set start)" using 1(2) Cons by (auto simp: loop_inv_def)
      then show ?thesis using Cons Inl by (subst close_loop.simps) auto
    next
      case (Inr os)
      let ?s' = "fold apply_outcome os (s\<lparr>worklist := rest\<rparr>)"
      obtain new where new: "planned ?s' = new @ planned s" "worklist ?s' = new @ rest"
          "set new = bound_producer ` set (binds os) - set (planned s)"
        using apply_outcomes [of os "s\<lparr>worklist := rest\<rparr>"] by auto
      have "(?s', s) \<in> inv_image (measure (\<lambda>n. n) <*lex*> measure (\<lambda>n. n))
          (\<lambda>s. (card (set universe - set (planned s)), length (worklist s)))"
      proof (cases "new = []")
        case True
        then show ?thesis using new Cons by simp
      next
        case False
        have "set new \<subseteq> set universe" using new(3) producer_known [OF Inr] by auto
        moreover have "set new \<inter> set (planned s) = {}" using new(3) by auto
        ultimately have "set universe - set (planned ?s') \<subset> set universe - set (planned s)"
          using False new(1) by (cases new) auto
        then have "card (set universe - set (planned ?s')) < card (set universe - set (planned s))"
          by (intro psubset_card_mono) auto
        then show ?thesis by simp
      qed
      with 1(1) loop_inv_step [OF 1(2) Cons Inr] obtain r where "close_loop outcomes ?s' = Some r"
        "case r of Inl e \<Rightarrow> \<exists>c \<in> closed (set start). outcomes c = Inl e | Inr s' \<Rightarrow> closes_to start texts s'"
        by blast
      then show ?thesis using Cons Inr by (subst close_loop.simps) simp
    qed
  qed
qed

text \<open>The start state, with the set iterated in any order.\<close>

lemma loop_inv_start:
  assumes "distinct ids" and "distinct ws" and "set ws = set ids"
  shows "loop_inv ids texts \<lparr>worklist = ws, planned = ids, bindings = [], auto_pulled = [], closure_notes = texts\<rparr>"
  using assms by (auto simp: loop_inv_def closed_def)

end

section \<open>The producers of a fact\<close>

lemma group_get_map_sort:
  "group_get (map (\<lambda>(k, vs). (k, sort_key key vs)) d) k = sort_key key (group_get d k)"
proof -
  have "map_of (map (\<lambda>(k, vs). (k, sort_key key vs)) d) k = map_option (sort_key key) (map_of d k)"
    by (induction d) auto
  then show ?thesis by (auto simp: group_get_def split: option.splits)
qed

lemma producers_by_fact_get:
  assumes "\<And>c. c \<in> set cards \<Longrightarrow> distinct (card_produces c)"
  shows "group_get (producers_by_fact cards) f = sort_key card_id (filter (\<lambda>c. f \<in> set (card_produces c)) cards)"
proof -
  let ?entries = "\<lambda>cs. concat (map (\<lambda>c. map (\<lambda>ft. (ft, c)) (card_produces c)) cs)"
  have one: "map snd (filter (\<lambda>e. fst e = f) (map (\<lambda>ft. (ft, c)) fts)) = (if f \<in> set fts then [c] else [])"
    if "distinct fts" for fts and c :: capability_card
    using that by (induction fts) auto
  have "map snd (filter (\<lambda>e. fst e = f) (?entries cards)) = filter (\<lambda>c. f \<in> set (card_produces c)) cards"
    using assms by (induction cards) (simp_all add: one)
  then show ?thesis unfolding producers_by_fact_def group_get_map_sort by (simp add: dict_simps)
qed

lemma card_of_produces: "card_of snapshot raw c \<Longrightarrow> distinct (card_produces c)"
  by (simp add: card_of_def distinct_produces)

lemma visible_cards_get:
  assumes "discover_cards snapshot docs = Inr cards" and "visible_read_cards cards docs = Inr visible"
  shows "group_get (producers_by_fact visible) f
     = sort_key card_id (filter (\<lambda>c. f \<in> set (card_produces c)) visible)"
proof (rule producers_by_fact_get)
  fix c
  assume "c \<in> set visible"
  then have "c \<in> set cards" using assms(2) by (auto simp: visible_read_cards_def result_simps)
  then show "distinct (card_produces c)"
    using discover_cards_mem [OF assms(1)] card_of_produces by metis
qed

section \<open>The closure\<close>

definition producer_ids :: "(string \<times> capability_card list) list \<Rightarrow> string list" where
  "producer_ids by_fact = map card_id (concat (map snd by_fact))"

lemma group_get_producer_ids:
  assumes "group_get by_fact f = cs" and "c \<in> set cs"
  shows "card_id c \<in> set (producer_ids by_fact)"
proof -
  from assms have "(f, cs) \<in> set by_fact" by (auto simp: group_get_def split: option.splits dest: map_of_SomeD)
  with assms(2) show ?thesis by (force simp: producer_ids_def)
qed

lemma edge_outcome_Bind:
  assumes "edge_outcome_of docs by_fact supplied consumer e = Inr (Bind b)"
  shows "\<exists>p d. group_get by_fact (edge_fact_type e) = [p]
     \<and> b = ClosureBinding (edge_consumer e) (edge_input e) (card_id p) (edge_fact_type e) (edge_field e)
     \<and> find (\<lambda>d. desc_name d = edge_input e) (card_inputs consumer) = Some d \<and> desc_required d
     \<and> map_of supplied (edge_input e) = None"
  using assms
  by (auto simp: edge_outcome_of_def result_simps split: option.splits if_splits list.splits)

lemma consumer_outcomes_mem:
  assumes "consumer_outcomes docs view visible by_fact supplied i = Inr os"
  shows "x \<in> set os \<longleftrightarrow> (\<exists>consumer e. map_of (dict_of (map (\<lambda>c. (card_id c, c)) visible)) i = Some consumer
      \<and> e \<in> set (view_edges view) \<and> edge_consumer e = i
      \<and> edge_outcome_of docs by_fact supplied consumer e = Inr x)"
proof (cases "map_of (dict_of (map (\<lambda>c. (card_id c, c)) visible)) i")
  case None
  with assms show ?thesis by (simp add: consumer_outcomes_def)
next
  case (Some consumer)
  with assms have "list_all2 (\<lambda>e x. edge_outcome_of docs by_fact supplied consumer e = Inr x)
      (filter (\<lambda>e. edge_consumer e = i) (view_edges view)) os"
    by (simp add: consumer_outcomes_def result_simps)
  then have "x \<in> set os \<longleftrightarrow> (\<exists>e \<in> set (filter (\<lambda>e. edge_consumer e = i) (view_edges view)).
      edge_outcome_of docs by_fact supplied consumer e = Inr x)"
    by (induction rule: list_all2_induct) auto
  with Some show ?thesis by auto
qed

interpretation closure: worklist_closure "consumer_outcomes docs view visible by_fact supplied" "producer_ids by_fact"
  for docs view visible by_fact supplied
proof unfold_locales
  fix c os b
  assume "consumer_outcomes docs view visible by_fact supplied c = Inr os" "Bind b \<in> set os"
  then obtain consumer e where "edge_outcome_of docs by_fact supplied consumer e = Inr (Bind b)"
    using consumer_outcomes_mem by blast
  from edge_outcome_Bind [OF this] group_get_producer_ids show "bound_producer b \<in> set (producer_ids by_fact)"
    by fastforce
qed

text \<open>An order of iteration lists each element of the set once.\<close>

definition iterates :: "(string list \<Rightarrow> string list) \<Rightarrow> bool" where
  "iterates set_order \<longleftrightarrow> (\<forall>ids. mset (set_order ids) = mset ids)"

lemma closure_start_inv:
  assumes "iterates set_order"
  shows "closure.loop_inv docs view visible by_fact supplied (remdups (map desired_producer desired))
     (closure_notes (closure_start set_order view desired)) (closure_start set_order view desired)"
proof -
  let ?ids = "remdups (map desired_producer desired)"
  have perm: "mset (set_order ?ids) = mset ?ids" using assms by (simp add: iterates_def)
  have "distinct (rev (set_order ?ids))" using mset_eq_imp_distinct_iff [OF perm] by simp
  moreover have "set (rev (set_order ?ids)) = set ?ids" using mset_eq_setD [OF perm] by simp
  ultimately show ?thesis
    unfolding closure_start_def Let_def by (simp only: closure_state.simps, intro closure.loop_inv_start) auto
qed

lemma close_inputs_closes:
  assumes "iterates set_order" and view: "derive_data_dependencies docs = Inr view"
  shows "\<exists>r. close_inputs set_order docs visible desired by_fact supplied = Some r \<and>
    (case r of
       Inl e \<Rightarrow> \<exists>c \<in> closure.closed docs view visible by_fact supplied (set (map desired_producer desired)).
         consumer_outcomes docs view visible by_fact supplied c = Inl e
     | Inr s \<Rightarrow> closure.closes_to docs view visible by_fact supplied (remdups (map desired_producer desired))
         (closure_notes (closure_start set_order view desired)) s)"
  using closure.loop_total [OF closure_start_inv [OF assms(1)], of docs view visible by_fact supplied desired]
  by (simp only: close_inputs_def view sum.case set_remdups)

text \<open>
  C15: closing the inputs always ends: the worklist runs dry whatever the registry derives, cycles of
  derived edges included, and in whatever order the set it starts from is iterated.
\<close>

theorem close_inputs_terminates:
  assumes "iterates set_order"
  shows "\<exists>r. close_inputs set_order docs visible desired by_fact supplied = Some r"
proof (cases "derive_data_dependencies docs")
  case (Inr view)
  then show ?thesis using close_inputs_closes [OF assms Inr] by blast
qed (simp add: close_inputs_def)

lemma closes_to_agree:
  assumes "closure.closes_to docs view visible by_fact supplied ids texts s"
    and "closure.closes_to docs view visible by_fact supplied ids texts' s'" and "set texts = set texts'"
  shows "set (bindings s) = set (bindings s') \<and> set (auto_pulled s) = set (auto_pulled s')
     \<and> set (closure_notes s) = set (closure_notes s')"
proof -
  have auto: "set (auto_pulled t) = closure.closed docs view visible by_fact supplied (set ids) - set ids"
    if "closure.closes_to docs view visible by_fact supplied ids texts t" for t texts
    using that unfolding closure.closes_to_def by auto
  show ?thesis
    using auto [OF assms(1)] auto [OF assms(2)] assms unfolding closure.closes_to_def by simp
qed

text \<open>
  C16: the order in which the set of planned capabilities is iterated does not matter: a resolution found in
  one order is found in every other, with the same status, desired facts, gaps, candidates, closure bindings
  and pulled capabilities, and with the same set of clarifications.
\<close>

theorem resolve_order_independent:
  assumes "iterates f" and "iterates g" and "resolve f draft pinned docs snapshot = Some (Inr r)"
  shows "\<exists>r'. resolve g draft pinned docs snapshot = Some (Inr r') \<and> res_status r' = res_status r
    \<and> res_desired r' = res_desired r \<and> res_producers r' = res_producers r \<and> res_gaps r' = res_gaps r
    \<and> res_candidates r' = res_candidates r \<and> res_closure r' = res_closure r
    \<and> res_closure_capabilities r' = res_closure_capabilities r
    \<and> set (res_clarification r') = set (res_clarification r)"
proof -
  from assms(3) obtain cards visible outcomes where
    "discover_cards snapshot docs = Inr cards" "visible_read_cards cards docs = Inr visible"
    "mapM (resolve_fact pinned (producers_by_fact visible) draft) (requested_facts draft) = Inr outcomes"
    by (auto simp: resolve_def Let_def result_simps split: sum.splits)
  note stages = this
  let ?desired = "concat (map outcome_desired outcomes)" and ?by = "producers_by_fact visible"
    and ?supplied = "supplied_map draft"
  have resolve: "resolve h draft pinned docs snapshot
      = map_option (map_sum id (resolution_of outcomes)) (close_inputs h docs visible ?desired ?by ?supplied)" for h
    by (simp add: resolve_def Let_def stages)
  obtain s where s: "close_inputs f docs visible ?desired ?by ?supplied = Some (Inr s)" "r = resolution_of outcomes s"
  proof -
    from assms(3) [unfolded resolve] obtain x where
      "close_inputs f docs visible ?desired ?by ?supplied = Some x" "map_sum id (resolution_of outcomes) x = Inr r" by auto
    with that show thesis by (cases x) auto
  qed
  from s(1) obtain view where view: "derive_data_dependencies docs = Inr view"
    by (auto simp: close_inputs_def split: sum.splits)
  let ?ids = "remdups (map desired_producer ?desired)"
  from close_inputs_closes [OF assms(1) view, of visible ?desired ?by ?supplied] s(1)
  have sf: "closure.closes_to docs view visible ?by ?supplied ?ids (closure_notes (closure_start f view ?desired)) s" by simp
  from close_inputs_closes [OF assms(2) view, of visible ?desired ?by ?supplied] obtain x where
    x: "close_inputs g docs visible ?desired ?by ?supplied = Some x"
      "case x of Inl e \<Rightarrow> \<exists>c \<in> closure.closed docs view visible ?by ?supplied (set (map desired_producer ?desired)).
         consumer_outcomes docs view visible ?by ?supplied c = Inl e
       | Inr s' \<Rightarrow> closure.closes_to docs view visible ?by ?supplied ?ids (closure_notes (closure_start g view ?desired)) s'"
    by blast
  have "\<exists>s'. x = Inr s' \<and> closure.closes_to docs view visible ?by ?supplied ?ids (closure_notes (closure_start g view ?desired)) s'"
  proof (cases x)
    case (Inl e)
    with x(2) sf have False unfolding closure.closes_to_def by fastforce
    then show ?thesis ..
  qed (use x(2) in simp)
  then obtain s' where s': "x = Inr s'"
    "closure.closes_to docs view visible ?by ?supplied ?ids (closure_notes (closure_start g view ?desired)) s'" by blast
  have "set (closure_notes (closure_start f view ?desired)) = set (closure_notes (closure_start g view ?desired))"
    by (simp add: closure_start_def Let_def)
  from closes_to_agree [OF sf s'(2) this] have same: "set (bindings s) = set (bindings s')"
    "set (auto_pulled s) = set (auto_pulled s')" "set (closure_notes s) = set (closure_notes s')" by auto
  moreover have "closure_notes s = [] \<longleftrightarrow> closure_notes s' = []" using same(3) by (metis set_empty)
  ultimately have "resolve g draft pinned docs snapshot = Some (Inr (resolution_of outcomes s'))"
    "res_status (resolution_of outcomes s') = res_status r" "res_closure (resolution_of outcomes s') = res_closure r"
    "res_closure_capabilities (resolution_of outcomes s') = res_closure_capabilities r"
    "set (res_clarification (resolution_of outcomes s')) = set (res_clarification r)"
    "res_desired (resolution_of outcomes s') = res_desired r" "res_producers (resolution_of outcomes s') = res_producers r"
    "res_gaps (resolution_of outcomes s') = res_gaps r" "res_candidates (resolution_of outcomes s') = res_candidates r"
    using sorted_set_cong [OF same(1)] sorted_set_cong [OF same(2)]
    by (simp_all add: resolve x(1) s' s(2) resolution_of_def Let_def overall_status_def)
  then show ?thesis by blast
qed

section \<open>Complete resolutions\<close>

text \<open>What a wanted fact stands for.\<close>

lemma resolve_fact_Wanted:
  assumes "resolve_fact pinned by_fact draft requested = Inr (Wanted d)"
  shows "\<exists>c. group_get by_fact (requested_fact_type requested) = [c] \<and> desired_type d = requested_fact_type requested
    \<and> desired_fields d = requested_fields requested \<and> desired_selectors d = selectors requested
    \<and> desired_producer d = card_id c
    \<and> (\<forall>x \<in> set (desired_fields d). \<exists>s. x = JStr s \<and> s \<in> set (group_get (allowlist_fields pinned) (desired_type d)))
    \<and> missing_required_values requested draft c = []"
proof -
  from assms obtain c where c: "group_get by_fact (requested_fact_type requested) = [c]"
    by (auto simp: resolve_fact_def Let_def split: list.splits)
  with assms have legal: "collectM (illegal_field (group_get (allowlist_fields pinned) (requested_fact_type requested)))
      (requested_fields requested) = Inr []"
    and rest: "missing_required_values requested draft c = []"
      "d = \<lparr>desired_type = requested_fact_type requested, desired_fields = requested_fields requested,
            desired_producer = card_id c, desired_selectors = selectors requested\<rparr>"
    by (auto simp: resolve_fact_def Let_def result_simps split: if_splits)
  have "\<exists>s. x = JStr s \<and> s \<in> set allowed" if "illegal_field allowed x = Inr []" for allowed x
    using that by (cases x) (auto simp: illegal_field_def field_allowed_def split: if_splits)
  with legal have "\<forall>x \<in> set (requested_fields requested).
      \<exists>s. x = JStr s \<and> s \<in> set (group_get (allowlist_fields pinned) (requested_fact_type requested))"
    unfolding collectM_eq_Nil by blast
  with c rest show ?thesis by simp
qed

lemma overall_status_complete:
  assumes "overall_status gaps clarification = ''complete''"
  shows "clarification = [] \<and> (\<forall>g \<in> set gaps. \<not> starts_with ''NO_PRODUCER'' g \<and> \<not> starts_with ''FIELD_NOT_ALLOWLISTED'' g)"
  using assms by (auto simp: overall_status_def split: if_splits)

lemma outcome_complete:
  assumes "resolve_fact pinned by_fact draft requested = Inr x" and "outcome_clarification x = []"
    and "\<forall>g \<in> set (outcome_gaps x). \<not> starts_with ''NO_PRODUCER'' g \<and> \<not> starts_with ''FIELD_NOT_ALLOWLISTED'' g"
  shows "\<exists>d. x = Wanted d"
proof (cases x)
  case (Illegal_Fields f illegal)
  then have "illegal \<noteq> []" using assms(1) by (auto simp: resolve_fact_def Let_def result_simps split: list.splits if_splits)
  with assms(3) Illegal_Fields show ?thesis by (cases illegal) auto
next
  case (Missing_Values names)
  then have "names \<noteq> []" using assms(1) by (auto simp: resolve_fact_def Let_def result_simps split: list.splits if_splits)
  with assms(2) Missing_Values show ?thesis by simp
qed (use assms in auto)

lemma complete_stages:
  assumes "resolve set_order draft pinned docs snapshot = Some (Inr r)" and "res_status r = ''complete''"
  obtains cards visible outcomes s where "discover_cards snapshot docs = Inr cards"
    "visible_read_cards cards docs = Inr visible"
    "mapM (resolve_fact pinned (producers_by_fact visible) draft) (requested_facts draft) = Inr (map Wanted (res_desired r))"
    "close_inputs set_order docs visible (res_desired r) (producers_by_fact visible) (supplied_map draft) = Some (Inr s)"
    "r = resolution_of outcomes s" "closure_notes s = []"
proof -
  from assms(1) obtain cards visible outcomes where stages:
    "discover_cards snapshot docs = Inr cards" "visible_read_cards cards docs = Inr visible"
    "mapM (resolve_fact pinned (producers_by_fact visible) draft) (requested_facts draft) = Inr outcomes"
    by (auto simp: resolve_def Let_def result_simps split: sum.splits)
  let ?desired = "concat (map outcome_desired outcomes)"
  obtain s where s: "close_inputs set_order docs visible ?desired (producers_by_fact visible) (supplied_map draft)
      = Some (Inr s)" "r = resolution_of outcomes s"
  proof -
    from assms(1) obtain x where
      "close_inputs set_order docs visible ?desired (producers_by_fact visible) (supplied_map draft) = Some x"
      "map_sum id (resolution_of outcomes) x = Inr r" by (auto simp: resolve_def Let_def stages)
    with that show thesis by (cases x) auto
  qed
  have desired: "res_desired r = ?desired" by (simp add: s(2) resolution_of_def Let_def)
  have "overall_status (concat (map outcome_gaps outcomes))
      (concat (map outcome_clarification outcomes) @ closure_notes s) = ''complete''"
    using assms(2) by (simp add: s(2) resolution_of_def Let_def)
  from overall_status_complete [OF this] have clean: "concat (map outcome_clarification outcomes) @ closure_notes s = []"
    "\<forall>g \<in> set (concat (map outcome_gaps outcomes)). \<not> starts_with ''NO_PRODUCER'' g \<and> \<not> starts_with ''FIELD_NOT_ALLOWLISTED'' g"
    by blast+
  have wanted: "\<exists>d. x = Wanted d" if "x \<in> set outcomes" for x
  proof -
    from that stages(3) obtain q where "resolve_fact pinned (producers_by_fact visible) draft q = Inr x"
      by (auto simp: result_simps list_all2_conv_all_nth in_set_conv_nth)
    then show ?thesis using outcome_complete that clean by fastforce
  qed
  have "xs = map Wanted (concat (map outcome_desired xs))" if "\<forall>x \<in> set xs. \<exists>d. x = Wanted d" for xs
    using that by (induction xs) auto
  from this [of outcomes] wanted have "outcomes = map Wanted ?desired" by blast
  with stages s desired clean(1) that show thesis by (metis append_is_Nil_conv)
qed

lemma map_of_fold_setdefault_None:
  "map_of (fold (\<lambda>(k, v). setdefault k v) kvs d) x = None \<longleftrightarrow> map_of d x = None \<and> x \<notin> fst ` set kvs"
proof (induction kvs arbitrary: d)
  case (Cons kv kvs)
  then show ?case by (cases kv) (auto simp: setdefault_map_of split: option.splits)
qed simp

lemma fact_supplied_None:
  "map_of (fact_supplied q draft) n = None \<longleftrightarrow>
     n \<notin> selector_key ` set (selectors q) \<and> n \<notin> tc_name ` set (draft_constraints draft)"
  unfolding fact_supplied_def map_of_fold_setdefault_None map_of_dict_of
  by (simp add: map_of_eq_None_iff image_image)

lemma missing_required_values_Nil:
  "missing_required_values q draft c = [] \<longleftrightarrow>
     list_all (\<lambda>i. \<not> desc_required i \<or> desc_binding_kind i \<noteq> ''identifier''
       \<or> (\<exists>f. desc_satisfiable_by i = Some f \<and> f \<noteq> [])
       \<or> desc_name i \<in> selector_key ` set (selectors q) \<or> desc_name i \<in> tc_name ` set (draft_constraints draft))
     (card_inputs c)"
  by (auto simp: missing_required_values_def fact_supplied_None filter_empty_conv list_all_iff split: option.splits)

text \<open>
  C9: a complete resolution answers the requested facts one by one, in order.  Each answer has the type, the
  fields and the selectors asked for and comes from the one visible card that produces the type; that card
  belongs to an active Function without side effect and without approval, the fields are allowlisted for the
  fact, and each identifier the card requires has a value, from a selector of this request or a constraint of
  the draft, unless it declares a fact type that can satisfy it.
\<close>

theorem complete_resolution_sound:
  assumes "resolve set_order draft pinned docs snapshot = Some (Inr r)" and "res_status r = ''complete''"
    and "discover_cards snapshot docs = Inr cards" and "visible_read_cards cards docs = Inr visible"
  shows "list_all2 (\<lambda>q d. desired_type d = requested_fact_type q \<and> desired_fields d = requested_fields q
       \<and> desired_selectors d = selectors q
       \<and> (\<exists>c. filter (\<lambda>c. requested_fact_type q \<in> set (card_produces c)) visible = [c] \<and> card_id c = desired_producer d
          \<and> card_side_effect (card_governance_of c) = ''none'' \<and> \<not> card_requires_approval (card_governance_of c)
          \<and> (\<exists>raw definition. raw_capabilities docs = Inr raw \<and> map_of raw (card_id c) = Some definition
               \<and> jget definition ''kind'' = JStr ''Function'')
          \<and> (\<exists>entries entry. jget (coerce_mapping (capabilities_doc docs)) ''capabilities'' = JList entries
               \<and> entry \<in> set entries \<and> jget entry ''capabilityId'' = JStr (card_id c)
               \<and> jget entry ''status'' = JStr ''active'')
          \<and> list_all (\<lambda>x. \<exists>n. x = JStr n \<and> n \<in> set (group_get (allowlist_fields pinned) (requested_fact_type q)))
              (requested_fields q)
          \<and> list_all (\<lambda>i. \<not> desc_required i \<or> desc_binding_kind i \<noteq> ''identifier''
              \<or> (\<exists>f. desc_satisfiable_by i = Some f \<and> f \<noteq> [])
              \<or> desc_name i \<in> selector_key ` set (selectors q)
              \<or> desc_name i \<in> tc_name ` set (draft_constraints draft)) (card_inputs c)))
     (requested_facts draft) (res_desired r)"
proof -
  from complete_stages [OF assms(1,2)] assms(3,4) have
    run: "mapM (resolve_fact pinned (producers_by_fact visible) draft) (requested_facts draft) = Inr (map Wanted (res_desired r))"
    by (metis sum.inject(2))
  then have pairs: "list_all2 (\<lambda>q d. resolve_fact pinned (producers_by_fact visible) draft q = Inr (Wanted d))
      (requested_facts draft) (res_desired r)"
    by (simp add: result_simps list_all2_map2)
  then show ?thesis
  proof (rule list_all2_mono)
    fix q d
    assume "resolve_fact pinned (producers_by_fact visible) draft q = Inr (Wanted d)"
    from resolve_fact_Wanted [OF this] obtain c where c: "group_get (producers_by_fact visible) (requested_fact_type q) = [c]"
      and d: "desired_type d = requested_fact_type q" "desired_fields d = requested_fields q"
        "desired_selectors d = selectors q" "desired_producer d = card_id c"
      and fields: "\<forall>x \<in> set (desired_fields d). \<exists>s. x = JStr s \<and> s \<in> set (group_get (allowlist_fields pinned) (desired_type d))"
      and supplied: "missing_required_values q draft c = []" by auto
    let ?producers = "filter (\<lambda>c. requested_fact_type q \<in> set (card_produces c)) visible"
    have "sort_key card_id ?producers = [c]" using c visible_cards_get [OF assms(3,4)] by simp
    then have "mset ?producers = {#c#}" by (metis mset.simps mset_sort)
    then have one: "?producers = [c]" unfolding mset_single_iff .
    have "c \<in> set ?producers" unfolding one by simp
    then have "c \<in> set visible" by simp
    with assms(4) obtain raw where "raw_capabilities docs = Inr raw" "visible_read_card raw c"
      by (auto simp: visible_read_cards_def result_simps)
    then have card: "card_side_effect (card_governance_of c) = ''none''" "\<not> card_requires_approval (card_governance_of c)"
      "\<exists>raw definition. raw_capabilities docs = Inr raw \<and> map_of raw (card_id c) = Some definition
         \<and> jget definition ''kind'' = JStr ''Function''"
      by (auto simp: visible_read_card_def split: option.splits)
    from \<open>c \<in> set visible\<close> assms(4) have "c \<in> set cards" by (auto simp: visible_read_cards_def result_simps)
    then have active: "\<exists>entries entry. jget (coerce_mapping (capabilities_doc docs)) ''capabilities'' = JList entries
        \<and> entry \<in> set entries \<and> jget entry ''capabilityId'' = JStr (card_id c) \<and> jget entry ''status'' = JStr ''active''"
      by (rule discover_cards_mem [OF assms(3)]) (auto simp: card_of_def)
    show "desired_type d = requested_fact_type q \<and> desired_fields d = requested_fields q
       \<and> desired_selectors d = selectors q
       \<and> (\<exists>c. filter (\<lambda>c. requested_fact_type q \<in> set (card_produces c)) visible = [c] \<and> card_id c = desired_producer d
          \<and> card_side_effect (card_governance_of c) = ''none'' \<and> \<not> card_requires_approval (card_governance_of c)
          \<and> (\<exists>raw definition. raw_capabilities docs = Inr raw \<and> map_of raw (card_id c) = Some definition
               \<and> jget definition ''kind'' = JStr ''Function'')
          \<and> (\<exists>entries entry. jget (coerce_mapping (capabilities_doc docs)) ''capabilities'' = JList entries
               \<and> entry \<in> set entries \<and> jget entry ''capabilityId'' = JStr (card_id c)
               \<and> jget entry ''status'' = JStr ''active'')
          \<and> list_all (\<lambda>x. \<exists>n. x = JStr n \<and> n \<in> set (group_get (allowlist_fields pinned) (requested_fact_type q)))
              (requested_fields q)
          \<and> list_all (\<lambda>i. \<not> desc_required i \<or> desc_binding_kind i \<noteq> ''identifier''
              \<or> (\<exists>f. desc_satisfiable_by i = Some f \<and> f \<noteq> [])
              \<or> desc_name i \<in> selector_key ` set (selectors q)
              \<or> desc_name i \<in> tc_name ` set (draft_constraints draft)) (card_inputs c))"
      using one card active fields d supplied [unfolded missing_required_values_Nil]
      by (intro conjI exI [of _ c]) (simp_all add: list_all_iff)
  qed
qed

lemma edge_outcome_cases:
  assumes "edge_outcome_of docs by_fact supplied consumer e = Inr x"
    and "find (\<lambda>d. desc_name d = edge_input e) (card_inputs consumer) = Some d" and "desc_required d"
    and "map_of supplied (edge_input e) = None"
  shows "(\<exists>n. x = Note n) \<or> (\<exists>p. group_get by_fact (edge_fact_type e) = [p]
     \<and> x = Bind (ClosureBinding (edge_consumer e) (edge_input e) (card_id p) (edge_fact_type e) (edge_field e)))"
  using assms by (auto simp: edge_outcome_of_def result_simps split: if_splits list.splits)

definition planned_capabilities :: "resolution \<Rightarrow> string list" where
  "planned_capabilities r = map desired_producer (res_desired r) @ res_closure_capabilities r"

lemma complete_closes:
  assumes "resolve set_order draft pinned docs snapshot = Some (Inr r)" and "res_status r = ''complete''"
    and "iterates set_order" and "discover_cards snapshot docs = Inr cards" and "visible_read_cards cards docs = Inr visible"
    and view: "derive_data_dependencies docs = Inr view"
  shows "\<exists>s. closure.closes_to docs view visible (producers_by_fact visible) (supplied_map draft)
      (remdups (map desired_producer (res_desired r))) (closure_notes (closure_start set_order view (res_desired r))) s
    \<and> closure_notes s = [] \<and> set (res_closure r) = set (bindings s)
    \<and> set (res_closure_capabilities r) = set (auto_pulled s)"
proof -
  obtain outcomes s where s: "close_inputs set_order docs visible (res_desired r) (producers_by_fact visible)
      (supplied_map draft) = Some (Inr s)" "r = resolution_of outcomes s" "closure_notes s = []"
    using complete_stages [OF assms(1,2)] assms(4,5) by (metis sum.inject(2))
  have "closure.closes_to docs view visible (producers_by_fact visible) (supplied_map draft)
      (remdups (map desired_producer (res_desired r))) (closure_notes (closure_start set_order view (res_desired r))) s"
    using close_inputs_closes [OF assms(3) view, of visible "res_desired r" "producers_by_fact visible" "supplied_map draft"]
      s(1) by simp
  with s(2,3) show ?thesis by (auto simp: resolution_of_def Let_def)
qed

lemma complete_planned:
  assumes "closure.closes_to docs view visible by_fact supplied (remdups (map desired_producer (res_desired r))) texts s"
    and "set (res_closure_capabilities r) = set (auto_pulled s)"
  shows "set (planned_capabilities r)
    = closure.closed docs view visible by_fact supplied (set (map desired_producer (res_desired r)))"
  using assms by (auto simp: planned_capabilities_def closure.closes_to_def)

text \<open>
  C10: a complete resolution leaves no derived input open: for every planned capability, each derived edge
  into a required input without a supplied value has a binding to the one visible producer of the fact, and
  that producer is planned too.  Every binding belongs to a planned consumer.
\<close>

theorem complete_resolution_closed:
  assumes "resolve set_order draft pinned docs snapshot = Some (Inr r)" and "res_status r = ''complete''"
    and "iterates set_order" and "discover_cards snapshot docs = Inr cards" and "visible_read_cards cards docs = Inr visible"
    and "derive_data_dependencies docs = Inr view"
  shows "(\<forall>e \<in> set (view_edges view). edge_consumer e \<in> set (planned_capabilities r) \<longrightarrow>
       (\<forall>consumer d. map_of (dict_of (map (\<lambda>c. (card_id c, c)) visible)) (edge_consumer e) = Some consumer \<longrightarrow>
          find (\<lambda>d. desc_name d = edge_input e) (card_inputs consumer) = Some d \<longrightarrow> desc_required d \<longrightarrow>
          map_of (supplied_map draft) (edge_input e) = None \<longrightarrow>
          (\<exists>p. group_get (producers_by_fact visible) (edge_fact_type e) = [p] \<and> card_id p \<in> set (planned_capabilities r)
             \<and> ClosureBinding (edge_consumer e) (edge_input e) (card_id p) (edge_fact_type e) (edge_field e)
                  \<in> set (res_closure r))))
    \<and> (\<forall>b \<in> set (res_closure r). bound_consumer b \<in> set (planned_capabilities r)
         \<and> bound_producer b \<in> set (planned_capabilities r))"
proof -
  let ?by = "producers_by_fact visible" and ?supplied = "supplied_map draft"
  let ?ids = "set (map desired_producer (res_desired r))"
  obtain s where s: "closure.closes_to docs view visible ?by ?supplied
      (remdups (map desired_producer (res_desired r))) (closure_notes (closure_start set_order view (res_desired r))) s"
    "closure_notes s = []" "set (res_closure r) = set (bindings s)" "set (res_closure_capabilities r) = set (auto_pulled s)"
    using complete_closes [OF assms] by blast
  have planned: "set (planned_capabilities r) = closure.closed docs view visible ?by ?supplied ?ids"
    by (rule complete_planned [OF s(1,4)])
  have outcomes: "\<exists>os. consumer_outcomes docs view visible ?by ?supplied c = Inr os
      \<and> set os = set (closure.found docs view visible ?by ?supplied c) \<and> note_texts os = []"
    if "c \<in> set (planned_capabilities r)" for c
  proof -
    from that planned s(1) obtain os where os: "consumer_outcomes docs view visible ?by ?supplied c = Inr os"
      by (auto simp: closure.closes_to_def)
    then have found: "closure.found docs view visible ?by ?supplied c = os" by (simp add: closure.found_def)
    have "set (note_texts os) \<subseteq> set (closure_notes s)"
      using that planned s(1) found by (auto simp: closure.closes_to_def)
    with s(2) os found show ?thesis by simp
  qed
  have pulled: "bound_producer b \<in> set (planned_capabilities r)"
    if "c \<in> set (planned_capabilities r)" "Bind b \<in> set (closure.found docs view visible ?by ?supplied c)" for b c
  proof -
    from that have "(c, bound_producer b) \<in> closure.pulls docs view visible ?by ?supplied"
      by (auto simp: closure.pulls_def)
    with that(1) show ?thesis unfolding planned closure.closed_def by (auto intro: rtrancl_into_rtrancl)
  qed
  have bound: "b \<in> set (res_closure r) \<longleftrightarrow> (\<exists>c \<in> set (planned_capabilities r).
      Bind b \<in> set (closure.found docs view visible ?by ?supplied c))" for b
    using s(1,3) planned by (simp add: closure.closes_to_def)
  show ?thesis
  proof (intro conjI ballI impI allI)
    fix e consumer d
    assume e: "e \<in> set (view_edges view)" "edge_consumer e \<in> set (planned_capabilities r)"
      and consumer: "map_of (dict_of (map (\<lambda>c. (card_id c, c)) visible)) (edge_consumer e) = Some consumer"
      and d: "find (\<lambda>d. desc_name d = edge_input e) (card_inputs consumer) = Some d" "desc_required d"
      and supplied: "map_of ?supplied (edge_input e) = None"
    from outcomes [OF e(2)] obtain os where os: "consumer_outcomes docs view visible ?by ?supplied (edge_consumer e) = Inr os"
      "set os = set (closure.found docs view visible ?by ?supplied (edge_consumer e))" "note_texts os = []" by blast
    have "\<exists>x. edge_outcome_of docs ?by ?supplied consumer e = Inr x"
    proof -
      from os(1) consumer have "list_all2 (\<lambda>e x. edge_outcome_of docs ?by ?supplied consumer e = Inr x)
          (filter (\<lambda>e'. edge_consumer e' = edge_consumer e) (view_edges view)) os"
        by (simp add: consumer_outcomes_def result_simps)
      then have "\<forall>e' \<in> set (filter (\<lambda>e'. edge_consumer e' = edge_consumer e) (view_edges view)).
          \<exists>x. edge_outcome_of docs ?by ?supplied consumer e' = Inr x"
        by (induction rule: list_all2_induct) auto
      with e(1) show ?thesis by simp
    qed
    then obtain x where x: "edge_outcome_of docs ?by ?supplied consumer e = Inr x" ..
    then have mem: "x \<in> set os" using consumer_outcomes_mem [OF os(1)] consumer e(1) by blast
    have "\<not> (\<exists>n. x = Note n)" using mem os(3) by (auto simp: note_texts_def)
    with edge_outcome_cases [OF x d supplied] obtain p where p: "group_get ?by (edge_fact_type e) = [p]"
      "x = Bind (ClosureBinding (edge_consumer e) (edge_input e) (card_id p) (edge_fact_type e) (edge_field e))" by blast
    from mem p(2) os(2) e(2) pulled [of "edge_consumer e"] bound
    show "\<exists>p. group_get ?by (edge_fact_type e) = [p] \<and> card_id p \<in> set (planned_capabilities r)
        \<and> ClosureBinding (edge_consumer e) (edge_input e) (card_id p) (edge_fact_type e) (edge_field e) \<in> set (res_closure r)"
      using p(1) by (metis closure_binding.sel(3))
  next
    fix b
    assume "b \<in> set (res_closure r)"
    then obtain c where c: "c \<in> set (planned_capabilities r)"
      "Bind b \<in> set (closure.found docs view visible ?by ?supplied c)" using bound by blast
    from outcomes [OF c(1)] obtain os where os: "consumer_outcomes docs view visible ?by ?supplied c = Inr os"
      "set os = set (closure.found docs view visible ?by ?supplied c)" by blast
    with c(2) obtain consumer e where "edge_consumer e = c" "edge_outcome_of docs ?by ?supplied consumer e = Inr (Bind b)"
      using consumer_outcomes_mem [OF os(1)] by blast
    with edge_outcome_Bind have "bound_consumer b = c" by fastforce
    with c pulled show "bound_consumer b \<in> set (planned_capabilities r)" "bound_producer b \<in> set (planned_capabilities r)"
      by auto
  qed
qed

section \<open>Registries to resolve in\<close>

definition reader :: "string \<Rightarrow> json list \<Rightarrow> json list \<Rightarrow> json" where
  "reader capability_id ins outs = JObj
     [(''capabilityId'', JStr capability_id), (''name'', JStr capability_id), (''status'', JStr ''active''),
      (''kind'', JStr ''Function''), (''inputs'', JList ins), (''outputs'', JList outs),
      (''governance'', JObj [(''sideEffect'', JStr ''none''), (''requiresApproval'', JBool False),
        (''approvalPolicy'', JStr ''not_required'')])]"

definition writer :: "string \<Rightarrow> json list \<Rightarrow> json list \<Rightarrow> json" where
  "writer capability_id ins outs = JObj
     [(''capabilityId'', JStr capability_id), (''name'', JStr capability_id), (''status'', JStr ''active''),
      (''kind'', JStr ''Action''), (''inputs'', JList ins), (''outputs'', JList outs),
      (''governance'', JObj [(''sideEffect'', JStr ''sap_write''), (''requiresApproval'', JBool True),
        (''approvalPolicy'', JStr ''required'')])]"

definition key_input :: "string \<Rightarrow> json" where
  "key_input name = JObj [(''name'', JStr name), (''semanticType'', JStr name), (''bindingKind'', JStr ''identifier''),
     (''required'', JBool True)]"

definition fact_output :: "string \<Rightarrow> string \<Rightarrow> json" where
  "fact_output name fact_type = JObj
     [(''name'', JStr name), (''semanticType'', JStr name), (''factTypeRef'', JStr fact_type)]"

definition demo_readers :: source_documents where
  "demo_readers = demo_documents
     [reader ''Stock'' [key_input ''material'', demo_input ''uom'' ''Unit''] [fact_output ''qty'' ''Stk''],
      reader ''Info'' [] [demo_output ''unit'' ''Unit'']]"

definition demo_request_draft :: "string list \<Rightarrow> goal_draft" where
  "demo_request_draft fact_types = \<lparr>draft_schema_version = 1,
     requested_facts = map (\<lambda>f. \<lparr>requested_fact_type = f, requested_fields = [JStr ''qty''],
       selectors = [\<lparr>object_type_id = ''M'', selector_key = ''material'', selector_value = ''7''\<rparr>]\<rparr>) fact_types,
     draft_constraints = [], analysis_nodes = [], requested_conclusions = [], assumptions = []\<rparr>"

definition demo_pinned :: pinned_release where
  "demo_pinned = \<lparr>allowlist_fields = [(''Stk'', [''qty'']), (''Ord'', [''qty'']), (''Mat'', [''qty''])],
     pinned_operators = [''count''], operator_versions = [(''count'', JStr ''1'')], semantic_snapshot_id = ''sem''\<rparr>"

definition demo_registry_snapshot :: registry_snapshot where
  "demo_registry_snapshot = \<lparr>snapshot_version = 1, canonicalization_version = 1, snapshot_id = ''s'', sources_of = []\<rparr>"

definition demo_resolution :: resolution where
  "demo_resolution = projr (the (resolve id (demo_request_draft [''Stk'']) demo_pinned demo_readers demo_registry_snapshot))"

definition demo_visible :: "capability_card list" where
  "demo_visible = projr (rbind (discover_cards demo_registry_snapshot demo_readers) (\<lambda>cs. visible_read_cards cs demo_readers))"

lemma demo_resolved:
  "resolve id (demo_request_draft [''Stk'']) demo_pinned demo_readers demo_registry_snapshot = Some (Inr demo_resolution)"
  "res_status demo_resolution = ''complete''"
  by code_simp+

lemma demo_cards:
  "discover_cards demo_registry_snapshot demo_readers = Inr (projr (discover_cards demo_registry_snapshot demo_readers))"
  "visible_read_cards (projr (discover_cards demo_registry_snapshot demo_readers)) demo_readers = Inr demo_visible"
  by code_simp+

lemma iterates_id: "iterates id" by (simp add: iterates_def)
lemma iterates_rev: "iterates rev" by (simp add: iterates_def)

lemma close_inputs_terminates_witness: "\<exists>r. close_inputs rev demo_readers [] [] [] [] = Some r"
  by (rule close_inputs_terminates [OF iterates_rev])

lemma resolve_order_independent_witness:
  "\<exists>r'. resolve rev (demo_request_draft [''Stk'']) demo_pinned demo_readers demo_registry_snapshot = Some (Inr r')
     \<and> res_closure r' = [ClosureBinding ''Stock'' ''uom'' ''Info'' ''Mat'' ''unit'']"
proof -
  have "res_closure demo_resolution = [ClosureBinding ''Stock'' ''uom'' ''Info'' ''Mat'' ''unit'']" by code_simp
  with resolve_order_independent [OF iterates_id iterates_rev demo_resolved(1)] show ?thesis by auto
qed

lemma complete_resolution_sound_witness: "map desired_type (res_desired demo_resolution) = [''Stk'']"
  using complete_resolution_sound [OF demo_resolved demo_cards]
  by (auto simp: demo_request_draft_def list_all2_Cons1)

lemma complete_resolution_closed_witness:
  "list_all (\<lambda>b. bound_producer b \<in> set (planned_capabilities demo_resolution)) (res_closure demo_resolution)"
proof -
  have "\<not> isl (derive_data_dependencies demo_readers)" by code_simp
  then obtain view where "derive_data_dependencies demo_readers = Inr view" by (cases "derive_data_dependencies demo_readers") auto
  from complete_resolution_closed [OF demo_resolved iterates_id demo_cards this] show ?thesis by (simp add: list_all_iff)
qed

section \<open>Where the resolver surprises\<close>

text \<open>
  The bound producer is the one visible producer of the fact type, not the producer of the derived edge.
  Where the edge comes from a WRITE capability the consumer can be bound to its own output: the resolution is
  complete, with a capability that waits for itself.
\<close>

definition self_bound_documents :: source_documents where
  "self_bound_documents = demo_documents
     [reader ''Info'' [demo_input ''uom'' ''Unit''] [fact_output ''unit'' ''Mat''],
      writer ''Create'' [] [demo_output ''unit'' ''Unit'']]"

lemma resolver_binds_consumer_to_itself:
  "case resolve id (demo_request_draft [''Mat'']) demo_pinned self_bound_documents demo_registry_snapshot of
     Some (Inr r) \<Rightarrow> res_status r = ''complete'' \<and> res_closure r = [ClosureBinding ''Info'' ''uom'' ''Info'' ''Mat'' ''unit'']
   | _ \<Rightarrow> False"
  by code_simp

text \<open>The clarifications of two planned consumers follow the iteration order of the set.\<close>

definition unclear_documents :: source_documents where
  "unclear_documents = demo_documents
     [reader ''Stock'' [demo_input ''uom'' ''Unit''] [fact_output ''qty'' ''Stk''],
      reader ''Orders'' [demo_input ''unit'' ''Unit''] [fact_output ''qty'' ''Ord''],
      writer ''Create'' [] [demo_output ''unit'' ''Unit'']]"

lemma clarification_order_depends_on_set_order:
  "map_option (map_sum id res_clarification)
     (resolve id (demo_request_draft [''Stk'', ''Ord'']) demo_pinned unclear_documents demo_registry_snapshot)
   = Some (Inr [''MISSING_SELECTOR_VALUE:unit'', ''MISSING_SELECTOR_VALUE:uom''])"
  "map_option (map_sum id res_clarification)
     (resolve rev (demo_request_draft [''Stk'', ''Ord'']) demo_pinned unclear_documents demo_registry_snapshot)
   = Some (Inr [''MISSING_SELECTOR_VALUE:uom'', ''MISSING_SELECTOR_VALUE:unit''])"
  by code_simp+

end
