(* ===== verification/Plan_Correctness.thy ===== *)
theory Plan_Correctness
  imports Plan_Validation
begin

text \<open>
  What the plan validators accept.  Each check is characterised by a predicate on the plan that does
  not mention issues or indexes; together they give the exact meaning of a valid report, and the
  safety of a valid plan follows from it.
\<close>

section \<open>Reading the node index\<close>

definition plan_entry :: "typed_graph \<Rightarrow> 'a plan_graph_scheme \<Rightarrow> string \<Rightarrow> plan_node \<Rightarrow> capability \<Rightarrow> bool" where
  "plan_entry g plan i node cap \<longleftrightarrow>
     node \<in> set (plan_nodes plan) \<and> node_id node = i \<and> map_of (capability_table g) (node_capability node) = Some cap"

lemma known_entries_mem:
  "(i, k, node, cap) \<in> set (known_entries g plan) \<longleftrightarrow>
     (k, node) \<in> set (enumerate_list (plan_nodes plan)) \<and> node_id node = i
     \<and> map_of (capability_table g) (node_capability node) = Some cap"
  by (force simp: known_entries_def split: option.splits)

lemma known_entries_distinct:
  assumes "distinct (map node_id (plan_nodes plan))"
  shows "distinct (map fst (known_entries g plan))"
  unfolding known_entries_def
proof (rule distinct_concat_keys [where key = "\<lambda>kn. node_id (snd kn)"])
  show "distinct (map (\<lambda>kn. node_id (snd kn)) (enumerate_list (plan_nodes plan)))" using assms by simp
qed (auto split: option.splits)

lemma node_index_mem:
  assumes "distinct (map node_id (plan_nodes plan))"
  shows "(i, k, node, cap) \<in> set (node_index_of g plan) \<longleftrightarrow>
     (k, node) \<in> set (enumerate_list (plan_nodes plan)) \<and> node_id node = i
     \<and> map_of (capability_table g) (node_capability node) = Some cap"
  unfolding node_index_of_def dict_of_distinct [OF known_entries_distinct [OF assms]] known_entries_mem ..

lemma node_index_distinct: "distinct (map fst (node_index_of g plan))"
  unfolding node_index_of_def by (rule distinct_dict_of)

lemma node_index_lookup:
  assumes "distinct (map node_id (plan_nodes plan))"
  shows "(\<exists>k. map_of (node_index_of g plan) i = Some (k, node, cap)) \<longleftrightarrow> plan_entry g plan i node cap"
  unfolding map_of_eq_Some_iff [OF node_index_distinct] node_index_mem [OF assms] plan_entry_def
  using enumerate_list_ex [of node "plan_nodes plan"] by blast

lemma sorted_entries_mem: "e \<in> set (sorted_entries index) \<longleftrightarrow> e \<in> snd ` set index"
  by (simp add: sorted_entries_def)

lemma sorted_entries_all:
  assumes "distinct (map node_id (plan_nodes plan))"
  shows "(\<forall>e \<in> set (sorted_entries (node_index_of g plan)). P (fst e) (fst (snd e)) (snd (snd e))) \<longleftrightarrow>
     (\<forall>k node cap. (k, node) \<in> set (enumerate_list (plan_nodes plan)) \<longrightarrow>
        map_of (capability_table g) (node_capability node) = Some cap \<longrightarrow> P k node cap)"
proof -
  have "(k, node, cap) \<in> set (sorted_entries (node_index_of g plan)) \<longleftrightarrow>
      (k, node) \<in> set (enumerate_list (plan_nodes plan)) \<and> map_of (capability_table g) (node_capability node) = Some cap"
    for k node cap
  proof -
    have "(k, node, cap) \<in> set (sorted_entries (node_index_of g plan)) \<longleftrightarrow>
        (\<exists>i. (i, k, node, cap) \<in> set (node_index_of g plan))"
      unfolding sorted_entries_mem by force
    then show ?thesis unfolding node_index_mem [OF assms] by blast
  qed
  then show ?thesis by fastforce
qed

section \<open>What each check accepts\<close>

lemma duplicate_ids_from_Nil:
  "duplicate_ids_from collection id_field index seen is = [] \<longleftrightarrow> distinct is \<and> set is \<inter> set seen = {}"
  by (induction collection id_field index seen "is" rule: duplicate_ids_from.induct) auto

lemma stable_ids_Nil:
  "validate_plan_stable_ids plan = [] \<longleftrightarrow>
     distinct (map node_id (plan_nodes plan)) \<and> distinct (map edge_id (plan_edges plan))"
  by (simp add: validate_plan_stable_ids_def duplicate_ids_from_Nil)

definition identity_ok :: "registry_snapshot \<Rightarrow> goal_spec \<Rightarrow> 'a plan_graph_scheme \<Rightarrow> bool" where
  "identity_ok snapshot goal plan \<longleftrightarrow>
     plan_snapshot_id plan = snapshot_id snapshot \<and> plan_goal_id plan = goal_id goal
     \<and> plan_execution_mode plan = execution_mode goal"

lemma identity_Nil: "validate_snapshot_and_goal_identity snapshot goal plan = [] \<longleftrightarrow> identity_ok snapshot goal plan"
  by (simp add: validate_snapshot_and_goal_identity_def identity_ok_def)

text \<open>A node repeats the facts and the governance the registry has for its capability.\<close>

definition projects :: "plan_node \<Rightarrow> capability \<Rightarrow> bool" where
  "projects node cap \<longleftrightarrow>
     sort (produces_fact_types node) = sorted_set (output_facts cap)
     \<and> capability_kind node = cap_kind cap \<and> node_governance node = cap_governance cap"

definition nodes_ok :: "typed_graph \<Rightarrow> 'a plan_graph_scheme \<Rightarrow> bool" where
  "nodes_ok g plan \<longleftrightarrow>
     (\<forall>node \<in> set (plan_nodes plan).
        \<exists>cap. map_of (capability_table g) (node_capability node) = Some cap \<and> projects node cap)"

lemma nodes_Nil: "concat (map (node_issues g) (enumerate_list (plan_nodes plan))) = [] \<longleftrightarrow> nodes_ok g plan"
proof -
  have "node_issues g kn = [] \<longleftrightarrow>
      (\<exists>cap. map_of (capability_table g) (node_capability (snd kn)) = Some cap \<and> projects (snd kn) cap)" for kn
    by (cases kn) (auto simp: node_issues_def node_projection_issues_def projects_def split: option.splits)
  then have "concat (map (node_issues g) (enumerate_list (plan_nodes plan))) = [] \<longleftrightarrow>
      (\<forall>kn \<in> set (enumerate_list (plan_nodes plan)).
         \<exists>cap. map_of (capability_table g) (node_capability (snd kn)) = Some cap \<and> projects (snd kn) cap)"
    by simp
  also have "\<dots> \<longleftrightarrow> nodes_ok g plan"
    unfolding nodes_ok_def
    by (rule enumerate_all [of _ "\<lambda>node. \<exists>cap. map_of (capability_table g) (node_capability node) = Some cap \<and> projects node cap"])
  finally show ?thesis .
qed

subsection \<open>Parameter sources\<close>

definition source_ok ::
    "typed_graph \<Rightarrow> goal_spec \<Rightarrow> 'a plan_graph_scheme \<Rightarrow> input_field \<Rightarrow> parameter_source \<Rightarrow> bool" where
  "source_ok g goal plan input source =
     (case source of
        GoalConstraint name \<Rightarrow>
          binding_kind input = ''identifier'' \<and>
          (\<exists>c. map_of (constraint_table_of goal) name = Some c \<and> constraint_semantic_type c = input_semantic_type input)
      | Literal semantic_type _ \<Rightarrow>
          binding_kind input = ''identifier'' \<and> semantic_type = input_semantic_type input
      | FactField producer fact_type_id field \<Rightarrow>
          satisfiable_by input = Some fact_type_id \<and> fact_type_id \<noteq> [] \<and>
          (\<exists>node cap. plan_entry g plan producer node cap \<and>
             (\<exists>out \<in> set (cap_outputs cap). output_name out = field \<and> fact_type_ref out = Some fact_type_id))
      | RegisteredDefault _ _ _ \<Rightarrow> False)"

lemma source_v2_total: "\<exists>found. validate_parameter_source_v2 k i input source ct index = Inr found"
  by (cases source) (auto simp: validate_parameter_source_v2_def validate_parameter_source_def Let_def)

lemma source_v2_Nil:
  assumes "distinct (map node_id (plan_nodes plan))"
  shows "validate_parameter_source_v2 k i input source (constraint_table_of goal) (node_index_of g plan) = Inr []
     \<longleftrightarrow> source_ok g goal plan input source"
proof (cases source)
  case (FactField producer fact_type_id field)
  show ?thesis
  proof (cases "map_of (node_index_of g plan) producer")
    case None
    then have "\<not> (\<exists>node cap. plan_entry g plan producer node cap)"
      using node_index_lookup [OF assms, of g producer] by auto
    then show ?thesis using None FactField
      by (auto simp: validate_parameter_source_v2_def validate_parameter_source_def source_ok_def Let_def)
  next
    case (Some entry)
    obtain k' node cap where entry: "entry = (k', node, cap)" by (cases entry)
    have "plan_entry g plan producer node' cap' \<longleftrightarrow> node' = node \<and> cap' = cap" for node' cap'
      using node_index_lookup [OF assms, of g producer node' cap'] Some entry by auto
    then show ?thesis using Some entry FactField
      by (auto simp: validate_parameter_source_v2_def validate_parameter_source_def source_ok_def Let_def)
  qed
qed (auto simp: validate_parameter_source_v2_def validate_parameter_source_def source_ok_def Let_def
    validate_registered_default_source_def split: option.splits)

definition bindings_ok :: "typed_graph \<Rightarrow> goal_spec \<Rightarrow> 'a plan_graph_scheme \<Rightarrow> plan_node \<Rightarrow> capability \<Rightarrow> bool" where
  "bindings_ok g goal plan node cap \<longleftrightarrow>
     distinct (map parameter_name (parameter_bindings node)) \<and>
     (\<forall>b \<in> set (parameter_bindings node).
        \<exists>input. map_of (node_inputs cap) (parameter_name b) = Some input \<and> source_ok g goal plan input (binding_source b)) \<and>
     (\<forall>name input. map_of (node_inputs cap) name = Some input \<longrightarrow> input_required input \<longrightarrow>
        name \<in> parameter_name ` set (parameter_bindings node))"

definition matches_of :: "plan_node \<Rightarrow> string \<Rightarrow> (nat \<times> parameter_binding) list" where
  "matches_of node name = filter (\<lambda>ib. parameter_name (snd ib) = name) (enumerate_list (parameter_bindings node))"

lemma registered_bindings_get:
  assumes "map_of (node_inputs cap) name \<noteq> None"
  shows "group_get (registered_bindings (k, node, cap)) name = matches_of node name"
proof -
  have "filter (\<lambda>e. fst e = name) (map (\<lambda>(i, b). (parameter_name b, (i, b)))
      (filter (\<lambda>(i, b). map_of (node_inputs cap) (parameter_name b) \<noteq> None) xs))
    = map (\<lambda>ib. (parameter_name (snd ib), ib)) (filter (\<lambda>ib. parameter_name (snd ib) = name) xs)"
    for xs :: "(nat \<times> parameter_binding) list"
    using assms by (induction xs) auto
  then show ?thesis by (simp add: registered_bindings_def dict_simps matches_of_def comp_def)
qed

lemma unregistered_Nil:
  "unregistered_binding_issues (k, node, cap) = [] \<longleftrightarrow>
     (\<forall>b \<in> set (parameter_bindings node). map_of (node_inputs cap) (parameter_name b) \<noteq> None)"
proof -
  have "unregistered_binding_issues (k, node, cap) = [] \<longleftrightarrow>
      (\<forall>ib \<in> set (enumerate_list (parameter_bindings node)). map_of (node_inputs cap) (parameter_name (snd ib)) \<noteq> None)"
  proof -
    have "(case ib of (i, b) \<Rightarrow> if map_of (node_inputs cap) (parameter_name b) = None then
         [ValidationIssue (at_index (node_path k ''parameterBindings'') i @ ''/parameterName'')
            ''PLAN_PROJECTION_MISMATCH'' (''parameter is not registered: '' @ parameter_name b)]
       else []) = [] \<longleftrightarrow> map_of (node_inputs cap) (parameter_name (snd ib)) \<noteq> None" for ib :: "nat \<times> parameter_binding"
      by (cases ib) simp
    then show ?thesis by (simp add: unregistered_binding_issues_def)
  qed
  also have "\<dots> \<longleftrightarrow> (\<forall>b \<in> set (parameter_bindings node). map_of (node_inputs cap) (parameter_name b) \<noteq> None)"
    by (rule enumerate_all [of _ "\<lambda>b. map_of (node_inputs cap) (parameter_name b) \<noteq> None"])
  finally show ?thesis .
qed

lemma input_binding_Nil:
  assumes "map_of (node_inputs cap) name = Some input"
  shows "input_binding_issues check ct index (k, node, cap) (name, input) = Inr [] \<longleftrightarrow>
     (input_required input \<longrightarrow> matches_of node name \<noteq> []) \<and> length (matches_of node name) \<le> 1 \<and>
     (\<forall>ib \<in> set (matches_of node name). check k (fst ib) input (binding_source (snd ib)) ct index = Inr [])"
proof -
  have get: "group_get (registered_bindings (k, node, cap)) name = matches_of node name"
    by (rule registered_bindings_get) (simp add: assms)
  consider "matches_of node name = []" | i b where "matches_of node name = [(i, b)]"
    | x y zs where "matches_of node name = x # y # zs"
    by (metis neq_Nil_conv prod.exhaust)
  then show ?thesis
  proof cases
    case 2
    then show ?thesis
      by (cases "check k i input (binding_source b) ct index") (simp_all add: input_binding_issues_def get Let_def)
  qed (simp_all add: input_binding_issues_def get Let_def split: prod.splits)
qed

lemma node_inputs_mem: "(name, input) \<in> set (node_inputs cap) \<longleftrightarrow> map_of (node_inputs cap) name = Some input"
  unfolding node_inputs_def by (rule map_of_eq_Some_iff [OF distinct_dict_of, symmetric])

lemma matches_of_mem:
  "ib \<in> set (matches_of node name) \<longleftrightarrow>
     ib \<in> set (enumerate_list (parameter_bindings node)) \<and> parameter_name (snd ib) = name"
  by (auto simp: matches_of_def)

lemma matches_of_empty: "matches_of node name = [] \<longleftrightarrow> name \<notin> parameter_name ` set (parameter_bindings node)"
proof -
  have "matches_of node name = [] \<longleftrightarrow> (\<forall>ib \<in> set (enumerate_list (parameter_bindings node)). parameter_name (snd ib) \<noteq> name)"
    by (simp add: matches_of_def filter_empty_conv)
  also have "\<dots> \<longleftrightarrow> (\<forall>b \<in> set (parameter_bindings node). parameter_name b \<noteq> name)"
    by (rule enumerate_all [of _ "\<lambda>b. parameter_name b \<noteq> name"])
  finally show ?thesis by auto
qed

lemma length_matches_of: "length (matches_of node name) = length (filter (\<lambda>b. parameter_name b = name) (parameter_bindings node))"
proof -
  have "map snd (filter (\<lambda>ib. P (snd ib)) xs) = filter P (map snd xs)" for P and xs :: "(nat \<times> parameter_binding) list"
    by (induction xs) auto
  then have "map snd (matches_of node name) =
      filter (\<lambda>b. parameter_name b = name) (map snd (enumerate_list (parameter_bindings node)))"
    by (simp only: matches_of_def)
  also have "map snd (enumerate_list (parameter_bindings node)) = parameter_bindings node"
    by (simp add: enumerate_list_def)
  finally show ?thesis by (metis length_map)
qed

lemma node_parameter_Nil:
  assumes ids: "distinct (map node_id (plan_nodes plan))"
  shows "node_parameter_issues validate_parameter_source_v2 (constraint_table_of goal) (node_index_of g plan) (k, node, cap) = Inr []
     \<longleftrightarrow> bindings_ok g goal plan node cap"
proof -
  let ?bs = "parameter_bindings node" and ?in = "map_of (node_inputs cap)"
  have each: "(\<forall>ni \<in> set (node_inputs cap). input_binding_issues validate_parameter_source_v2 (constraint_table_of goal)
        (node_index_of g plan) (k, node, cap) ni = Inr []) \<longleftrightarrow>
      (\<forall>name input. ?in name = Some input \<longrightarrow>
         (input_required input \<longrightarrow> name \<in> parameter_name ` set ?bs) \<and>
         length (filter (\<lambda>b. parameter_name b = name) ?bs) \<le> 1 \<and>
         (\<forall>b \<in> set ?bs. parameter_name b = name \<longrightarrow> source_ok g goal plan input (binding_source b)))"
  proof -
    have "(\<forall>ib \<in> set (matches_of node name). source_ok g goal plan input (binding_source (snd ib))) \<longleftrightarrow>
        (\<forall>b \<in> set ?bs. parameter_name b = name \<longrightarrow> source_ok g goal plan input (binding_source b))" for name input
      unfolding matches_of_mem Ball_def
      using enumerate_all [of ?bs "\<lambda>b. parameter_name b = name \<longrightarrow> source_ok g goal plan input (binding_source b)"]
      unfolding Ball_def by blast
    moreover have "(\<forall>ni \<in> set (node_inputs cap). Q ni) \<longleftrightarrow>
        (\<forall>name input. ?in name = Some input \<longrightarrow> Q (name, input))" for Q
      unfolding node_inputs_mem [symmetric] by auto
    ultimately show ?thesis
      by (simp add: input_binding_Nil source_v2_Nil [OF ids] length_matches_of matches_of_empty)
  qed
  have "node_parameter_issues validate_parameter_source_v2 (constraint_table_of goal) (node_index_of g plan) (k, node, cap) = Inr []
     \<longleftrightarrow> (\<forall>b \<in> set ?bs. ?in (parameter_name b) \<noteq> None) \<and>
      (\<forall>name input. ?in name = Some input \<longrightarrow>
         (input_required input \<longrightarrow> name \<in> parameter_name ` set ?bs) \<and>
         length (filter (\<lambda>b. parameter_name b = name) ?bs) \<le> 1 \<and>
         (\<forall>b \<in> set ?bs. parameter_name b = name \<longrightarrow> source_ok g goal plan input (binding_source b)))"
    unfolding each [symmetric] unregistered_Nil [of k, symmetric] collectM_eq_Nil [symmetric]
    by (auto simp: node_parameter_issues_def append_results_eq)
  also have "\<dots> \<longleftrightarrow> bindings_ok g goal plan node cap"
  proof (cases "\<forall>b \<in> set ?bs. ?in (parameter_name b) \<noteq> None")
    case True
    have short: "(\<forall>name input. ?in name = Some input \<longrightarrow> length (filter (\<lambda>b. parameter_name b = name) ?bs) \<le> 1)
        \<longleftrightarrow> distinct (map parameter_name ?bs)"
      unfolding length_le_1_distinct [symmetric]
    proof (intro iffI allI impI)
      fix name
      assume a: "\<forall>name input. ?in name = Some input \<longrightarrow> length (filter (\<lambda>b. parameter_name b = name) ?bs) \<le> 1"
      show "length (filter (\<lambda>b. parameter_name b = name) ?bs) \<le> 1"
      proof (cases "?in name")
        case None
        with True have "filter (\<lambda>b. parameter_name b = name) ?bs = []" by (auto simp: filter_empty_conv)
        then show ?thesis by simp
      qed (use a in blast)
    qed blast
    have src: "(\<forall>name input. ?in name = Some input \<longrightarrow>
          (\<forall>b \<in> set ?bs. parameter_name b = name \<longrightarrow> source_ok g goal plan input (binding_source b)))
        \<longleftrightarrow> (\<forall>b \<in> set ?bs. \<exists>input. ?in (parameter_name b) = Some input \<and> source_ok g goal plan input (binding_source b))"
      using True by fastforce
    show ?thesis unfolding bindings_ok_def short [symmetric] src [symmetric] using True by blast
  qed (auto simp: bindings_ok_def)
  finally show ?thesis .
qed


subsection \<open>Edges\<close>

definition fact_sources :: "typed_graph \<Rightarrow> 'a plan_graph_scheme \<Rightarrow> data_key set" where
  "fact_sources g plan =
     {(producer, consumer, f). \<exists>node cap b field. plan_entry g plan consumer node cap
        \<and> b \<in> set (parameter_bindings node) \<and> binding_source b = FactField producer f field}"

definition data_keys :: "'a plan_graph_scheme \<Rightarrow> data_key list" where
  "data_keys plan = concat (map (\<lambda>e. case e of
     DataEdge _ source target f \<Rightarrow> [(source, target, f)] | DependencyEdge _ _ _ \<Rightarrow> []) (plan_edges plan))"

definition dependency_keys :: "'a plan_graph_scheme \<Rightarrow> (string \<times> string) list" where
  "dependency_keys plan = concat (map (\<lambda>e. case e of
     DataEdge _ _ _ _ \<Rightarrow> [] | DependencyEdge _ source target \<Rightarrow> [(source, target)]) (plan_edges plan))"

text \<open>The node pairs an authored dependency between their capabilities requires.\<close>

definition required_dependencies :: "typed_graph \<Rightarrow> 'a plan_graph_scheme \<Rightarrow> (string \<times> string) set" where
  "required_dependencies g plan =
     {(prerequisite, dependent). \<exists>e pn pc dn dc. e \<in> set (authored_dependency_edges g)
        \<and> plan_entry g plan dependent dn dc \<and> capability_id dc = source_id e
        \<and> plan_entry g plan prerequisite pn pc \<and> capability_id pc = target_id e}"

definition prerequisites_present :: "typed_graph \<Rightarrow> 'a plan_graph_scheme \<Rightarrow> bool" where
  "prerequisites_present g plan \<longleftrightarrow>
     (\<forall>e \<in> set (authored_dependency_edges g). \<forall>dependent dn dc.
        plan_entry g plan dependent dn dc \<longrightarrow> capability_id dc = source_id e \<longrightarrow>
        (\<exists>prerequisite pn pc. plan_entry g plan prerequisite pn pc \<and> capability_id pc = target_id e))"

definition edges_ok :: "typed_graph \<Rightarrow> 'a plan_graph_scheme \<Rightarrow> bool" where
  "edges_ok g plan \<longleftrightarrow>
     distinct (data_keys plan) \<and> set (data_keys plan) = fact_sources g plan \<and>
     prerequisites_present g plan \<and>
     distinct (dependency_keys plan) \<and> set (dependency_keys plan) = required_dependencies g plan"

lemma data_edge_table_keys:
  "map fst (concat (map (\<lambda>(i, e). case e of
         DataEdge _ source target fact_type_id \<Rightarrow> [((source, target, fact_type_id), i)]
       | DependencyEdge _ _ _ \<Rightarrow> []) (enumerate_list (plan_edges plan)))) = data_keys plan"
  unfolding data_keys_def by (rule map_fst_concat_enumerate) (simp split: plan_edge.split)

lemma dependency_edge_table_keys:
  "map fst (concat (map (\<lambda>(i, e). case e of
         DataEdge _ _ _ _ \<Rightarrow> []
       | DependencyEdge _ source target \<Rightarrow> [((source, target), i)]) (enumerate_list (plan_edges plan)))) = dependency_keys plan"
  unfolding dependency_keys_def by (rule map_fst_concat_enumerate) (simp split: plan_edge.split)

lemma length_data_group:
  "length (group_get (data_edge_table plan) k) = length (filter (\<lambda>x. x = k) (data_keys plan))"
  unfolding data_edge_table_def length_group_get data_edge_table_keys ..

lemma length_dependency_group:
  "length (group_get (dependency_edge_table plan) k) = length (filter (\<lambda>x. x = k) (dependency_keys plan))"
  unfolding dependency_edge_table_def length_group_get dependency_edge_table_keys ..

lemma data_table_all:
  "(\<forall>e \<in> set (data_edge_table plan). P (fst e) (snd e)) \<longleftrightarrow>
     (\<forall>k \<in> set (data_keys plan). P k (group_get (data_edge_table plan) k))"
  unfolding data_edge_table_def group_by_all data_edge_table_keys [symmetric] set_map ..

lemma dependency_table_all:
  "(\<forall>e \<in> set (dependency_edge_table plan). P (fst e) (snd e)) \<longleftrightarrow>
     (\<forall>k \<in> set (dependency_keys plan). P k (group_get (dependency_edge_table plan) k))"
  unfolding dependency_edge_table_def group_by_all dependency_edge_table_keys [symmetric] set_map ..

lemma expected_data_keys:
  assumes "distinct (map node_id (plan_nodes plan))"
  shows "map_of (expected_data (node_index_of g plan)) k = None \<longleftrightarrow> k \<notin> fact_sources g plan"
    and "fst ` set (expected_data (node_index_of g plan)) = fact_sources g plan"
proof -
  let ?index = "node_index_of g plan"
  let ?kvs = "concat (map (\<lambda>(consumer, node_position, node, _).
       concat (map (fact_source_entry consumer node_position) (enumerate_list (parameter_bindings node)))) ?index)"
  have entry: "(key, path) \<in> set (fact_source_entry c pos ib) \<longleftrightarrow>
      (\<exists>p f fld. binding_source (snd ib) = FactField p f fld \<and> key = (p, c, f) \<and> path = source_path_at pos (fst ib))"
    for key path c pos ib
    by (cases ib; cases "binding_source (snd ib)") (auto simp: fact_source_entry_def)
  have "k \<in> fst ` set ?kvs \<longleftrightarrow> k \<in> fact_sources g plan" for k
  proof -
    have "k \<in> fst ` set ?kvs \<longleftrightarrow> (\<exists>c pos node cap ib path. (c, pos, node, cap) \<in> set ?index \<and>
        ib \<in> set (enumerate_list (parameter_bindings node)) \<and> (k, path) \<in> set (fact_source_entry c pos ib))"
      by force
    also have "\<dots> \<longleftrightarrow> (\<exists>c node cap b p f fld. plan_entry g plan c node cap \<and> b \<in> set (parameter_bindings node)
        \<and> binding_source b = FactField p f fld \<and> k = (p, c, f))"
    proof
      assume "\<exists>c pos node cap ib path. (c, pos, node, cap) \<in> set ?index \<and>
        ib \<in> set (enumerate_list (parameter_bindings node)) \<and> (k, path) \<in> set (fact_source_entry c pos ib)"
      then obtain c pos node cap i b path where a: "(c, pos, node, cap) \<in> set ?index"
        "(i, b) \<in> set (enumerate_list (parameter_bindings node))" "(k, path) \<in> set (fact_source_entry c pos (i, b))"
        by force
      from a(1) have "plan_entry g plan c node cap"
        using node_index_lookup [OF assms] map_of_is_SomeI [OF node_index_distinct] by blast
      moreover from a(2) have "b \<in> set (parameter_bindings node)" using enumerate_list_ex by fast
      ultimately show "\<exists>c node cap b p f fld. plan_entry g plan c node cap \<and> b \<in> set (parameter_bindings node)
        \<and> binding_source b = FactField p f fld \<and> k = (p, c, f)"
        using a(3) unfolding entry snd_conv by blast
    next
      assume "\<exists>c node cap b p f fld. plan_entry g plan c node cap \<and> b \<in> set (parameter_bindings node)
        \<and> binding_source b = FactField p f fld \<and> k = (p, c, f)"
      then obtain c node cap b p f fld where a: "plan_entry g plan c node cap" "b \<in> set (parameter_bindings node)"
        "binding_source b = FactField p f fld" "k = (p, c, f)" by blast
      from a(1) obtain pos where "(c, pos, node, cap) \<in> set ?index"
        unfolding node_index_lookup [OF assms, symmetric] by (auto dest: map_of_SomeD)
      moreover from a(2) obtain i where "(i, b) \<in> set (enumerate_list (parameter_bindings node))"
        using enumerate_list_ex by fast
      moreover have "(k, source_path_at pos i) \<in> set (fact_source_entry c pos (i, b))" using a unfolding entry by simp
      ultimately show "\<exists>c pos node cap ib path. (c, pos, node, cap) \<in> set ?index \<and>
        ib \<in> set (enumerate_list (parameter_bindings node)) \<and> (k, path) \<in> set (fact_source_entry c pos ib)" by blast
    qed
    also have "\<dots> \<longleftrightarrow> k \<in> fact_sources g plan" unfolding fact_sources_def by (cases k) blast
    finally show ?thesis .
  qed
  then have keys: "fst ` set ?kvs = fact_sources g plan" by blast
  then show "map_of (expected_data ?index) k = None \<longleftrightarrow> k \<notin> fact_sources g plan"
    unfolding expected_data_def group_by_map_of by simp
  show "fst ` set (expected_data ?index) = fact_sources g plan"
    unfolding expected_data_def keys_group_by by (rule keys)
qed

lemma data_edges_Nil:
  assumes ids: "distinct (map node_id (plan_nodes plan))"
  shows "missing_data_edges (node_index_of g plan) plan = [] \<and> unexpected_data_edges (node_index_of g plan) plan = []
     \<longleftrightarrow> distinct (data_keys plan) \<and> set (data_keys plan) = fact_sources g plan"
proof -
  let ?index = "node_index_of g plan"
  have nonempty: "vs \<noteq> []" if "(k, vs) \<in> set (expected_data ?index)" for k vs
    using that unfolding expected_data_def group_by_mem_get by (metis group_get_empty)
  have "missing_data_edges ?index plan = [] \<longleftrightarrow>
      (\<forall>e \<in> set (expected_data ?index). group_get (data_edge_table plan) (fst e) \<noteq> [])"
    using nonempty by (fastforce simp: missing_data_edges_def)
  also have "\<dots> \<longleftrightarrow> (\<forall>k \<in> fst ` set (expected_data ?index). group_get (data_edge_table plan) k \<noteq> [])" by simp
  also have "\<dots> \<longleftrightarrow> (\<forall>k \<in> fact_sources g plan. group_get (data_edge_table plan) k \<noteq> [])"
    by (simp only: expected_data_keys(2) [OF ids])
  also have "\<dots> \<longleftrightarrow> fact_sources g plan \<subseteq> set (data_keys plan)"
    unfolding data_edge_table_def group_get_empty set_map [symmetric] data_edge_table_keys by blast
  finally have missing: "missing_data_edges ?index plan = [] \<longleftrightarrow> fact_sources g plan \<subseteq> set (data_keys plan)" .
  have tl: "tl xs = [] \<longleftrightarrow> length xs \<le> 1" for xs :: "nat list" by (cases xs) auto
  have "unexpected_data_edges ?index plan = [] \<longleftrightarrow>
      (\<forall>e \<in> set (data_edge_table plan). if fst e \<notin> fact_sources g plan then snd e = [] else length (snd e) \<le> 1)"
    unfolding unexpected_data_edges_def concat_map_Nil
    by (rule ball_cong [OF refl]) (simp add: case_prod_beta expected_data_keys(1) [OF ids] tl del: One_nat_def)
  also have "\<dots> \<longleftrightarrow> (\<forall>k \<in> set (data_keys plan). if k \<notin> fact_sources g plan then group_get (data_edge_table plan) k = []
      else length (filter (\<lambda>x. x = k) (data_keys plan)) \<le> 1)"
    unfolding data_table_all [of plan "\<lambda>k vs. if k \<notin> fact_sources g plan then vs = [] else length vs \<le> 1"] length_data_group ..
  also have "\<dots> \<longleftrightarrow> (\<forall>k \<in> set (data_keys plan). k \<in> fact_sources g plan
      \<and> length (filter (\<lambda>x. x = k) (data_keys plan)) \<le> 1)"
    unfolding data_edge_table_def group_get_empty set_map [symmetric] data_edge_table_keys by auto
  finally have "unexpected_data_edges ?index plan = [] \<longleftrightarrow>
      set (data_keys plan) \<subseteq> fact_sources g plan \<and> distinct (data_keys plan)"
    unfolding count_distinct [symmetric] by blast
  with missing show ?thesis by blast
qed


lemma nodes_by_capability_mem:
  assumes "distinct (map node_id (plan_nodes plan))"
  shows "i \<in> set (group_get (nodes_by_capability (node_index_of g plan)) c) \<longleftrightarrow>
     (\<exists>node cap. plan_entry g plan i node cap \<and> capability_id cap = c)"
proof -
  have "i \<in> set (group_get (nodes_by_capability (node_index_of g plan)) c) \<longleftrightarrow>
      (\<exists>k node cap. (i, k, node, cap) \<in> set (node_index_of g plan) \<and> capability_id cap = c)"
    unfolding nodes_by_capability_def dict_simps by force
  also have "\<dots> \<longleftrightarrow> (\<exists>k node cap. map_of (node_index_of g plan) i = Some (k, node, cap) \<and> capability_id cap = c)"
    unfolding map_of_eq_Some_iff [OF node_index_distinct] ..
  finally show ?thesis using node_index_lookup [OF assms] by blast
qed

lemma expected_dependencies_set:
  assumes "distinct (map node_id (plan_nodes plan))"
  shows "set (expected_dependencies g (node_index_of g plan)) = required_dependencies g plan"
proof -
  have "(p, d) \<in> set (expected_dependencies g (node_index_of g plan)) \<longleftrightarrow>
      (\<exists>e \<in> set (authored_dependency_edges g).
         d \<in> set (group_get (nodes_by_capability (node_index_of g plan)) (source_id e))
         \<and> p \<in> set (group_get (nodes_by_capability (node_index_of g plan)) (target_id e)))" for p d
    by (auto simp: expected_dependencies_def)
  also have "\<dots> p d \<longleftrightarrow> (p, d) \<in> required_dependencies g plan" for p d
    unfolding nodes_by_capability_mem [OF assms] required_dependencies_def by blast
  finally show ?thesis by auto
qed

lemma absent_prerequisites_Nil:
  assumes "distinct (map node_id (plan_nodes plan))"
  shows "absent_prerequisites g (node_index_of g plan) = [] \<longleftrightarrow> prerequisites_present g plan"
proof -
  have empty: "group_get (nodes_by_capability (node_index_of g plan)) c = [] \<longleftrightarrow>
      \<not> (\<exists>i node cap. plan_entry g plan i node cap \<and> capability_id cap = c)" for c
  proof -
    have "xs = [] \<longleftrightarrow> \<not> (\<exists>i. i \<in> set xs)" for xs :: "string list" by (cases xs) auto
    then show ?thesis unfolding nodes_by_capability_mem [OF assms, symmetric] .
  qed
  have test: "(if \<not> P \<and> Q then [x] else []) = [] \<longleftrightarrow> P \<or> \<not> Q" for P Q and x :: issue by simp
  show ?thesis
    unfolding absent_prerequisites_def prerequisites_present_def concat_map_Nil test empty
    by (rule ball_cong [OF refl]) metis
qed

lemma dependency_edges_Nil:
  assumes ids: "distinct (map node_id (plan_nodes plan))"
  shows "missing_dependency_edges g (node_index_of g plan) plan = []
     \<and> unexpected_dependency_edges g (node_index_of g plan) plan = []
     \<longleftrightarrow> distinct (dependency_keys plan) \<and> set (dependency_keys plan) = required_dependencies g plan"
proof -
  let ?index = "node_index_of g plan" and ?count = "\<lambda>k. length (filter (\<lambda>x. x = k) (dependency_keys plan))"
  have missing: "missing_dependency_edges g ?index plan = [] \<longleftrightarrow> (\<forall>d \<in> required_dependencies g plan. ?count d = 1)"
    unfolding missing_dependency_edges_def concat_map_Nil set_sorted_set expected_dependencies_set [OF ids]
      length_dependency_group by auto
  have "(case e of (d, edge_indexes) \<Rightarrow>
       if d \<notin> set (expected_dependencies g ?index) \<or> length edge_indexes \<noteq> 1 then
         map (\<lambda>i. edge_issue (at_index ''/edges'' i) ''dependency edge does not match authored dependsOn relation'') edge_indexes
       else []) = [] \<longleftrightarrow> (fst e \<in> required_dependencies g plan \<and> length (snd e) = 1 \<or> snd e = [])" for e
    unfolding expected_dependencies_set [OF ids] by (cases e) auto
  then have "unexpected_dependency_edges g ?index plan = [] \<longleftrightarrow>
      (\<forall>e \<in> set (dependency_edge_table plan). fst e \<in> required_dependencies g plan \<and> length (snd e) = 1 \<or> snd e = [])"
    unfolding unexpected_dependency_edges_def concat_map_Nil by simp
  also have "\<dots> \<longleftrightarrow> (\<forall>k \<in> set (dependency_keys plan). k \<in> required_dependencies g plan \<and> ?count k = 1 \<or>
      group_get (dependency_edge_table plan) k = [])"
    unfolding dependency_table_all [of plan "\<lambda>k vs. k \<in> required_dependencies g plan \<and> length vs = 1 \<or> vs = []"]
      length_dependency_group ..
  also have "\<dots> \<longleftrightarrow> (\<forall>k \<in> set (dependency_keys plan). k \<in> required_dependencies g plan \<and> ?count k = 1)"
    unfolding dependency_edge_table_def group_get_empty set_map [symmetric] dependency_edge_table_keys by blast
  finally have unexpected: "unexpected_dependency_edges g ?index plan = [] \<longleftrightarrow>
      (\<forall>k \<in> set (dependency_keys plan). k \<in> required_dependencies g plan \<and> ?count k = 1)" .
  have pos: "?count k = 1 \<Longrightarrow> k \<in> set (dependency_keys plan)" for k
  proof (rule ccontr)
    assume "?count k = 1" "k \<notin> set (dependency_keys plan)"
    moreover from this(2) have "filter (\<lambda>x. x = k) (dependency_keys plan) = []" by (auto simp: filter_empty_conv)
    ultimately show False by simp
  qed
  have one: "k \<in> set (dependency_keys plan) \<Longrightarrow> ?count k \<noteq> 0" for k by (auto simp: filter_empty_conv)
  show ?thesis
  proof
    assume "missing_dependency_edges g ?index plan = [] \<and> unexpected_dependency_edges g ?index plan = []"
    then have a: "\<forall>d \<in> required_dependencies g plan. ?count d = 1"
      "\<forall>k \<in> set (dependency_keys plan). k \<in> required_dependencies g plan \<and> ?count k = 1"
      unfolding missing unexpected by simp_all
    have "distinct (dependency_keys plan)" unfolding count_distinct [symmetric] using a(2) by simp
    moreover have "set (dependency_keys plan) = required_dependencies g plan" using a pos by blast
    ultimately show "distinct (dependency_keys plan) \<and> set (dependency_keys plan) = required_dependencies g plan" ..
  next
    assume a: "distinct (dependency_keys plan) \<and> set (dependency_keys plan) = required_dependencies g plan"
    have "?count k = 1" if "k \<in> set (dependency_keys plan)" for k
    proof -
      have "?count k \<le> 1" using that count_distinct [THEN iffD2, OF conjunct1 [OF a]] by blast
      with one [OF that] show ?thesis by linarith
    qed
    with a show "missing_dependency_edges g ?index plan = [] \<and> unexpected_dependency_edges g ?index plan = []"
      unfolding missing unexpected by blast
  qed
qed

lemma edge_consistency_Nil:
  assumes "distinct (map node_id (plan_nodes plan))"
  shows "edge_consistency_issues g (node_index_of g plan) plan = [] \<longleftrightarrow> edges_ok g plan"
  using data_edges_Nil [OF assms, of g] dependency_edges_Nil [OF assms, of g] absent_prerequisites_Nil [OF assms, of g]
  unfolding edge_consistency_issues_def edges_ok_def append_is_Nil_conv by blast

text \<open>The relation of the edges between plan nodes.\<close>

definition plan_relation :: "typed_graph \<Rightarrow> 'a plan_graph_scheme \<Rightarrow> (string \<times> string) set" where
  "plan_relation g plan =
     {(a, b). (\<exists>e \<in> set (plan_edges plan). from_node e = a \<and> to_node e = b)
        \<and> a \<in> fst ` set (node_index_of g plan) \<and> b \<in> fst ` set (node_index_of g plan)}"

lemma edges_plan_successors: "edges (plan_successors (node_index_of g plan) plan) = plan_relation g plan"
proof -
  let ?index = "node_index_of g plan"
  let ?f = "\<lambda>(i, e). if map_of ?index (from_node e) \<noteq> None \<and> map_of ?index (to_node e) \<noteq> None
       then [(from_node e, (to_node e, i))] else []"
  have f: "(a, b, i) \<in> set (?f ie) \<longleftrightarrow> fst ie = i \<and> from_node (snd ie) = a \<and> to_node (snd ie) = b
      \<and> a \<in> fst ` set ?index \<and> b \<in> fst ` set ?index"
    for a b i and ie :: "nat \<times> plan_edge"
    unfolding map_of_eq_None_iff by (cases ie) auto
  have "(a, b) \<in> edges (plan_successors ?index plan) \<longleftrightarrow>
      (\<exists>i ie. ie \<in> set (enumerate_list (plan_edges plan)) \<and> (a, b, i) \<in> set (?f ie))" for a b
    unfolding edges_def plan_successors_def plan_adjacency_def set_sort dict_simps by force
  also have "\<dots> a b \<longleftrightarrow> (a, b) \<in> plan_relation g plan" for a b
  proof -
    have "(\<exists>i ie. ie \<in> set (enumerate_list (plan_edges plan)) \<and> fst ie = i \<and> from_node (snd ie) = a \<and> to_node (snd ie) = b
        \<and> a \<in> fst ` set ?index \<and> b \<in> fst ` set ?index) \<longleftrightarrow>
        (\<exists>e \<in> snd ` set (enumerate_list (plan_edges plan)). from_node e = a \<and> to_node e = b)
        \<and> a \<in> fst ` set ?index \<and> b \<in> fst ` set ?index" by blast
    then show ?thesis unfolding f plan_relation_def enumerate_list_snd by blast
  qed
  finally show ?thesis by auto
qed

lemma validate_plan_edge_cycles_total:
  "\<exists>issues. validate_plan_edge_cycles (node_index_of g plan) plan = Some (Inr issues)
     \<and> (issues = [] \<longleftrightarrow> acyclic (plan_relation g plan))"
proof -
  let ?index = "node_index_of g plan"
  have "\<exists>s rs. frames_roots (plan_successors ?index plan) plan_cycle_issue (sort (map fst ?index)) dfs_start []
      = Some (Inr (s, rs)) \<and> (rs = [] \<longleftrightarrow> acyclic (edges (plan_successors ?index plan)))"
  proof (rule frames_roots_decides [where V = "fst ` set ?index"])
    show "edges (plan_successors ?index plan) \<subseteq> fst ` set ?index \<times> fst ` set ?index"
      unfolding edges_plan_successors plan_relation_def by auto
  qed simp_all
  then show ?thesis unfolding edges_plan_successors validate_plan_edge_cycles_def by auto
qed

text \<open>
  C21: the cycle check of a plan ends and decides.  Its loop over frames terminates on every plan, never
  raises, and reports nothing exactly when the edges between plan nodes have no cycle.
\<close>

theorem validate_plan_edge_cycles_decides:
  "\<exists>issues. validate_plan_edge_cycles (node_index_of g plan) plan = Some (Inr issues)
     \<and> (issues = [] \<longleftrightarrow> acyclic (plan_relation g plan))"
  by (rule validate_plan_edge_cycles_total)

subsection \<open>Order\<close>

definition before :: "string list \<Rightarrow> string \<Rightarrow> string \<Rightarrow> bool" where
  "before order a b \<longleftrightarrow> (\<exists>i j. i < j \<and> j < length order \<and> order ! i = a \<and> order ! j = b)"

lemma before_acyclic:
  assumes "distinct order" and "\<And>a b. (a, b) \<in> rel \<Longrightarrow> before order a b"
  shows "acyclic rel"
proof -
  let ?pos = "\<lambda>n. THE i. i < length order \<and> order ! i = n"
  have pos: "?pos (order ! i) = i" if "i < length order" for i
    using that assms(1) by (intro the_equality) (auto simp: nth_eq_iff_index_eq)
  have "(a, b) \<in> measure ?pos" if "(a, b) \<in> rel" for a b
  proof -
    from assms(2) [OF that] obtain i j where "i < j" "j < length order" "order ! i = a" "order ! j = b"
      by (auto simp: before_def)
    then show ?thesis using pos [of i] pos [of j] by simp
  qed
  then have "rel \<subseteq> measure ?pos" by auto
  then show ?thesis using wf_acyclic [OF wf_measure] acyclic_subset by blast
qed

lemma order_positions_lookup:
  assumes "distinct order"
  shows "map_of (order_positions order) n = Some i \<longleftrightarrow> i < length order \<and> order ! i = n"
proof -
  have "distinct (map fst (map (\<lambda>(i, n). (n, i)) (enumerate_list order)))"
    using assms map_snd_enumerate [of "\<lambda>x. x" order] by (simp add: case_prod_beta comp_def)
  then have "map_of (order_positions order) n = Some i \<longleftrightarrow> (n, i) \<in> set (map (\<lambda>(i, n). (n, i)) (enumerate_list order))"
    unfolding order_positions_def map_of_eq_Some_iff [OF distinct_dict_of] by (simp only: dict_of_distinct)
  also have "\<dots> \<longleftrightarrow> (i, n) \<in> set (enumerate_list order)" by auto
  finally show ?thesis by (simp add: enumerate_list_mem)
qed

lemma edge_violates_order_iff:
  assumes "distinct order"
  shows "edge_violates_order order e \<longleftrightarrow> \<not> before order (from_node e) (to_node e)"
proof (cases "map_of (order_positions order) (from_node e)")
  case None
  then have none: "\<not> (i < length order \<and> order ! i = from_node e)" for i
    using order_positions_lookup [OF assms, of "from_node e" i] by auto
  have "edge_violates_order order e"
  proof (cases "map_of (order_positions order) (to_node e)")
    case (Some j)
    then have "j < length order" using order_positions_lookup [OF assms] by blast
    then show ?thesis using None Some by (simp add: edge_violates_order_def)
  qed (use None in \<open>simp add: edge_violates_order_def\<close>)
  moreover have "\<not> before order (from_node e) (to_node e)" using none by (auto simp: before_def)
  ultimately show ?thesis by simp
next
  case (Some i)
  then have i: "i < length order" "order ! i = from_node e" using order_positions_lookup [OF assms] by blast+
  show ?thesis
  proof (cases "map_of (order_positions order) (to_node e)")
    case None
    then have "\<not> (j < length order \<and> order ! j = to_node e)" for j
      using order_positions_lookup [OF assms, of "to_node e" j] by auto
    then have "\<not> before order (from_node e) (to_node e)" by (auto simp: before_def)
    then show ?thesis using None Some by (simp add: edge_violates_order_def)
  next
    case j: (Some j)
    then have j': "j < length order" "order ! j = to_node e" using order_positions_lookup [OF assms] by blast+
    have "before order (from_node e) (to_node e) \<longleftrightarrow> i < j"
    proof
      assume "before order (from_node e) (to_node e)"
      then obtain i' j'' where "i' < j''" "j'' < length order" "order ! i' = from_node e" "order ! j'' = to_node e"
        by (auto simp: before_def)
      with i j' assms show "i < j" by (metis nth_eq_iff_index_eq less_trans)
    next
      assume "i < j"
      with i j' show "before order (from_node e) (to_node e)" by (auto simp: before_def)
    qed
    then show ?thesis using Some j by (auto simp: edge_violates_order_def)
  qed
qed

definition order_ok :: "typed_graph \<Rightarrow> 'a plan_graph_scheme \<Rightarrow> bool" where
  "order_ok g plan \<longleftrightarrow>
     distinct (topological_order plan) \<and> set (topological_order plan) = fst ` set (node_index_of g plan)
     \<and> (\<forall>e \<in> set (plan_edges plan). before (topological_order plan) (from_node e) (to_node e))"

lemma topological_order_Nil: "validate_topological_order (node_index_of g plan) plan = [] \<longleftrightarrow> order_ok g plan"
proof -
  let ?order = "topological_order plan" and ?index = "node_index_of g plan"
  have ids: "distinct (map fst ?index)" by (rule node_index_distinct)
  have cover: "length ?order = length ?index \<and> set ?order = set (map fst ?index) \<longleftrightarrow>
      distinct ?order \<and> set ?order = fst ` set ?index"
  proof
    assume "length ?order = length ?index \<and> set ?order = set (map fst ?index)"
    then have "length ?order = card (set ?order)" using distinct_card [OF ids] by simp
    then show "distinct ?order \<and> set ?order = fst ` set ?index"
      using card_distinct [of ?order] \<open>length ?order = length ?index \<and> set ?order = set (map fst ?index)\<close> by simp
  next
    assume "distinct ?order \<and> set ?order = fst ` set ?index"
    then show "length ?order = length ?index \<and> set ?order = set (map fst ?index)"
      using distinct_card [OF ids] distinct_card [of ?order] by simp
  qed
  have "validate_topological_order ?index plan = [] \<longleftrightarrow>
      (length ?order = length ?index \<and> set ?order = set (map fst ?index))
      \<and> \<not> (\<exists>e \<in> set (plan_edges plan). edge_violates_order ?order e)"
    by (auto simp: validate_topological_order_def Let_def)
  then show ?thesis unfolding cover order_ok_def using edge_violates_order_iff by blast
qed

text \<open>An order that every edge respects leaves no room for a cycle.\<close>

lemma order_ok_acyclic: "order_ok g plan \<Longrightarrow> acyclic (plan_relation g plan)"
  by (rule before_acyclic [of "topological_order plan"]) (auto simp: order_ok_def plan_relation_def)

subsection \<open>Governance, outputs, partitions\<close>

definition governance_ok :: "typed_graph \<Rightarrow> goal_spec \<Rightarrow> 'a plan_graph_scheme \<Rightarrow> bool" where
  "governance_ok g goal plan \<longleftrightarrow>
     (execution_mode goal = ''READ_ONLY'' \<longrightarrow>
        (\<forall>node cap. node \<in> set (plan_nodes plan) \<longrightarrow>
           map_of (capability_table g) (node_capability node) = Some cap \<longrightarrow> is_read_only cap))"

lemma governance_Nil:
  assumes "distinct (map node_id (plan_nodes plan))"
  shows "validate_plan_governance goal (node_index_of g plan) = [] \<longleftrightarrow> governance_ok g goal plan"
proof -
  have "concat (map (\<lambda>(node_position, _, cap).
             if \<not> is_read_only cap then
               [ValidationIssue (node_path node_position ''governance'') ''GOVERNANCE_VIOLATION''
                  ''READ_ONLY plan contains a non-read-only capability'']
             else []) (sorted_entries (node_index_of g plan))) = [] \<longleftrightarrow>
      (\<forall>e \<in> set (sorted_entries (node_index_of g plan)). is_read_only (snd (snd e)))"
    unfolding concat_map_Nil by (rule ball_cong [OF refl]) (simp add: case_prod_beta)
  also have "\<dots> \<longleftrightarrow> (\<forall>k node cap. (k, node) \<in> set (enumerate_list (plan_nodes plan)) \<longrightarrow>
      map_of (capability_table g) (node_capability node) = Some cap \<longrightarrow> is_read_only cap)"
    by (rule sorted_entries_all [OF assms, of g "\<lambda>_ _ cap. is_read_only cap"])
  also have "\<dots> \<longleftrightarrow> (\<forall>node cap. node \<in> set (plan_nodes plan) \<longrightarrow>
      map_of (capability_table g) (node_capability node) = Some cap \<longrightarrow> is_read_only cap)"
    using enumerate_list_ex [of _ "plan_nodes plan"] by blast
  finally show ?thesis by (simp add: validate_plan_governance_def governance_ok_def)
qed

definition sources_ok :: "typed_graph \<Rightarrow> goal_spec \<Rightarrow> 'a plan_graph_scheme \<Rightarrow> bool" where
  "sources_ok g goal plan \<longleftrightarrow>
     (\<forall>node cap. node \<in> set (plan_nodes plan) \<longrightarrow>
        map_of (capability_table g) (node_capability node) = Some cap \<longrightarrow> bindings_ok g goal plan node cap)"

lemma parameter_sources_Nil:
  assumes "distinct (map node_id (plan_nodes plan))"
  shows "validate_parameter_sources_v2 goal (node_index_of g plan) = Inr [] \<longleftrightarrow> sources_ok g goal plan"
proof -
  have "validate_parameter_sources_v2 goal (node_index_of g plan) = Inr [] \<longleftrightarrow>
      (\<forall>e \<in> set (sorted_entries (node_index_of g plan)). bindings_ok g goal plan (fst (snd e)) (snd (snd e)))"
    unfolding validate_parameter_sources_v2_def validate_parameter_sources_with_def collectM_eq_Nil
    by (rule ball_cong [OF refl]) (metis node_parameter_Nil [OF assms] prod.collapse)
  also have "\<dots> \<longleftrightarrow> (\<forall>k node cap. (k, node) \<in> set (enumerate_list (plan_nodes plan)) \<longrightarrow>
      map_of (capability_table g) (node_capability node) = Some cap \<longrightarrow> bindings_ok g goal plan node cap)"
    by (rule sorted_entries_all [OF assms, of g "\<lambda>_ node cap. bindings_ok g goal plan node cap"])
  also have "\<dots> \<longleftrightarrow> sources_ok g goal plan"
    unfolding sources_ok_def using enumerate_list_ex [of _ "plan_nodes plan"] by blast
  finally show ?thesis .
qed

lemma parameter_sources_total: "\<exists>found. validate_parameter_sources_v2 goal index = Inr found"
proof -
  let ?ct = "constraint_table_of goal"
  have input: "\<exists>found. input_binding_issues validate_parameter_source_v2 ?ct index entry ni = Inr found" for entry ni
  proof -
    obtain k node cap where entry: "entry = (k, node, cap)" by (cases entry)
    obtain name input where ni: "ni = (name, input)" by (cases ni)
    show ?thesis
    proof (cases "group_get (registered_bindings (k, node, cap)) name")
      case (Cons ib rest)
      obtain i b where ib: "ib = (i, b)" by (cases ib)
      obtain found where "validate_parameter_source_v2 k i input (binding_source b) ?ct index = Inr found"
        using source_v2_total by blast
      then show ?thesis using Cons entry ni ib by (cases rest) (simp_all add: input_binding_issues_def Let_def)
    qed (simp add: input_binding_issues_def Let_def entry ni)
  qed
  define gi where "gi entry ni = projr (input_binding_issues validate_parameter_source_v2 ?ct index entry ni)" for entry ni
  have gi: "input_binding_issues validate_parameter_source_v2 ?ct index entry ni = Inr (gi entry ni)" for entry ni
    using input [of entry ni] by (auto simp: gi_def)
  have node: "node_parameter_issues validate_parameter_source_v2 ?ct index (k, node, cap)
      = Inr (unregistered_binding_issues (k, node, cap) @ concat (map (gi (k, node, cap)) (node_inputs cap)))" for k node cap
    by (simp add: node_parameter_issues_def collectM_total [where g = "gi (k, node, cap)"] gi)
  have "collectM (node_parameter_issues validate_parameter_source_v2 ?ct index) (sorted_entries index)
      = Inr (concat (map (\<lambda>(k, node, cap). unregistered_binding_issues (k, node, cap)
          @ concat (map (gi (k, node, cap)) (node_inputs cap))) (sorted_entries index)))"
    by (rule collectM_total) (auto simp: node)
  then show ?thesis by (simp add: validate_parameter_sources_v2_def validate_parameter_sources_with_def)
qed

definition outputs_ok :: "typed_graph \<Rightarrow> goal_spec \<Rightarrow> 'a plan_graph_scheme \<Rightarrow> bool" where
  "outputs_ok g goal plan \<longleftrightarrow>
     distinct (map output_fact_type (goal_outputs plan)) \<and>
     set (map output_fact_type (goal_outputs plan)) = set (desired_fact_types goal) \<and>
     (\<forall>out \<in> set (goal_outputs plan). \<exists>node cap. plan_entry g plan (output_producer out) node cap
        \<and> output_fact_type out \<in> set (produces_fact_types node))"

lemma outputs_of_fact:
  "group_get (outputs_by_fact plan) f = filter (\<lambda>io. output_fact_type (snd io) = f) (enumerate_list (goal_outputs plan))"
proof -
  have "map snd (filter (\<lambda>e. fst e = f) (map (\<lambda>(i, out). (output_fact_type out, (i, out))) xs))
      = filter (\<lambda>io. output_fact_type (snd io) = f) xs" for xs :: "(nat \<times> goal_output) list"
    by (induction xs) auto
  then show ?thesis unfolding outputs_by_fact_def dict_simps by blast
qed

definition produced :: "typed_graph \<Rightarrow> 'a plan_graph_scheme \<Rightarrow> goal_output \<Rightarrow> bool" where
  "produced g plan out \<longleftrightarrow>
     (\<exists>node cap. plan_entry g plan (output_producer out) node cap \<and> output_fact_type out \<in> set (produces_fact_types node))"

lemma desired_output_Nil:
  assumes ids: "distinct (map node_id (plan_nodes plan))"
  shows "desired_output_issues (node_index_of g plan) plan f = [] \<longleftrightarrow>
     (\<exists>out. filter (\<lambda>out. output_fact_type out = f) (goal_outputs plan) = [out] \<and> produced g plan out)"
proof -
  let ?ios = "group_get (outputs_by_fact plan) f"
  have snds: "map snd ?ios = filter (\<lambda>out. output_fact_type out = f) (goal_outputs plan)"
  proof -
    have "map snd (filter (\<lambda>io. P (snd io)) xs) = filter P (map snd xs)" for P and xs :: "(nat \<times> goal_output) list"
      by (induction xs) auto
    from this [of "\<lambda>out. output_fact_type out = f" "enumerate_list (goal_outputs plan)"]
    show ?thesis unfolding outputs_of_fact by (simp add: enumerate_list_def)
  qed
  consider "?ios = []" | i out where "?ios = [(i, out)]" | x y zs where "?ios = x # y # zs"
    by (metis neq_Nil_conv prod.exhaust)
  then show ?thesis
  proof cases
    case (2 i out)
    then have one: "filter (\<lambda>out. output_fact_type out = f) (goal_outputs plan) = [out]" using snds by simp
    have "out \<in> set (filter (\<lambda>out. output_fact_type out = f) (goal_outputs plan))" unfolding one by simp
    then have fact: "output_fact_type out = f" by simp
    have "desired_output_issues (node_index_of g plan) plan f = [] \<longleftrightarrow> produced g plan out"
    proof (cases "map_of (node_index_of g plan) (output_producer out)")
      case None
      then have "\<not> produced g plan out" using node_index_lookup [OF ids, of g "output_producer out"] by (auto simp: produced_def)
      then show ?thesis using 2 None by (simp add: desired_output_issues_def)
    next
      case (Some entry)
      obtain k node cap where entry: "entry = (k, node, cap)" by (cases entry)
      have "plan_entry g plan (output_producer out) node' cap' \<longleftrightarrow> node' = node \<and> cap' = cap" for node' cap'
        using node_index_lookup [OF ids, of g "output_producer out" node' cap'] Some entry by auto
      then have "produced g plan out \<longleftrightarrow> f \<in> set (produces_fact_types node)" by (simp add: produced_def fact)
      then show ?thesis using 2 Some entry by (simp add: desired_output_issues_def)
    qed
    with one show ?thesis by simp
  next
    case 1
    with snds have "filter (\<lambda>out. output_fact_type out = f) (goal_outputs plan) = []" by simp
    then show ?thesis using 1 by (simp add: desired_output_issues_def)
  next
    case (3 x y zs)
    with snds have "filter (\<lambda>out. output_fact_type out = f) (goal_outputs plan) = snd x # snd y # map snd zs" by simp
    then show ?thesis using 3 by (simp add: desired_output_issues_def split: prod.splits)
  qed
qed

lemma goal_outputs_Nil:
  assumes ids: "distinct (map node_id (plan_nodes plan))"
  shows "validate_goal_outputs goal (node_index_of g plan) plan = [] \<longleftrightarrow> outputs_ok g goal plan"
proof -
  let ?outs = "goal_outputs plan"
  have "concat (map (\<lambda>(i, out). if output_fact_type out \<notin> set (desired_fact_types goal) then
         [ValidationIssue (at_index ''/goalOutputs'' i @ ''/factTypeId'') ''GOAL_OUTPUT_UNSATISFIED''
            ''goal output is not requested by GoalSpec'']
       else []) (enumerate_list ?outs)) = [] \<longleftrightarrow>
      (\<forall>io \<in> set (enumerate_list ?outs). output_fact_type (snd io) \<in> set (desired_fact_types goal))"
    unfolding concat_map_Nil by (rule ball_cong [OF refl]) (simp add: case_prod_beta)
  also have "\<dots> \<longleftrightarrow> (\<forall>out \<in> set ?outs. output_fact_type out \<in> set (desired_fact_types goal))"
    by (rule enumerate_all [of _ "\<lambda>out. output_fact_type out \<in> set (desired_fact_types goal)"])
  finally have "validate_goal_outputs goal (node_index_of g plan) plan = [] \<longleftrightarrow>
      (\<forall>out \<in> set ?outs. output_fact_type out \<in> set (desired_fact_types goal)) \<and>
      (\<forall>f \<in> set (desired_fact_types goal).
         \<exists>out. filter (\<lambda>out. output_fact_type out = f) ?outs = [out] \<and> produced g plan out)"
    unfolding validate_goal_outputs_def append_is_Nil_conv concat_map_Nil set_sorted_set desired_output_Nil [OF ids] by simp
  also have "\<dots> \<longleftrightarrow> outputs_ok g goal plan"
  proof
    assume a: "(\<forall>out \<in> set ?outs. output_fact_type out \<in> set (desired_fact_types goal)) \<and>
      (\<forall>f \<in> set (desired_fact_types goal).
         \<exists>out. filter (\<lambda>out. output_fact_type out = f) ?outs = [out] \<and> produced g plan out)"
    have "length (filter (\<lambda>out. output_fact_type out = f) ?outs) \<le> 1" for f
    proof (cases "f \<in> set (desired_fact_types goal)")
      case True
      with a show ?thesis by fastforce
    next
      case False
      with a have "filter (\<lambda>out. output_fact_type out = f) ?outs = []" by (auto simp: filter_empty_conv)
      then show ?thesis by simp
    qed
    then have "distinct (map output_fact_type ?outs)" using length_le_1_distinct [of output_fact_type ?outs] by blast
    moreover have "set (map output_fact_type ?outs) = set (desired_fact_types goal)"
    proof
      show "set (desired_fact_types goal) \<subseteq> set (map output_fact_type ?outs)"
      proof
        fix f
        assume "f \<in> set (desired_fact_types goal)"
        with a obtain out where "filter (\<lambda>out. output_fact_type out = f) ?outs = [out]" by blast
        then have "out \<in> set (filter (\<lambda>out. output_fact_type out = f) ?outs)" by simp
        then show "f \<in> set (map output_fact_type ?outs)" by auto
      qed
    qed (use a in auto)
    moreover have "produced g plan out" if "out \<in> set ?outs" for out
    proof -
      from a that obtain out' where o: "filter (\<lambda>o'. output_fact_type o' = output_fact_type out) ?outs = [out']"
        "produced g plan out'" by blast
      have "out \<in> set (filter (\<lambda>o'. output_fact_type o' = output_fact_type out) ?outs)" using that by simp
      then have "out \<in> set [out']" unfolding o(1) .
      with o show ?thesis by simp
    qed
    ultimately show "outputs_ok g goal plan" by (simp add: outputs_ok_def produced_def)
  next
    assume ok: "outputs_ok g goal plan"
    then have d: "distinct (map output_fact_type ?outs)" and s: "set (map output_fact_type ?outs) = set (desired_fact_types goal)"
      and p: "\<forall>out \<in> set ?outs. produced g plan out" by (auto simp: outputs_ok_def produced_def)
    have "\<exists>out. filter (\<lambda>out. output_fact_type out = f) ?outs = [out] \<and> produced g plan out"
      if "f \<in> set (desired_fact_types goal)" for f
    proof -
      have "f \<in> set (map output_fact_type ?outs)" using that unfolding s .
      then obtain out where out: "out \<in> set ?outs" "output_fact_type out = f" by auto
      have "length (filter (\<lambda>out. output_fact_type out = f) ?outs) \<le> 1"
        using d length_le_1_distinct [of output_fact_type ?outs] by blast
      moreover have "out \<in> set (filter (\<lambda>out. output_fact_type out = f) ?outs)" using out by simp
      ultimately have "filter (\<lambda>out. output_fact_type out = f) ?outs = [out]"
        by (cases "filter (\<lambda>out. output_fact_type out = f) ?outs") auto
      with p out show ?thesis by blast
    qed
    with s show "(\<forall>out \<in> set ?outs. output_fact_type out \<in> set (desired_fact_types goal)) \<and>
      (\<forall>f \<in> set (desired_fact_types goal).
         \<exists>out. filter (\<lambda>out. output_fact_type out = f) ?outs = [out] \<and> produced g plan out)" by auto
  qed
  finally show ?thesis .
qed

definition partitions_ok :: "typed_graph \<Rightarrow> 'a plan_graph_v2_scheme \<Rightarrow> bool" where
  "partitions_ok g plan \<longleftrightarrow>
     set (read_partition plan) \<union> set (action_partition plan) = fst ` set (node_index_of g plan) \<and>
     set (read_partition plan) \<inter> set (action_partition plan) = {} \<and>
     (\<forall>i \<in> set (read_partition plan). \<forall>node cap. plan_entry g plan i node cap \<longrightarrow> node_read_only node)"

lemma partitions_Nil:
  assumes ids: "distinct (map node_id (plan_nodes plan))"
  shows "validate_partitions (node_index_of g plan) plan = [] \<longleftrightarrow> partitions_ok g plan"
proof -
  have each: "(case map_of (node_index_of g plan) i of
           None \<Rightarrow> []
         | Some (_, node, _) \<Rightarrow>
             if \<not> node_read_only node then
               [ValidationIssue ''/readPartition'' ''PARTITION_GOVERNANCE_VIOLATION''
                  (''non-read-only node in readPartition: '' @ i)]
             else []) = [] \<longleftrightarrow> (\<forall>node cap. plan_entry g plan i node cap \<longrightarrow> node_read_only node)" for i
    unfolding node_index_lookup [OF ids, symmetric] by (auto split: option.splits)
  show ?thesis
    unfolding validate_partitions_def Let_def append_is_Nil_conv concat_map_Nil each partitions_ok_def by simp
qed

lemma refs_Nil: "validate_refs plan = [] \<longleftrightarrow> projection_ref plan = [] \<and> ruleset_refs plan = []"
proof -
  have "enumerate_list xs = [] \<longleftrightarrow> xs = []" for xs :: "string list" by (cases xs) (simp_all add: enumerate_list_def upt_rec)
  then show ?thesis by (simp add: validate_refs_def ref_issues_def)
qed


section \<open>The meaning of a valid report\<close>

definition plan_correct ::
    "typed_graph \<Rightarrow> registry_snapshot \<Rightarrow> goal_spec \<Rightarrow> 'a plan_graph_v2_scheme \<Rightarrow> bool" where
  "plan_correct g snapshot goal plan \<longleftrightarrow>
     distinct (map node_id (plan_nodes plan)) \<and> distinct (map edge_id (plan_edges plan)) \<and>
     identity_ok snapshot goal plan \<and> nodes_ok g plan \<and> sources_ok g goal plan \<and> edges_ok g plan \<and>
     acyclic (plan_relation g plan) \<and> order_ok g plan \<and> governance_ok g goal plan \<and>
     outputs_ok g goal plan \<and> partitions_ok g plan \<and> projection_ref plan = [] \<and> ruleset_refs plan = []"

lemma report_valid_plan_report: "report_valid (plan_report issues) \<longleftrightarrow> issues = []"
  by (simp add: plan_report_def Let_def)

lemma validate_plan_graph_v2_characterised:
  "\<exists>report. validate_plan_graph_v2 g snapshot goal shape_issues plan = Some (Inr report)
     \<and> (report_valid report \<longleftrightarrow> shape_issues = [] \<and> plan_correct g snapshot goal plan)"
proof (cases "shape_issues @ validate_plan_stable_ids plan = []")
  case False
  then have "\<not> (shape_issues = [] \<and> plan_correct g snapshot goal plan)"
    by (auto simp: stable_ids_Nil plan_correct_def)
  with False show ?thesis by (simp add: validate_plan_graph_v2_def Let_def)
next
  case True
  then have shape: "shape_issues = []" and ids: "distinct (map node_id (plan_nodes plan))"
    and edge_ids: "distinct (map edge_id (plan_edges plan))" by (simp_all add: stable_ids_Nil)
  let ?index = "node_index_of g plan"
  obtain found where found: "validate_parameter_sources_v2 goal ?index = Inr found"
    using parameter_sources_total by blast
  obtain cycles where cycles: "validate_plan_edge_cycles ?index plan = Some (Inr cycles)"
    "cycles = [] \<longleftrightarrow> acyclic (plan_relation g plan)"
    using validate_plan_edge_cycles_total by blast
  let ?issues = "validate_snapshot_and_goal_identity snapshot goal plan
    @ concat (map (node_issues g) (enumerate_list (plan_nodes plan))) @ found
    @ (edge_consistency_issues g ?index plan @ cycles) @ validate_topological_order ?index plan
    @ validate_plan_governance goal ?index @ validate_goal_outputs goal ?index plan
    @ validate_partitions ?index plan @ validate_refs plan"
  have run: "validate_plan_graph_v2 g snapshot goal shape_issues plan = Some (Inr (plan_report ?issues))"
    using True found cycles(1)
    by (simp add: validate_plan_graph_v2_def Let_def validate_nodes_and_projections_def validate_edges_def)
  have "?issues = [] \<longleftrightarrow> plan_correct g snapshot goal plan"
    using parameter_sources_Nil [OF ids, of goal g] found
    unfolding append_is_Nil_conv identity_Nil nodes_Nil edge_consistency_Nil [OF ids] cycles(2)
      topological_order_Nil governance_Nil [OF ids] goal_outputs_Nil [OF ids] partitions_Nil [OF ids] refs_Nil
      plan_correct_def by (simp add: ids edge_ids)
  then show ?thesis using run shape by (simp add: report_valid_plan_report)
qed

text \<open>
  C1: validating a version 2 plan always ends with a report, and the report is valid exactly when the
  schema stage found nothing and the plan is correct: unique ids, the identity of snapshot and goal,
  registry projections, sources for every required parameter, edges that match the sources and the
  authored dependencies, no cycle, a topological order, governance, goal outputs, partitions and no
  dangling reference.
\<close>

theorem validate_plan_graph_v2_exact:
  "\<exists>report. validate_plan_graph_v2 g snapshot goal shape_issues plan = Some (Inr report)
     \<and> (report_valid report \<longleftrightarrow> shape_issues = [] \<and> plan_correct g snapshot goal plan)"
  by (rule validate_plan_graph_v2_characterised)

text \<open>
  C2: a valid plan for a READ_ONLY goal contains nothing but read-only capabilities, as the registry has
  them and as its own nodes declare them.
\<close>

theorem valid_plan_read_only:
  assumes "validate_plan_graph_v2 g snapshot goal shape_issues plan = Some (Inr report)"
    and "report_valid report" and "execution_mode goal = ''READ_ONLY''" and "node \<in> set (plan_nodes plan)"
  shows "\<exists>cap. map_of (capability_table g) (node_capability node) = Some cap \<and> is_read_only cap \<and> node_read_only node"
proof -
  have ok: "plan_correct g snapshot goal plan"
    using validate_plan_graph_v2_characterised [of g snapshot goal shape_issues plan] assms(1,2) by auto
  then obtain cap where cap: "map_of (capability_table g) (node_capability node) = Some cap" "projects node cap"
    using assms(4) by (auto simp: plan_correct_def nodes_ok_def)
  moreover have "is_read_only cap" using ok cap(1) assms(3,4) by (auto simp: plan_correct_def governance_ok_def)
  ultimately show ?thesis by (auto simp: projects_def is_read_only_def node_read_only_def)
qed

lemma filter_distinct_one:
  assumes "distinct (map f xs)" and "y \<in> f ` set xs"
  shows "length (filter (\<lambda>x. f x = y) xs) = 1"
proof -
  have "length (filter (\<lambda>x. f x = y) xs) \<le> 1" using assms(1) unfolding length_le_1_distinct [symmetric] by blast
  moreover have "filter (\<lambda>x. f x = y) xs \<noteq> []" using assms(2) by (auto simp: filter_empty_conv)
  ultimately show ?thesis by (simp add: le_Suc_eq)
qed

text \<open>
  C3: in a valid plan the topological order lists every node once, and every edge goes from an earlier
  node to a later one; every parameter a node's capability requires has exactly one source, and a source that
  reads a fact names an earlier node whose capability publishes the field.
\<close>

theorem valid_plan_schedulable:
  assumes "validate_plan_graph_v2 g snapshot goal shape_issues plan = Some (Inr report)" and "report_valid report"
  shows "distinct (topological_order plan)
    \<and> set (topological_order plan) = node_id ` set (plan_nodes plan)
    \<and> (\<forall>e \<in> set (plan_edges plan). before (topological_order plan) (from_node e) (to_node e))
    \<and> (\<forall>node \<in> set (plan_nodes plan). \<exists>cap. map_of (capability_table g) (node_capability node) = Some cap \<and>
         (\<forall>name input. map_of (node_inputs cap) name = Some input \<and> input_required input \<longrightarrow>
            length (filter (\<lambda>b. parameter_name b = name) (parameter_bindings node)) = 1))
    \<and> (\<forall>node \<in> set (plan_nodes plan). \<forall>b \<in> set (parameter_bindings node). \<forall>producer f field.
         binding_source b = FactField producer f field \<longrightarrow>
         before (topological_order plan) producer (node_id node) \<and>
         (\<exists>pn pc. plan_entry g plan producer pn pc \<and>
            (\<exists>out \<in> set (cap_outputs pc). output_name out = field \<and> fact_type_ref out = Some f)))"
proof -
  have ok: "plan_correct g snapshot goal plan"
    using validate_plan_graph_v2_characterised [of g snapshot goal shape_issues plan] assms by auto
  then have ids: "distinct (map node_id (plan_nodes plan))" and nodes: "nodes_ok g plan"
    and order: "order_ok g plan" and edges: "edges_ok g plan" and sources: "sources_ok g goal plan"
    by (auto simp: plan_correct_def)
  have "fst ` set (node_index_of g plan) = node_id ` set (plan_nodes plan)"
  proof -
    have "i \<in> fst ` set (node_index_of g plan) \<longleftrightarrow> (\<exists>node cap. plan_entry g plan i node cap)" for i
    proof -
      have "i \<in> fst ` set (node_index_of g plan) \<longleftrightarrow> (\<exists>k node cap. map_of (node_index_of g plan) i = Some (k, node, cap))"
        unfolding dom_map_of_conv_image_fst [symmetric] by auto
      then show ?thesis using node_index_lookup [OF ids] by blast
    qed
    then show ?thesis using nodes by (force simp: plan_entry_def nodes_ok_def)
  qed
  moreover have "before (topological_order plan) producer (node_id node) \<and>
         (\<exists>pn pc. plan_entry g plan producer pn pc \<and>
            (\<exists>out \<in> set (cap_outputs pc). output_name out = field \<and> fact_type_ref out = Some f))"
    if node: "node \<in> set (plan_nodes plan)" and b: "b \<in> set (parameter_bindings node)"
      and src: "binding_source b = FactField producer f field" for node b producer f field
  proof
    from node nodes obtain cap where cap: "map_of (capability_table g) (node_capability node) = Some cap"
      by (auto simp: nodes_ok_def)
    with node have "plan_entry g plan (node_id node) node cap" by (simp add: plan_entry_def)
    with b src have "(producer, node_id node, f) \<in> fact_sources g plan" by (auto simp: fact_sources_def)
    with edges have "(producer, node_id node, f) \<in> set (data_keys plan)" by (auto simp: edges_ok_def)
    then obtain e where "e \<in> set (plan_edges plan)" "from_node e = producer" "to_node e = node_id node"
      by (auto simp: data_keys_def split: plan_edge.splits)
    with order show "before (topological_order plan) producer (node_id node)" by (auto simp: order_ok_def)
    from sources node cap have "bindings_ok g goal plan node cap" by (auto simp: sources_ok_def)
    with b src show "\<exists>pn pc. plan_entry g plan producer pn pc \<and>
            (\<exists>out \<in> set (cap_outputs pc). output_name out = field \<and> fact_type_ref out = Some f)"
      by (fastforce simp: bindings_ok_def source_ok_def)
  qed
  moreover have "\<exists>cap. map_of (capability_table g) (node_capability node) = Some cap \<and>
         (\<forall>name input. map_of (node_inputs cap) name = Some input \<and> input_required input \<longrightarrow>
            length (filter (\<lambda>b. parameter_name b = name) (parameter_bindings node)) = 1)"
    if node: "node \<in> set (plan_nodes plan)" for node
  proof -
    from node nodes obtain cap where cap: "map_of (capability_table g) (node_capability node) = Some cap"
      by (auto simp: nodes_ok_def)
    with sources node have "bindings_ok g goal plan node cap" by (auto simp: sources_ok_def)
    then have "length (filter (\<lambda>b. parameter_name b = name) (parameter_bindings node)) = 1"
      if "map_of (node_inputs cap) name = Some input" "input_required input" for name input
      using that by (intro filter_distinct_one) (auto simp: bindings_ok_def)
    with cap show ?thesis by blast
  qed
  ultimately show ?thesis using order by (auto simp: order_ok_def)
qed

section \<open>A plan that is valid\<close>

definition demo_plan_graph :: typed_graph where
  "demo_plan_graph = projr (rbind (compile_graph (demo_registry\<lparr>relations_doc :=
     JObj [(''version'', JInt 2), (''relations'', JList [])]\<rparr>)) typed_graph_of)"

definition demo_plan_node :: "string \<Rightarrow> string \<Rightarrow> parameter_binding list \<Rightarrow> string list \<Rightarrow> plan_node" where
  "demo_plan_node i cap bindings produces =
     \<lparr>node_id = i, node_capability = cap, parameter_bindings = bindings, produces_fact_types = produces,
      capability_kind = ''Function'',
      node_governance = (case map_of (capability_table demo_plan_graph) cap of
         Some c \<Rightarrow> cap_governance c | None \<Rightarrow> undefined)\<rparr>"
definition demo_snapshot :: registry_snapshot where
  "demo_snapshot = \<lparr>snapshot_version = 2, canonicalization_version = 1, snapshot_id = ''s'', sources_of = []\<rparr>"

definition demo_plan :: plan_graph_v2 where
  "demo_plan = \<lparr>plan_id = ''p'', plan_goal_id = ''g'', plan_execution_mode = ''READ_ONLY'', plan_snapshot_id = ''s'',
     plan_nodes = [demo_plan_node ''n1'' ''Info'' [] [''Mat''],
       demo_plan_node ''n2'' ''Draft'' [\<lparr>parameter_name = ''uom'', binding_source = FactField ''n1'' ''Mat'' ''unit''\<rparr>] []],
     plan_edges = [DataEdge ''e1'' ''n1'' ''n2'' ''Mat''],
     topological_order = [''n1'', ''n2''], goal_outputs = [\<lparr>output_fact_type = ''Mat'', output_producer = ''n1''\<rparr>],
     read_partition = [''n1'', ''n2''], action_partition = [], projection_ref = [], ruleset_refs = []\<rparr>"

lemma demo_plan_valid:
  "validate_plan_graph_v2 demo_plan_graph demo_snapshot demo_goal [] demo_plan
     = Some (Inr \<lparr>report_valid = True, report_issues = []\<rparr>)"
  by code_simp
lemma valid_plan_read_only_witness:
  "map_option is_read_only (map_of (capability_table demo_plan_graph) ''Draft'') = Some True"
  using valid_plan_read_only [OF demo_plan_valid, of "plan_nodes demo_plan ! 1"]
  by (auto simp: demo_plan_def demo_plan_node_def demo_goal_def)

lemma valid_plan_schedulable_witness: "before (topological_order demo_plan) ''n1'' ''n2''"
  using valid_plan_schedulable [OF demo_plan_valid] by (auto simp: demo_plan_def)

end
