(* ===== verification/Compiler_Correctness.thy ===== *)
theory Compiler_Correctness
  imports Dag_Marks Resolver_Correctness Plan_Correctness
begin

text \<open>
  What the compiler guarantees of a plan it returns: its capabilities are read-only in the registry, its
  order is a topological order of its data edges, its analysis DAG lists every node after the nodes it
  depends on.  Both searches end, and they fail exactly on cycles.
\<close>

section \<open>The order of the read nodes\<close>

definition edge_relation :: "string list \<Rightarrow> plan_edge list \<Rightarrow> (string \<times> string) set" where
  "edge_relation node_ids es =
     {(from_node e, to_node e) | e. e \<in> set es \<and> from_node e \<in> set node_ids \<and> to_node e \<in> set node_ids}"

lemma incoming_of_mem: "m \<in> set (incoming_of node_ids es n) \<longleftrightarrow> (m, n) \<in> edge_relation node_ids es"
  by (auto simp: incoming_of_def edge_relation_def)

definition ready_order :: "(string \<Rightarrow> string list) \<Rightarrow> string list \<Rightarrow> bool" where
  "ready_order incoming order \<longleftrightarrow> (\<forall>i < length order. set (incoming (order ! i)) \<subseteq> set (take i order))"

lemma ready_order_snoc:
  "ready_order incoming order \<Longrightarrow> set (incoming n) \<subseteq> set order \<Longrightarrow> ready_order incoming (order @ [n])"
  by (auto simp: ready_order_def nth_append less_Suc_eq)

definition split_of :: "string list \<Rightarrow> string list \<Rightarrow> string list \<Rightarrow> bool" where
  "split_of ids order remaining \<longleftrightarrow>
     distinct order \<and> distinct remaining \<and> set order \<inter> set remaining = {} \<and> set order \<union> set remaining = set ids"

lemma topo_pass_inv:
  assumes "split_of ids order remaining" and "ready_order incoming order"
    and "distinct todo" and "set todo \<subseteq> set remaining"
    and "topo_pass incoming todo (order, remaining) = (order', remaining')"
  shows "split_of ids order' remaining' \<and> ready_order incoming order'"
  using assms
proof (induction todo arbitrary: order remaining)
  case (Cons n ns)
  show ?case
  proof (cases "set (incoming n) \<subseteq> set order")
    case True
    have "split_of ids (order @ [n]) (remove1 n remaining)"
      using Cons.prems(1,4) by (auto simp: split_of_def)
    moreover have "set ns \<subseteq> set (remove1 n remaining)"
      using Cons.prems(1,3,4) by (auto simp: split_of_def)
    ultimately show ?thesis
      using True Cons.prems ready_order_snoc [OF Cons.prems(2) True] by (intro Cons.IH) auto
  next
    case False
    then show ?thesis using Cons.prems by (intro Cons.IH) auto
  qed
qed simp

lemma topo_pass_stuck:
  assumes "length (fst (topo_pass incoming todo (order, remaining))) = length order" and "n \<in> set todo"
  shows "\<not> set (incoming n) \<subseteq> set order"
  using assms
proof (induction todo arbitrary: order remaining)
  case (Cons m ms)
  have "length (order @ [m]) \<le> length (fst (topo_pass incoming ms (order @ [m], remove1 m remaining)))"
    by (rule topo_pass_grows)
  with Cons show ?case by (auto split: if_splits)
qed simp

lemma topo_loop_exact:
  "split_of ids order remaining \<Longrightarrow> ready_order incoming order \<Longrightarrow>
   (\<And>m n. m \<in> set (incoming n) \<longleftrightarrow> (m, n) \<in> rel) \<Longrightarrow> rel \<subseteq> set ids \<times> set ids \<Longrightarrow>
   (case topo_loop incoming order remaining of
      Inr order' \<Rightarrow> split_of ids order' [] \<and> ready_order incoming order'
    | Inl e \<Rightarrow> e = compiler_failure ''cycle in read plan data edges'' \<and> \<not> acyclic rel)"
proof (induction incoming order remaining rule: topo_loop.induct)
  case (1 incoming order remaining)
  let ?pass = "topo_pass incoming remaining (order, remaining)"
  show ?case
  proof (cases "remaining = []")
    case True
    with 1 show ?thesis by (subst topo_loop.simps) simp
  next
    case nonempty: False
    show ?thesis
    proof (cases "length (fst ?pass) = length order")
      case True
      have stuck: "\<exists>m \<in> set remaining. (m, n) \<in> rel" if "n \<in> set remaining" for n
      proof -
        from topo_pass_stuck [OF True that] obtain m where "m \<in> set (incoming n)" "m \<notin> set order" by blast
        with "1.prems"(3,4) have "(m, n) \<in> rel" "m \<in> set ids" by blast+
        with \<open>m \<notin> set order\<close> "1.prems"(1) show ?thesis by (auto simp: split_of_def)
      qed
      have "\<not> acyclic rel"
      proof
        assume "acyclic rel"
        moreover have "finite rel" using "1.prems"(4) finite_subset by blast
        ultimately have "wf rel" by (rule finite_acyclic_wf [rotated])
        moreover obtain n where "n \<in> set remaining" using nonempty by (cases remaining) auto
        ultimately obtain z where "z \<in> set remaining" "\<forall>y. (y, z) \<in> rel \<longrightarrow> y \<notin> set remaining"
          by (rule wfE_min) blast
        with stuck show False by blast
      qed
      then show ?thesis using nonempty True by (subst topo_loop.simps) simp
    next
      case False
      obtain order' remaining' where pass: "?pass = (order', remaining')" by (cases ?pass)
      have "split_of ids order' remaining' \<and> ready_order incoming order'"
        using "1.prems"(1,2) pass by (intro topo_pass_inv) (auto simp: split_of_def)
      with "1.IH" [OF nonempty False _ _ "1.prems"(3,4)] show ?thesis
        using nonempty False pass by (subst topo_loop.simps) simp
    qed
  qed
qed

lemma ready_order_before:
  assumes "ready_order incoming order" and "distinct order" and "n \<in> set order" and "m \<in> set (incoming n)"
  shows "before order m n"
proof -
  from assms(3) obtain j where j: "j < length order" "order ! j = n" by (auto simp: in_set_conv_nth)
  with assms(1,4) have "m \<in> set (take j order)" by (auto simp: ready_order_def)
  then obtain i where "i < j" "order ! i = m" by (auto simp: in_set_conv_nth)
  with j show ?thesis by (auto simp: before_def)
qed

lemma topological_order_exact:
  assumes "distinct ids"
  shows "case topological_order_of ids es of
      Inr order \<Rightarrow> distinct order \<and> set order = set ids
        \<and> (\<forall>(a, b) \<in> edge_relation ids es. before order a b) \<and> acyclic (edge_relation ids es)
    | Inl e \<Rightarrow> e = compiler_failure ''cycle in read plan data edges'' \<and> \<not> acyclic (edge_relation ids es)"
proof -
  have "edge_relation ids es \<subseteq> set ids \<times> set ids" by (auto simp: edge_relation_def)
  from topo_loop_exact [of ids "[]" ids "incoming_of ids es", OF _ _ incoming_of_mem this] assms
  have run: "case topological_order_of ids es of
      Inr order \<Rightarrow> split_of ids order [] \<and> ready_order (incoming_of ids es) order
    | Inl e \<Rightarrow> e = compiler_failure ''cycle in read plan data edges'' \<and> \<not> acyclic (edge_relation ids es)"
    by (simp add: split_of_def ready_order_def topological_order_of_def)
  show ?thesis
  proof (cases "topological_order_of ids es")
    case (Inr order)
    with run have order: "distinct order" "set order = set ids" "ready_order (incoming_of ids es) order"
      by (auto simp: split_of_def)
    have "before order a b" if "(a, b) \<in> edge_relation ids es" for a b
      using that order by (intro ready_order_before [OF order(3,1)]) (auto simp: incoming_of_mem edge_relation_def)
    with order before_acyclic [OF order(1)] Inr show ?thesis by auto
  qed (use run in simp)
qed

text \<open>
  C17: ordering the read nodes always ends, with an order that lists every node once and puts the producer of
  each data edge before its consumer, or, exactly if the edges have a cycle, with a CompilerFailure.
\<close>

theorem topological_order_of_exact:
  assumes "distinct ids"
  shows "case topological_order_of ids es of
      Inr order \<Rightarrow> distinct order \<and> set order = set ids
        \<and> (\<forall>(a, b) \<in> edge_relation ids es. before order a b) \<and> acyclic (edge_relation ids es)
    | Inl e \<Rightarrow> e = compiler_failure ''cycle in read plan data edges'' \<and> \<not> acyclic (edge_relation ids es)"
  by (rule topological_order_exact [OF assms])

lemma topological_order_of_exact_witness:
  "\<not> acyclic (edge_relation [''a'', ''b''] [DataEdge ''e'' ''a'' ''b'' ''F'', DataEdge ''f'' ''b'' ''a'' ''F''])"
proof -
  have "isl (topological_order_of [''a'', ''b''] [DataEdge ''e'' ''a'' ''b'' ''F'', DataEdge ''f'' ''b'' ''a'' ''F''])"
    by code_simp
  with topological_order_of_exact [of "[''a'', ''b'']" "[DataEdge ''e'' ''a'' ''b'' ''F'', DataEdge ''f'' ''b'' ''a'' ''F'']"]
  show ?thesis by (auto split: sum.splits)
qed

section \<open>The analysis DAG\<close>

lemma mark_of_planned [simp]: "mark_of (s\<lparr>dag_planned := x\<rparr>) i = mark_of s i"
  by (simp add: mark_of_def)

lemma finish_node_Inr:
  "finish_node pinned ids node s = Inr s' \<longleftrightarrow>
     collectM (dag_input_check pinned ids) (an_inputs node) = Inr [] \<and>
     (\<exists>entry. planned_node pinned node = Inr entry \<and> s' = set_mark (an_id node) 2 (s\<lparr>dag_planned := dag_planned s @ [entry]\<rparr>))"
proof -
  have "xs = []" if "collectM (dag_input_check pinned ids) ins = Inr xs" for xs ins
    using that
    by (induction ins arbitrary: xs) (auto simp: result_simps dag_input_check_def fact_input_check_def Let_def split: if_splits)
  then show ?thesis by (auto simp: finish_node_def result_simps)
qed

text \<open>Enough depth: every nested visit turns one white node grey.\<close>

lemma visit_total:
  "i \<in> set (map an_id nodes) \<Longrightarrow> white_ids (map an_id nodes) s < n \<Longrightarrow>
     \<exists>r. visit_node n pinned nodes i s = Some r \<and> (\<forall>s'. r = Inr s' \<longrightarrow> darker s s')"
  "white_ids (map an_id nodes) s < n \<Longrightarrow>
     \<exists>r. visit_deps n pinned nodes ds s = Some r \<and> (\<forall>s'. r = Inr s' \<longrightarrow> darker s s')"
proof (induction n pinned nodes i s and n pinned nodes ds s rule: visit_node_visit_deps.induct)
  case (2 n pinned nodes i s)
  show ?case
  proof (cases "mark_of s i \<in> {1, 2}")
    case white: False
    obtain node where node: "find (\<lambda>m. an_id m = i) nodes = Some node"
      using "2.prems"(1) by (cases "find (\<lambda>m. an_id m = i) nodes") (auto simp: find_None_iff)
    show ?thesis
    proof (cases "an_operator node \<in> set (pinned_operators pinned)")
      case True
      have "white_ids (map an_id nodes) (set_mark i 1 s) < n"
        using white_ids_mark [OF "2.prems"(1) white] "2.prems"(2) by simp
      then obtain r where r: "visit_deps n pinned nodes (an_depends_on node) (set_mark i 1 s) = Some r"
        "\<forall>s'. r = Inr s' \<longrightarrow> darker (set_mark i 1 s) s'"
        using "2.IH" white node True by auto
      show ?thesis
      proof (cases r)
        case (Inr s1)
        then have "darker s s1" using r(2) darker_trans [OF darker_set_mark [of 1 s i]] by simp
        moreover have "darker s1 s'" if "finish_node pinned (map an_id nodes) node s1 = Inr s'" for s'
          using that by (auto simp: finish_node_Inr darker_def split: if_splits)
        ultimately have "\<forall>s'. finish_node pinned (map an_id nodes) node s1 = Inr s' \<longrightarrow> darker s s'"
          using darker_trans by blast
        then show ?thesis using white node True r(1) Inr by simp
      qed (use white node True r(1) in simp)
    qed (use white node in simp)
  qed auto
next
  case (4 n pinned nodes d ds s)
  show ?case
  proof (cases "find (\<lambda>i. d = JStr i) (map an_id nodes)")
    case (Some i)
    then have i: "i \<in> set (map an_id nodes)" by (auto simp: find_Some_iff)
    from "4.IH"(1) [OF Some i "4.prems"] obtain r where r: "visit_node n pinned nodes i s = Some r"
      "\<forall>s'. r = Inr s' \<longrightarrow> darker s s'" by blast
    show ?thesis
    proof (cases r)
      case (Inr s1)
      then have "darker s s1" using r(2) by simp
      moreover have "white_ids (map an_id nodes) s1 < n"
        using white_ids_darker [OF \<open>darker s s1\<close>, of "map an_id nodes"] "4.prems" by simp
      ultimately show ?thesis using "4.IH"(2) [OF Some r(1) Inr] darker_trans Some r(1) Inr by fastforce
    qed (use Some r(1) in simp)
  qed simp
qed simp_all

lemma visit_all_total:
  "an_id ` set ms \<subseteq> set (map an_id nodes) \<Longrightarrow> white_ids (map an_id nodes) s < n \<Longrightarrow>
   \<exists>r. visit_all n pinned nodes ms s = Some r"
proof (induction ms arbitrary: s)
  case (Cons m ms)
  then obtain r where r: "visit_node n pinned nodes (an_id m) s = Some r" "\<forall>s'. r = Inr s' \<longrightarrow> darker s s'"
    using visit_total(1) [of "an_id m" nodes s n pinned] by auto
  show ?case
  proof (cases r)
    case (Inr s1)
    then have "white_ids (map an_id nodes) s1 < n"
      using r(2) white_ids_darker [of s s1 "map an_id nodes"] Cons.prems(2) by simp
    with Cons r(1) Inr show ?thesis by simp
  qed (use r(1) in simp)
qed simp

lemma analysis_dag_total: "\<exists>r. analysis_dag draft pinned = Some r"
proof -
  have "white_ids (map an_id (analysis_nodes draft)) dag_start \<le> length (analysis_nodes draft)"
    using white_ids_le [of "map an_id (analysis_nodes draft)"] by simp
  then have "white_ids (map an_id (analysis_nodes draft)) dag_start < Suc (length (analysis_nodes draft))" by simp
  then obtain r where "visit_all (Suc (length (analysis_nodes draft))) pinned (analysis_nodes draft) (analysis_nodes draft) dag_start
      = Some r" using visit_all_total [of "analysis_nodes draft" "analysis_nodes draft"] unfolding set_map by blast
  then show ?thesis by (simp add: analysis_dag_def Let_def)
qed

text \<open>
  C20: planning the analysis DAG always ends: a recursion depth of one more than the number of nodes is never
  used up, whatever the nodes depend on.
\<close>

theorem analysis_dag_terminates: "\<exists>r. analysis_dag draft pinned = Some r"
  by (rule analysis_dag_total)

section \<open>The plan of a DAG\<close>

definition entry_id :: "json \<Rightarrow> json" where
  "entry_id e = jget e ''nodeId''"

text \<open>The nodes planned so far are the black ones, each after the nodes it depends on.\<close>

definition dag_inv :: "pinned_release \<Rightarrow> analysis_node_draft list \<Rightarrow> dag_state \<Rightarrow> bool" where
  "dag_inv pinned nodes s \<longleftrightarrow> (\<exists>done. (\<forall>n \<in> set done. an_operator n \<in> set (pinned_operators pinned)
        \<and> collectM (dag_input_check pinned (map an_id nodes)) (an_inputs n) = Inr [])
     \<and> map entry_id (dag_planned s) = map (\<lambda>n. JStr (an_id n)) done
     \<and> distinct done \<and> set done \<subseteq> set nodes \<and> (\<forall>n \<in> set nodes. n \<in> set done \<longleftrightarrow> mark_of s (an_id n) = 2)
     \<and> (\<forall>k < length done. \<forall>d \<in> set (an_depends_on (done ! k)). \<exists>j < k. d = JStr (an_id (done ! j))))"

definition dag_step :: "dag_state \<Rightarrow> dag_state \<Rightarrow> bool" where
  "dag_step s s' \<longleftrightarrow> (\<forall>i. mark_of s i = 1 \<longleftrightarrow> mark_of s' i = 1) \<and> (\<forall>i. mark_of s i = 2 \<longrightarrow> mark_of s' i = 2)"

lemma dag_step_trans: "dag_step s s' \<Longrightarrow> dag_step s' s'' \<Longrightarrow> dag_step s s''"
  by (simp add: dag_step_def)

lemma find_node:
  assumes "distinct (map an_id nodes)" and "find (\<lambda>m. an_id m = i) nodes = Some node"
  shows "node \<in> set nodes \<and> an_id node = i \<and> (\<forall>n \<in> set nodes. an_id n = i \<longrightarrow> n = node)"
proof -
  from assms(2) have "node \<in> set nodes" "an_id node = i" by (auto simp: find_Some_iff)
  moreover from assms(1) have "inj_on an_id (set nodes)" by (simp add: distinct_map)
  ultimately show ?thesis by (metis inj_onD)
qed

lemma dag_inv_finish:
  assumes ids: "distinct (map an_id nodes)" and inv: "dag_inv pinned nodes s" and node: "node \<in> set nodes"
    and known: "an_operator node \<in> set (pinned_operators pinned)" and grey: "mark_of s (an_id node) = 1"
    and deps: "\<forall>d \<in> set (an_depends_on node). \<exists>i \<in> set (map an_id nodes). d = JStr i \<and> mark_of s i = 2"
    and finish: "finish_node pinned (map an_id nodes) node s = Inr s'"
  shows "dag_inv pinned nodes s'"
proof -
  from inv obtain earlier where e: "map entry_id (dag_planned s) = map (\<lambda>n. JStr (an_id n)) earlier" "distinct earlier"
    "set earlier \<subseteq> set nodes" "\<forall>n \<in> set nodes. n \<in> set earlier \<longleftrightarrow> mark_of s (an_id n) = 2"
    "\<forall>k < length earlier. \<forall>d \<in> set (an_depends_on (earlier ! k)). \<exists>j < k. d = JStr (an_id (earlier ! j))"
    and ok: "\<forall>n \<in> set earlier. an_operator n \<in> set (pinned_operators pinned)
        \<and> collectM (dag_input_check pinned (map an_id nodes)) (an_inputs n) = Inr []"
    by (auto simp: dag_inv_def)
  from finish obtain entry where entry: "planned_node pinned node = Inr entry"
    "s' = set_mark (an_id node) 2 (s\<lparr>dag_planned := dag_planned s @ [entry]\<rparr>)" by (auto simp: finish_node_Inr)
  have id: "entry_id entry = JStr (an_id node)" using entry(1) by (auto simp: planned_node_def entry_id_def split: option.splits)
  have fresh: "node \<notin> set earlier" using e(4) node grey by auto
  have deps_done: "\<exists>j < length earlier. d = JStr (an_id (earlier ! j))" if "d \<in> set (an_depends_on node)" for d
  proof -
    from that deps obtain m where "m \<in> set nodes" "d = JStr (an_id m)" "mark_of s (an_id m) = 2" by auto
    with e(4) have "m \<in> set earlier" by blast
    with \<open>d = JStr (an_id m)\<close> show ?thesis by (auto simp: in_set_conv_nth)
  qed
  have "\<forall>n \<in> set (earlier @ [node]). an_operator n \<in> set (pinned_operators pinned)
      \<and> collectM (dag_input_check pinned (map an_id nodes)) (an_inputs n) = Inr []"
    using ok known finish by (auto simp: finish_node_Inr)
  moreover have "map entry_id (dag_planned s') = map (\<lambda>n. JStr (an_id n)) (earlier @ [node])
     \<and> distinct (earlier @ [node]) \<and> set (earlier @ [node]) \<subseteq> set nodes
     \<and> (\<forall>n \<in> set nodes. n \<in> set (earlier @ [node]) \<longleftrightarrow> mark_of s' (an_id n) = 2)
     \<and> (\<forall>k < length (earlier @ [node]). \<forall>d \<in> set (an_depends_on ((earlier @ [node]) ! k)).
          \<exists>j < k. d = JStr (an_id ((earlier @ [node]) ! j)))"
  proof (intro conjI allI impI ballI)
    show "map entry_id (dag_planned s') = map (\<lambda>n. JStr (an_id n)) (earlier @ [node])" using e(1) entry(2) id by simp
    show "distinct (earlier @ [node])" using e(2) fresh by simp
    show "set (earlier @ [node]) \<subseteq> set nodes" using e(3) node by simp
    show "n \<in> set (earlier @ [node]) \<longleftrightarrow> mark_of s' (an_id n) = 2" if "n \<in> set nodes" for n
      using that e(4) entry(2) ids node by (auto simp: distinct_map inj_on_def)
    show "\<exists>j < k. d = JStr (an_id ((earlier @ [node]) ! j))"
      if "k < length (earlier @ [node])" "d \<in> set (an_depends_on ((earlier @ [node]) ! k))" for k d
    proof (cases "k < length earlier")
      case True
      with that e(5) obtain j where "j < k" "d = JStr (an_id (earlier ! j))" by (auto simp: nth_append)
      with True show ?thesis by (intro exI [of _ j]) (simp add: nth_append)
    next
      case False
      with that have "k = length earlier" "d \<in> set (an_depends_on node)" by (auto simp: nth_append)
      with deps_done obtain j where "j < k" "d = JStr (an_id (earlier ! j))" by blast
      with \<open>k = length earlier\<close> show ?thesis by (intro exI [of _ j]) (simp add: nth_append)
    qed
  qed
  ultimately show ?thesis unfolding dag_inv_def by blast
qed

lemma dag_inv_grey:
  assumes "dag_inv pinned nodes s" and "mark_of s i \<noteq> 2"
  shows "dag_inv pinned nodes (set_mark i 1 s)"
proof -
  have "mark_of (set_mark i 1 s) j = 2 \<longleftrightarrow> mark_of s j = 2" for j using assms(2) by auto
  with assms(1) show ?thesis by (simp only: dag_inv_def dag_planned_set_mark)
qed

lemma visit_sound:
  "visit_node n pinned nodes i s = Some (Inr s') \<Longrightarrow> distinct (map an_id nodes) \<Longrightarrow> dag_inv pinned nodes s \<Longrightarrow>
     dag_inv pinned nodes s' \<and> dag_step s s' \<and> mark_of s' i = 2"
  "visit_deps n pinned nodes ds s = Some (Inr s') \<Longrightarrow> distinct (map an_id nodes) \<Longrightarrow> dag_inv pinned nodes s \<Longrightarrow>
     dag_inv pinned nodes s' \<and> dag_step s s' \<and> (\<forall>d \<in> set ds. \<exists>i \<in> set (map an_id nodes). d = JStr i \<and> mark_of s' i = 2)"
proof (induction n pinned nodes i s and n pinned nodes ds s arbitrary: s' and s' rule: visit_node_visit_deps.induct)
  case (2 n pinned nodes i s)
  show ?case
  proof (cases "mark_of s i = 2")
    case True
    with "2.prems" show ?thesis by (simp add: dag_step_def)
  next
    case False
    with "2.prems"(1) have white: "mark_of s i \<noteq> 1" by auto
    from "2.prems"(1) white False obtain node where node: "find (\<lambda>m. an_id m = i) nodes = Some node"
      by (cases "find (\<lambda>m. an_id m = i) nodes") auto
    with "2.prems"(1) white False have known: "an_operator node \<in> set (pinned_operators pinned)" by (auto split: if_splits)
    from "2.prems"(1) white False node known obtain s1 where
      s1: "visit_deps n pinned nodes (an_depends_on node) (set_mark i 1 s) = Some (Inr s1)"
        "finish_node pinned (map an_id nodes) node s1 = Inr s'"
      by (auto split: option.splits sum.splits)
    note id = find_node [OF "2.prems"(2) node]
    from "2.IH" [OF white False node _ s1(1) "2.prems"(2) dag_inv_grey [OF "2.prems"(3) False]] known
    have deps: "dag_inv pinned nodes s1" "dag_step (set_mark i 1 s) s1"
      "\<forall>d \<in> set (an_depends_on node). \<exists>i \<in> set (map an_id nodes). d = JStr i \<and> mark_of s1 i = 2" by auto
    have "mark_of s1 i = 1" using deps(2) unfolding dag_step_def by (metis mark_of_set_mark)
    then have "dag_inv pinned nodes s'"
      using dag_inv_finish [OF "2.prems"(2) deps(1) _ known _ deps(3) s1(2)] id by simp
    moreover have after: "mark_of s' j = (if j = i then 2 else mark_of s1 j)" for j
      using s1(2) id by (auto simp: finish_node_Inr)
    have kept: "(if j = i then 1 else mark_of s j) = 1 \<longleftrightarrow> mark_of s1 j = 1"
      "(if j = i then 1 else mark_of s j) = 2 \<longrightarrow> mark_of s1 j = 2" for j
      using deps(2) unfolding dag_step_def mark_of_set_mark by blast+
    have "(mark_of s j = 1 \<longleftrightarrow> mark_of s' j = 1) \<and> (mark_of s j = 2 \<longrightarrow> mark_of s' j = 2)" for j
      using kept [of j] white False unfolding after by (cases "j = i") simp_all
    then have "dag_step s s'" by (simp add: dag_step_def)
    ultimately show ?thesis using after by simp
  qed
next
  case (4 n pinned nodes d ds s)
  from "4.prems"(1) obtain i where i: "find (\<lambda>i. d = JStr i) (map an_id nodes) = Some i"
    by (cases "find (\<lambda>i. d = JStr i) (map an_id nodes)") auto
  with "4.prems"(1) obtain s1 where s1: "visit_node n pinned nodes i s = Some (Inr s1)"
    "visit_deps n pinned nodes ds s1 = Some (Inr s')" by (auto split: option.splits sum.splits)
  from "4.IH"(1) [OF i s1(1) "4.prems"(2,3)] have first: "dag_inv pinned nodes s1" "dag_step s s1" "mark_of s1 i = 2" by auto
  from "4.IH"(2) [OF i s1(1) refl s1(2) "4.prems"(2) first(1)] have rest: "dag_inv pinned nodes s'" "dag_step s1 s'"
    "\<forall>d \<in> set ds. \<exists>i \<in> set (map an_id nodes). d = JStr i \<and> mark_of s' i = 2" by auto
  have "i \<in> set (map an_id nodes)" "d = JStr i" using i by (auto simp: find_Some_iff)
  moreover have "mark_of s' i = 2" using first(3) rest(2) by (simp add: dag_step_def)
  ultimately show ?case using rest dag_step_trans [OF first(2) rest(2)] by auto
qed (simp_all add: dag_step_def)

lemma visit_all_sound:
  "visit_all n pinned nodes ms s = Some (Inr s') \<Longrightarrow> distinct (map an_id nodes) \<Longrightarrow> dag_inv pinned nodes s \<Longrightarrow>
   dag_inv pinned nodes s' \<and> dag_step s s' \<and> (\<forall>m \<in> set ms. mark_of s' (an_id m) = 2)"
proof (induction ms arbitrary: s)
  case (Cons m ms)
  from Cons.prems(1) obtain s1 where s1: "visit_node n pinned nodes (an_id m) s = Some (Inr s1)"
    "visit_all n pinned nodes ms s1 = Some (Inr s')" by (auto split: option.splits sum.splits)
  from visit_sound(1) [OF s1(1) Cons.prems(2,3)] have first: "dag_inv pinned nodes s1" "dag_step s s1"
    "mark_of s1 (an_id m) = 2" by auto
  from Cons.IH [OF s1(2) Cons.prems(2) first(1)] have rest: "dag_inv pinned nodes s'" "dag_step s1 s'"
    "\<forall>m \<in> set ms. mark_of s' (an_id m) = 2" by auto
  then show ?case using dag_step_trans [OF first(2) rest(2)] first(3) by (auto simp: dag_step_def)
qed (simp add: dag_step_def)

lemma dag_inv_start: "dag_inv pinned nodes dag_start"
  unfolding dag_inv_def by (intro exI [of _ "[]"]) (simp add: dag_start_def mark_of_def)

lemma analysis_dag_plans:
  assumes "analysis_dag draft pinned = Some (Inr plan)"
  shows "length (analysis_nodes draft) \<le> max_analysis_nodes \<and> distinct (map an_id (analysis_nodes draft))
    \<and> (\<exists>order. map entry_id (ap_nodes plan) = map (\<lambda>n. JStr (an_id n)) order
        \<and> distinct order \<and> set order = set (analysis_nodes draft)
        \<and> list_all (\<lambda>n. an_operator n \<in> set (pinned_operators pinned)
             \<and> collectM (dag_input_check pinned (map an_id (analysis_nodes draft))) (an_inputs n) = Inr []) order
        \<and> (\<forall>k < length order. \<forall>d \<in> set (an_depends_on (order ! k)). \<exists>j < k. d = JStr (an_id (order ! j))))"
proof -
  let ?nodes = "analysis_nodes draft"
  from assms have bounds: "length ?nodes \<le> max_analysis_nodes" and ids: "distinct (map an_id ?nodes)"
    by (auto simp: analysis_dag_def Let_def split: if_splits)
  from assms bounds ids obtain s where s: "visit_all (Suc (length ?nodes)) pinned ?nodes ?nodes dag_start = Some (Inr s)"
    "ap_nodes plan = dag_planned s"
  proof -
    from assms bounds ids obtain x where "visit_all (Suc (length ?nodes)) pinned ?nodes ?nodes dag_start = Some x"
      "map_sum id (\<lambda>s. \<lparr>ap_nodes = dag_planned s,
         ap_outputs = filter (\<lambda>i. JStr i \<notin> set (concat (map an_depends_on ?nodes))) (map an_id ?nodes)\<rparr>) x = Inr plan"
      by (auto simp: analysis_dag_def Let_def)
    with that show thesis by (cases x) auto
  qed
  from visit_all_sound [OF s(1) ids dag_inv_start] have inv: "dag_inv pinned ?nodes s"
    and black: "\<forall>m \<in> set ?nodes. mark_of s (an_id m) = 2" by auto
  from inv obtain order where order: "map entry_id (dag_planned s) = map (\<lambda>n. JStr (an_id n)) order"
    "distinct order" "set order \<subseteq> set ?nodes" "\<forall>n \<in> set ?nodes. n \<in> set order \<longleftrightarrow> mark_of s (an_id n) = 2"
    "\<forall>n \<in> set order. an_operator n \<in> set (pinned_operators pinned)
        \<and> collectM (dag_input_check pinned (map an_id ?nodes)) (an_inputs n) = Inr []"
    "\<forall>k < length order. \<forall>d \<in> set (an_depends_on (order ! k)). \<exists>j < k. d = JStr (an_id (order ! j))"
    by (auto simp: dag_inv_def)
  moreover have "set order = set ?nodes" using order(3,4) black by blast
  ultimately show ?thesis using bounds ids s(2) by (auto simp: list_all_iff)
qed

lemma dag_input_check_Inr:
  assumes "dag_input_check pinned ids v = Inr us"
  shows "jget v ''kind'' = JStr ''factField'' \<and> (\<exists>f g gs. jget v ''factTypeId'' = JStr f \<and> jget v ''field'' = JStr g
           \<and> map_of (allowlist_fields pinned) f = Some gs \<and> g \<in> set gs)
     \<or> jget v ''kind'' = JStr ''nodeRef'' \<and> (\<exists>i \<in> set ids. jget v ''nodeId'' = JStr i)"
proof -
  from assms have kind: "get_attr v ''kind'' JNull = Inr (jget v ''kind'')"
    by (auto simp: dag_input_check_def result_simps get_attr_def jget_default_def jget_def split: if_splits)
  show ?thesis
  proof (cases "jget v ''kind'' = JStr ''factField''")
    case True
    with assms kind have "fact_input_check pinned v = Inr us" by (simp add: dag_input_check_def)
    then obtain g where g: "jget v ''field'' = JStr g"
      "g \<in> set (case jget v ''factTypeId'' of JStr f \<Rightarrow> group_get (allowlist_fields pinned) f | _ \<Rightarrow> [])"
      by (auto simp: fact_input_check_def Let_def result_simps split: if_splits dest!: frozen_member_TrueD)
    then obtain f where "jget v ''factTypeId'' = JStr f" "g \<in> set (group_get (allowlist_fields pinned) f)"
      by (cases "jget v ''factTypeId''") auto
    with g(1) True show ?thesis by (cases "map_of (allowlist_fields pinned) f") (auto simp: group_get_def)
  next
    case False
    with assms kind show ?thesis by (auto simp: dag_input_check_def split: if_splits)
  qed
qed

text \<open>
  C19: a planned analysis DAG has at most six nodes of distinct ids, each with a registered operator; every
  input of a node is a field the release allowlists for its fact type, or a node of the DAG; the DAG lists each
  node exactly once, after every node it depends on.
\<close>

theorem analysis_dag_sound:
  assumes "analysis_dag draft pinned = Some (Inr plan)"
  shows "length (analysis_nodes draft) \<le> 6 \<and> distinct (map an_id (analysis_nodes draft))
    \<and> list_all (\<lambda>n. an_operator n \<in> set (pinned_operators pinned)
         \<and> list_all (\<lambda>v.
             jget v ''kind'' = JStr ''factField'' \<and> (\<exists>f g gs. jget v ''factTypeId'' = JStr f \<and> jget v ''field'' = JStr g
               \<and> map_of (allowlist_fields pinned) f = Some gs \<and> g \<in> set gs)
             \<or> jget v ''kind'' = JStr ''nodeRef'' \<and> (\<exists>m \<in> set (analysis_nodes draft). jget v ''nodeId'' = JStr (an_id m)))
           (an_inputs n)) (analysis_nodes draft)
    \<and> (\<exists>order. map entry_id (ap_nodes plan) = map (\<lambda>n. JStr (an_id n)) order
        \<and> distinct order \<and> set order = set (analysis_nodes draft)
        \<and> (\<forall>k < length order. \<forall>d \<in> set (an_depends_on (order ! k)). \<exists>j < k. d = JStr (an_id (order ! j))))"
proof -
  note plans = analysis_dag_plans [OF assms]
  then obtain order where order: "set order = set (analysis_nodes draft)"
    "list_all (\<lambda>n. an_operator n \<in> set (pinned_operators pinned)
       \<and> collectM (dag_input_check pinned (map an_id (analysis_nodes draft))) (an_inputs n) = Inr []) order" by blast
  have allowed: "jget v ''kind'' = JStr ''factField'' \<and> (\<exists>f g gs. jget v ''factTypeId'' = JStr f \<and> jget v ''field'' = JStr g
           \<and> map_of (allowlist_fields pinned) f = Some gs \<and> g \<in> set gs)
     \<or> jget v ''kind'' = JStr ''nodeRef'' \<and> (\<exists>m \<in> set (analysis_nodes draft). jget v ''nodeId'' = JStr (an_id m))"
    if "n \<in> set (analysis_nodes draft)" "v \<in> set (an_inputs n)" for n v
  proof -
    from order that(1) have "collectM (dag_input_check pinned (map an_id (analysis_nodes draft))) (an_inputs n) = Inr []"
      by (simp add: list_all_iff)
    from collectM_ok [OF this that(2)] obtain us
      where "dag_input_check pinned (map an_id (analysis_nodes draft)) v = Inr us" by blast
    from dag_input_check_Inr [OF this] show ?thesis by (simp only: set_map bex_simps)
  qed
  have "an_operator n \<in> set (pinned_operators pinned)" if "n \<in> set (analysis_nodes draft)" for n
    using order that by (simp add: list_all_iff)
  with allowed plans show ?thesis unfolding list_all_iff max_analysis_nodes_def by blast
qed

definition demo_dag_draft :: goal_draft where
  "demo_dag_draft = (demo_request_draft [''Stk''])\<lparr>analysis_nodes :=
     [\<lparr>an_id = ''total'', an_operator = ''count'',
        an_inputs = [JObj [(''kind'', JStr ''nodeRef''), (''nodeId'', JStr ''rows'')]], an_params = JObj [],
        an_depends_on = [JStr ''rows'']\<rparr>,
      \<lparr>an_id = ''rows'', an_operator = ''count'',
        an_inputs = [JObj [(''kind'', JStr ''factField''), (''factTypeId'', JStr ''Stk''), (''field'', JStr ''qty'')]],
        an_params = JObj [], an_depends_on = []\<rparr>]\<rparr>"

definition demo_dag :: analysis_plan where
  "demo_dag = projr (the (analysis_dag demo_dag_draft demo_pinned))"

lemma demo_dag_planned: "analysis_dag demo_dag_draft demo_pinned = Some (Inr demo_dag)"
  by code_simp

lemma analysis_dag_sound_witness:
  "map entry_id (ap_nodes demo_dag) = [JStr ''rows'', JStr ''total'']
   \<and> distinct (map an_id (analysis_nodes demo_dag_draft))"
proof -
  have "map entry_id (ap_nodes demo_dag) = [JStr ''rows'', JStr ''total'']" by code_simp
  with analysis_dag_sound [OF demo_dag_planned] show ?thesis by blast
qed

section \<open>The nodes of a compiled plan\<close>

definition read_id :: "nat \<Rightarrow> string" where
  "read_id k = ''read-'' @ string_of_nat k"

lemma node_ids_lookup:
  assumes "distinct ids" and "k < length ids"
  shows "map_of (node_ids_of ids) (ids ! k) = Some (read_id k)"
proof -
  let ?kvs = "map (\<lambda>(index, i). (i, ''read-'' @ string_of_nat index)) (enumerate_list ids)"
  have "distinct (map fst ?kvs)" using assms(1) map_snd_enumerate [of "\<lambda>x. x" ids] by (simp add: case_prod_beta comp_def)
  then have "set (dict_of ?kvs) = set ?kvs" by (rule dict_of_distinct)
  moreover have "(ids ! k, read_id k) \<in> set ?kvs"
    using assms(2) by (force simp: enumerate_list_mem read_id_def)
  ultimately have "(ids ! k, read_id k) \<in> set (node_ids_of ids)" by (simp add: node_ids_of_def)
  then show ?thesis by (simp add: node_ids_of_def map_of_is_SomeI distinct_dict_of)
qed

lemma keys_node_ids: "fst ` set (node_ids_of ids) = set ids"
proof -
  have "fst ` set (node_ids_of ids) = snd ` set (enumerate_list ids)"
    unfolding node_ids_of_def keys_dict_of by (simp add: image_image case_prod_beta)
  then show ?thesis by (simp only: enumerate_list_snd)
qed

lemma author_node_Inr:
  assumes "author_node cards_by_id raw node_by_cap names supplied bs i = Inr n"
  shows "rn_capability n = i \<and> map_of node_by_cap i = Some (rn_id n)
    \<and> (\<exists>defn c. map_of raw i = Some defn \<and> map_of cards_by_id i = Some c
        \<and> rn_produces n = sort (card_produces c)
        \<and> rn_kind n = jget_default defn ''kind'' (JStr ''Function'')
        \<and> rn_side_effect n = jget_default (jget_default defn ''governance'' (JObj [])) ''sideEffect'' (JStr ''none'')
        \<and> rn_requires_approval n
            = jget_default (jget_default defn ''governance'' (JObj [])) ''requiresApproval'' (JBool False))"
proof -
  from assms obtain c where c: "map_of cards_by_id i = Some c" by (auto simp: author_node_def split: option.splits)
  with assms obtain authored defn where d:
    "collectM (author_binding node_by_cap names supplied bs i) (card_inputs c) = Inr authored" "map_of raw i = Some defn"
    by (cases "map_of raw i") (auto simp: author_node_def result_simps)
  with assms c have m: "is_mapping (jget_default defn ''governance'' (JObj []))"
    by (auto simp: author_node_def Let_def split: if_splits)
  with assms c d obtain node where n: "map_of node_by_cap i = Some node"
    by (cases "map_of node_by_cap i") (auto simp: author_node_def Let_def)
  from assms have "n = \<lparr>rn_id = node, rn_capability = i, rn_bindings = authored, rn_produces = sort (card_produces c),
      rn_kind = jget_default defn ''kind'' (JStr ''Function''),
      rn_side_effect = jget_default (jget_default defn ''governance'' (JObj [])) ''sideEffect'' (JStr ''none''),
      rn_requires_approval = jget_default (jget_default defn ''governance'' (JObj [])) ''requiresApproval'' (JBool False),
      rn_approval_policy = jget_default (jget_default defn ''governance'' (JObj [])) ''approvalPolicy''
        (JStr ''not_required'')\<rparr>"
    using c d m n by (simp add: author_node_def Let_def)
  with c d n show ?thesis by simp
qed

lemma author_nodes_Inr:
  assumes "author_nodes ids cards_by_id raw supplied bs = Inr (nodes, node_by_cap, es)" and "distinct ids"
  shows "node_by_cap = node_ids_of ids \<and> es = data_edges_of node_by_cap bs
    \<and> map rn_capability nodes = ids \<and> map rn_id nodes = map read_id [0..<length ids]
    \<and> (\<forall>n \<in> set nodes. \<exists>names. author_node cards_by_id raw node_by_cap names supplied bs (rn_capability n) = Inr n)"
proof -
  from assms(1) obtain names where run: "node_by_cap = node_ids_of ids" "es = data_edges_of node_by_cap bs"
    "list_all2 (\<lambda>i n. author_node cards_by_id raw node_by_cap names supplied bs i = Inr n) ids nodes"
    by (auto simp: author_nodes_def result_simps Let_def)
  have len: "length nodes = length ids" using list_all2_lengthD [OF run(3)] by simp
  have node: "author_node cards_by_id raw node_by_cap names supplied bs (ids ! k) = Inr (nodes ! k)"
    if "k < length ids" for k using list_all2_nthD [OF run(3) that] .
  have "rn_capability (nodes ! k) = ids ! k \<and> rn_id (nodes ! k) = read_id k" if "k < length ids" for k
    using author_node_Inr [OF node [OF that]] node_ids_lookup [OF assms(2) that] run(1) by simp
  then have maps: "map rn_capability nodes = ids" "map rn_id nodes = map read_id [0..<length ids]"
    using len by (auto intro!: nth_equalityI)
  have "\<exists>names. author_node cards_by_id raw node_by_cap names supplied bs (rn_capability n) = Inr n"
    if "n \<in> set nodes" for n
  proof -
    from that obtain k where k: "k < length ids" "nodes ! k = n" using len by (auto simp: in_set_conv_nth)
    with node [OF k(1)] author_node_Inr [OF node [OF k(1)]] show ?thesis by auto
  qed
  with run maps show ?thesis by blast
qed

lemma distinct_read_ids: "distinct (map read_id [0..<n])"
  by (auto simp: distinct_map inj_on_def read_id_def)

lemma collectM_unit:
  assumes "collectM f xs = Inr ys" and "x \<in> set xs"
  shows "\<exists>zs. f x = Inr zs"
  using collectM_ok [OF assms] by blast

lemma assert_read_only_one_Inr:
  assumes "assert_read_only_one raw i = Inr zs"
  shows "\<exists>definition. map_of raw i = Some definition \<and> jget definition ''kind'' = JStr ''Function''
     \<and> jget_default (jget_default definition ''governance'' (JObj [])) ''sideEffect'' (JStr ''none'') = JStr ''none''
     \<and> \<not> truthy (jget_default (jget_default definition ''governance'' (JObj [])) ''requiresApproval'' (JBool False))"
  using assms by (auto simp: assert_read_only_one_def result_simps Let_def get_attr_def split: option.splits if_splits)

lemma jget_default_jget: "jget d k = JStr s \<Longrightarrow> jget_default d k v = JStr s"
  by (auto simp: jget_def jget_default_def split: option.splits)

text \<open>What a compiled plan went through.\<close>

lemma compile_stages:
  assumes "compile sha256_hex draft r pinned docs snapshot who scope = Some (Inr p)"
  obtains raw cards nodes order goal es outputs analysis where
    "raw_capabilities docs = Inr raw" "discover_cards snapshot docs = Inr cards" "res_status r = ''complete''"
    "assert_read_only (planned_ids_of r) raw = Inr []" "length (planned_ids_of r) \<le> max_read_nodes"
    "author_nodes (planned_ids_of r) (dict_of (map (\<lambda>c. (card_id c, c)) cards)) raw (supplied_values r draft) (res_closure r)
       = Inr (nodes, node_ids_of (planned_ids_of r), es)"
    "topological_order_of (map rn_id nodes) es = Inr order"
    "mapM (goal_output_of (node_ids_of (planned_ids_of r))) (sort_key desired_type (res_desired r)) = Inr outputs"
    "analysis_dag draft pinned = Some (Inr analysis)" "execution_mode goal = ''READ_ONLY''"
    "desired_fact_types goal = desired_types_of r"
    "p = assemble sha256_hex draft r pinned snapshot who scope nodes es order goal outputs analysis"
proof -
  from assms obtain nodes node_by_cap es order goal where
    read: "compile_read sha256_hex draft r docs snapshot = Inr (nodes, node_by_cap, es, order, goal)"
    and rest: "map_option (\<lambda>dag. rbind dag (\<lambda>analysis.
            rbind (mapM (goal_output_of node_by_cap) (sort_key desired_type (res_desired r))) (\<lambda>outputs.
              Inr (assemble sha256_hex draft r pinned snapshot who scope nodes es order goal outputs analysis))))
            (analysis_dag draft pinned) = Some (Inr p)"
    by (auto simp: compile_def split: sum.splits)
  from rest obtain analysis outputs where
    "analysis_dag draft pinned = Some (Inr analysis)"
    "mapM (goal_output_of node_by_cap) (sort_key desired_type (res_desired r)) = Inr outputs"
    "p = assemble sha256_hex draft r pinned snapshot who scope nodes es order goal outputs analysis"
    by (auto simp: result_simps)
  note last = this
  have units: "xs = []" if "collectM (assert_read_only_one raw) is = Inr xs" for xs "is" raw
    using that
    by (induction "is" arbitrary: xs)
      (auto simp: result_simps assert_read_only_one_def Let_def split: option.splits if_splits)
  from read obtain raw cards xs cs where
    "raw_capabilities docs = Inr raw" "discover_cards snapshot docs = Inr cards" "res_status r = ''complete''"
    "assert_read_only (planned_ids_of r) raw = Inr xs" "length (planned_ids_of r) \<le> max_read_nodes"
    "author_nodes (planned_ids_of r) (dict_of (map (\<lambda>c. (card_id c, c)) cards)) raw (supplied_values r draft) (res_closure r)
       = Inr (nodes, node_by_cap, es)"
    "topological_order_of (map rn_id nodes) es = Inr order" "goal = goal_of sha256_hex r cs"
    by (auto simp: compile_read_def Let_def result_simps split: if_splits)
  note first = this
  have ids: "node_by_cap = node_ids_of (planned_ids_of r)"
    using author_nodes_Inr [OF first(6)] by (simp add: planned_ids_of_def)
  have "assert_read_only (planned_ids_of r) raw = Inr []" using first(4) units by (auto simp: assert_read_only_def)
  moreover have "execution_mode goal = ''READ_ONLY''" "desired_fact_types goal = desired_types_of r"
    by (simp_all add: first(8) goal_of_def)
  ultimately show thesis
    using that [OF first(1-3) _ first(5) first(6) [unfolded ids] first(7) last(2) [unfolded ids] last(1) _ _ last(3)] by blast
qed

lemma data_edges_of_mem:
  assumes "e \<in> set (data_edges_of node_by_cap bs)"
  shows "\<exists>k a b f. e = DataEdge (''edge.data.'' @ string_of_nat k) a b f
     \<and> (\<exists>x \<in> set bs. map_of node_by_cap (bound_producer x) = Some a \<and> map_of node_by_cap (bound_consumer x) = Some b
          \<and> bound_fact_type x = f)"
proof -
  let ?keys = "concat (map (binding_edge_key node_by_cap) bs)"
  from assms obtain k a b f where e: "e = DataEdge (''edge.data.'' @ string_of_nat k) a b f"
    "(k, a, b, f) \<in> set (enumerate_list (fold (\<lambda>key keys. if key \<in> set keys then keys else keys @ [key]) ?keys []))"
    by (auto simp: data_edges_of_def)
  from e(2) have "(a, b, f) \<in> snd ` set (enumerate_list (fold (\<lambda>key keys. if key \<in> set keys then keys else keys @ [key]) ?keys []))"
    by force
  then have "(a, b, f) \<in> set ?keys" unfolding enumerate_list_snd by (simp add: set_fold_add)
  then obtain x where "x \<in> set bs" "(a, b, f) \<in> set (binding_edge_key node_by_cap x)" by auto
  then show ?thesis using e(1) by (auto simp: binding_edge_key_def split: option.splits)
qed

text \<open>What a node of a compiled plan was made of: the registered capability and its active card.\<close>

lemma compiled_node_source:
  assumes "compile sha256_hex draft r pinned docs snapshot who scope = Some (Inr p)" and "n \<in> set (rp_nodes (cp_read_plan p))"
  shows "\<exists>raw d cards c. raw_capabilities docs = Inr raw \<and> map_of raw (rn_capability n) = Some d
    \<and> jget d ''kind'' = JStr ''Function''
    \<and> jget_default (jget_default d ''governance'' (JObj [])) ''sideEffect'' (JStr ''none'') = JStr ''none''
    \<and> \<not> truthy (jget_default (jget_default d ''governance'' (JObj [])) ''requiresApproval'' (JBool False))
    \<and> rn_kind n = JStr ''Function'' \<and> rn_side_effect n = JStr ''none'' \<and> \<not> truthy (rn_requires_approval n)
    \<and> discover_cards snapshot docs = Inr cards \<and> c \<in> set cards \<and> card_id c = rn_capability n"
  using assms(1)
proof (rule compile_stages)
  fix raw cards nodes order goal es outputs analysis
  assume raw: "raw_capabilities docs = Inr raw" and cards: "discover_cards snapshot docs = Inr cards"
    and read: "assert_read_only (planned_ids_of r) raw = Inr []"
    and nodes: "author_nodes (planned_ids_of r) (dict_of (map (\<lambda>c. (card_id c, c)) cards)) raw
       (supplied_values r draft) (res_closure r) = Inr (nodes, node_ids_of (planned_ids_of r), es)"
    and p: "p = assemble sha256_hex draft r pinned snapshot who scope nodes es order goal outputs analysis"
  have n: "n \<in> set nodes" using assms(2) by (simp add: p assemble_def Let_def)
  from author_nodes_Inr [OF nodes] have ids: "map rn_capability nodes = planned_ids_of r"
    and each: "\<forall>n \<in> set nodes. \<exists>names. author_node (dict_of (map (\<lambda>c. (card_id c, c)) cards)) raw
       (node_ids_of (planned_ids_of r)) names (supplied_values r draft) (res_closure r) (rn_capability n) = Inr n"
    by (simp_all add: planned_ids_of_def)
  have "rn_capability n \<in> set (map rn_capability nodes)" using n by simp
  then have "rn_capability n \<in> set (sorted_set (planned_ids_of r))" unfolding ids by simp
  from collectM_unit [OF read [unfolded assert_read_only_def] this]
  obtain zs where "assert_read_only_one raw (rn_capability n) = Inr zs" ..
  from assert_read_only_one_Inr [OF this] obtain d where d: "map_of raw (rn_capability n) = Some d" "jget d ''kind'' = JStr ''Function''"
     "jget_default (jget_default d ''governance'' (JObj [])) ''sideEffect'' (JStr ''none'') = JStr ''none''"
     "\<not> truthy (jget_default (jget_default d ''governance'' (JObj [])) ''requiresApproval'' (JBool False))"
    by (elim exE conjE)
  from each n obtain names where "author_node (dict_of (map (\<lambda>c. (card_id c, c)) cards)) raw
     (node_ids_of (planned_ids_of r)) names (supplied_values r draft) (res_closure r) (rn_capability n) = Inr n" by blast
  from author_node_Inr [OF this] d(1) obtain c where kept: "map_of (dict_of (map (\<lambda>c. (card_id c, c)) cards)) (rn_capability n) = Some c"
    "rn_kind n = jget_default d ''kind'' (JStr ''Function'')"
    "rn_side_effect n = jget_default (jget_default d ''governance'' (JObj [])) ''sideEffect'' (JStr ''none'')"
    "rn_requires_approval n = jget_default (jget_default d ''governance'' (JObj [])) ''requiresApproval'' (JBool False)"
    by auto
  from kept(1) have "(rn_capability n, c) \<in> set (rev (map (\<lambda>c. (card_id c, c)) cards))"
    unfolding map_of_dict_of by (rule map_of_SomeD)
  then have "c \<in> set cards" "card_id c = rn_capability n" by auto
  then show ?thesis unfolding kept(2-4) using d raw cards jget_default_jget [OF d(2)] by blast
qed

text \<open>
  C4: every node of a compiled read plan belongs to a capability that the registry declares as a Function, with
  no side effect and no approval required, and carries these governance values; the plan has at most six nodes, one per planned capability.
\<close>

theorem compiled_plan_read_only:
  assumes "compile sha256_hex draft r pinned docs snapshot who scope = Some (Inr p)"
  shows "length (rp_nodes (cp_read_plan p)) \<le> 6
    \<and> map rn_capability (rp_nodes (cp_read_plan p)) = planned_ids_of r
    \<and> list_all (\<lambda>n. (\<exists>raw d. raw_capabilities docs = Inr raw \<and> map_of raw (rn_capability n) = Some d
           \<and> jget d ''kind'' = JStr ''Function''
           \<and> jget_default (jget_default d ''governance'' (JObj [])) ''sideEffect'' (JStr ''none'') = JStr ''none''
           \<and> \<not> truthy (jget_default (jget_default d ''governance'' (JObj [])) ''requiresApproval'' (JBool False)))
         \<and> rn_kind n = JStr ''Function'' \<and> rn_side_effect n = JStr ''none''
         \<and> \<not> truthy (rn_requires_approval n)) (rp_nodes (cp_read_plan p))"
  using assms
proof (rule compile_stages)
  fix raw cards nodes order goal es outputs analysis
  assume few: "length (planned_ids_of r) \<le> max_read_nodes"
    and nodes: "author_nodes (planned_ids_of r) (dict_of (map (\<lambda>c. (card_id c, c)) cards)) raw
       (supplied_values r draft) (res_closure r) = Inr (nodes, node_ids_of (planned_ids_of r), es)"
    and p: "p = assemble sha256_hex draft r pinned snapshot who scope nodes es order goal outputs analysis"
  have nodes_p: "rp_nodes (cp_read_plan p) = nodes" by (simp add: p assemble_def Let_def)
  from author_nodes_Inr [OF nodes] have ids: "map rn_capability nodes = planned_ids_of r" by (simp_all add: planned_ids_of_def)
  have "length nodes \<le> 6" using ids few by (metis length_map max_read_nodes_def)
  then show ?thesis using ids compiled_node_source [OF assms] unfolding nodes_p list_all_iff by blast
qed

text \<open>The node of a planned capability.\<close>

lemma node_of_capability:
  assumes "distinct ids" and "map rn_capability nodes = ids" and "map rn_id nodes = map read_id [0..<length ids]"
  shows "map_of (node_ids_of ids) c = Some a \<longleftrightarrow> (\<exists>n \<in> set nodes. rn_capability n = c \<and> rn_id n = a)"
proof -
  have len: "length nodes = length ids" using assms(2) by auto
  have at: "map_of (node_ids_of ids) (ids ! k) = Some (read_id k)" "rn_capability (nodes ! k) = ids ! k"
    "rn_id (nodes ! k) = read_id k" if "k < length ids" for k
    using node_ids_lookup [OF assms(1) that] arg_cong [OF assms(2), of "\<lambda>xs. xs ! k"]
      arg_cong [OF assms(3), of "\<lambda>xs. xs ! k"] that len by simp_all
  show ?thesis
  proof
    assume look: "map_of (node_ids_of ids) c = Some a"
    then have "c \<in> fst ` set (node_ids_of ids)" by (force dest: map_of_SomeD)
    then have "c \<in> set ids" by (simp only: keys_node_ids)
    then obtain k where "k < length ids" "ids ! k = c" by (auto simp: in_set_conv_nth)
    with at [OF this(1)] look len show "\<exists>n \<in> set nodes. rn_capability n = c \<and> rn_id n = a"
      by (intro bexI [of _ "nodes ! k"]) auto
  next
    assume "\<exists>n \<in> set nodes. rn_capability n = c \<and> rn_id n = a"
    then obtain k where "k < length nodes" "rn_capability (nodes ! k) = c" "rn_id (nodes ! k) = a"
      by (auto simp: in_set_conv_nth)
    with at [of k] len show "map_of (node_ids_of ids) c = Some a" by simp
  qed
qed

lemma data_edges_of_iff:
  "(\<exists>i. DataEdge i a b f \<in> set (data_edges_of node_by_cap bs)) \<longleftrightarrow>
     (\<exists>x \<in> set bs. map_of node_by_cap (bound_producer x) = Some a \<and> map_of node_by_cap (bound_consumer x) = Some b
        \<and> bound_fact_type x = f)"
proof
  assume "\<exists>i. DataEdge i a b f \<in> set (data_edges_of node_by_cap bs)"
  then show "\<exists>x \<in> set bs. map_of node_by_cap (bound_producer x) = Some a \<and> map_of node_by_cap (bound_consumer x) = Some b
        \<and> bound_fact_type x = f"
    using data_edges_of_mem by fastforce
next
  let ?keys = "concat (map (binding_edge_key node_by_cap) bs)"
  let ?met = "fold (\<lambda>key keys. if key \<in> set keys then keys else keys @ [key]) ?keys []"
  assume "\<exists>x \<in> set bs. map_of node_by_cap (bound_producer x) = Some a \<and> map_of node_by_cap (bound_consumer x) = Some b
        \<and> bound_fact_type x = f"
  then obtain x where "x \<in> set bs" "(a, b, f) \<in> set (binding_edge_key node_by_cap x)"
    by (auto simp: binding_edge_key_def)
  then have "(a, b, f) \<in> set ?keys" by auto
  then have "(a, b, f) \<in> set ?met" by (simp add: set_fold_add)
  then obtain k where "(k, a, b, f) \<in> set (enumerate_list ?met)" using enumerate_list_ex [of "(a, b, f)" ?met] by blast
  then show "\<exists>i. DataEdge i a b f \<in> set (data_edges_of node_by_cap bs)"
    by (force simp: data_edges_of_def)
qed

lemma data_edge_ids: "distinct (map edge_id (data_edges_of node_by_cap bs))"
proof -
  have ids: "map edge_id (map (\<lambda>(k, a, b, f). DataEdge (''edge.data.'' @ string_of_nat k) a b f) kxs)
      = map (\<lambda>k. ''edge.data.'' @ string_of_nat k) (map fst kxs)" for kxs :: "(nat \<times> string \<times> string \<times> string) list"
    by auto
  have "distinct (map fst (enumerate_list xs))" for xs :: "(string \<times> string \<times> string) list"
    by (simp add: enumerate_list_def)
  then show ?thesis unfolding data_edges_of_def ids by (simp add: distinct_map inj_on_def)
qed

text \<open>
  C5: a compiled read plan is schedulable.  Its node ids are read-0, read-1, \<dots>, and its order lists each
  of them once.  It has a data edge for a fact type between two nodes exactly if the closure binds an input of
  the one's capability to that fact type of the other's; it has no other edges, their ids are distinct and each
  goes forward in the order.  The goal asks for the desired fact types, and the outputs assign each desired fact,
  in the order of the fact types, to the node of its producer.
\<close>

theorem compiled_plan_schedulable:
  assumes "compile sha256_hex draft r pinned docs snapshot who scope = Some (Inr p)"
  shows "map rn_id (rp_nodes (cp_read_plan p)) = map read_id [0..<length (planned_ids_of r)]
    \<and> distinct (rp_order (cp_read_plan p))
    \<and> set (rp_order (cp_read_plan p)) = set (map rn_id (rp_nodes (cp_read_plan p)))
    \<and> list_all (\<lambda>e. \<exists>i a b f. e = DataEdge i a b f \<and> before (rp_order (cp_read_plan p)) a b) (rp_edges (cp_read_plan p))
    \<and> distinct (map edge_id (rp_edges (cp_read_plan p)))
    \<and> (\<forall>a b f. (\<exists>i. DataEdge i a b f \<in> set (rp_edges (cp_read_plan p))) \<longleftrightarrow>
         (\<exists>x \<in> set (res_closure r). bound_fact_type x = f
            \<and> (\<exists>n \<in> set (rp_nodes (cp_read_plan p)). rn_capability n = bound_producer x \<and> rn_id n = a)
            \<and> (\<exists>n \<in> set (rp_nodes (cp_read_plan p)). rn_capability n = bound_consumer x \<and> rn_id n = b)))
    \<and> desired_fact_types (cp_goal p) = sorted_set (map desired_type (res_desired r))
    \<and> list_all2 (\<lambda>d out. output_fact_type out = desired_type d
         \<and> (\<exists>n \<in> set (rp_nodes (cp_read_plan p)). rn_capability n = desired_producer d \<and> rn_id n = output_producer out))
       (sort_key desired_type (res_desired r)) (rp_outputs (cp_read_plan p))
    \<and> rp_snapshot (cp_read_plan p) = snapshot_id snapshot
    \<and> execution_mode (cp_goal p) = ''READ_ONLY'' \<and> rp_goal (cp_read_plan p) = goal_id (cp_goal p)"
  using assms
proof (rule compile_stages)
  fix raw cards nodes order goal es outputs analysis
  assume nodes: "author_nodes (planned_ids_of r) (dict_of (map (\<lambda>c. (card_id c, c)) cards)) raw
       (supplied_values r draft) (res_closure r) = Inr (nodes, node_ids_of (planned_ids_of r), es)"
    and order: "topological_order_of (map rn_id nodes) es = Inr order"
    and outputs: "mapM (goal_output_of (node_ids_of (planned_ids_of r))) (sort_key desired_type (res_desired r)) = Inr outputs"
    and goal: "execution_mode goal = ''READ_ONLY''" "desired_fact_types goal = desired_types_of r"
    and p: "p = assemble sha256_hex draft r pinned snapshot who scope nodes es order goal outputs analysis"
  let ?ids = "planned_ids_of r"
  have plan: "rp_nodes (cp_read_plan p) = nodes" "rp_order (cp_read_plan p) = order" "rp_edges (cp_read_plan p) = es"
    "rp_outputs (cp_read_plan p) = outputs" "rp_snapshot (cp_read_plan p) = snapshot_id snapshot"
    "cp_goal p = goal" "rp_goal (cp_read_plan p) = goal_id goal" by (simp_all add: p assemble_def Let_def)
  have distinct: "distinct ?ids" by (simp add: planned_ids_of_def)
  from author_nodes_Inr [OF nodes distinct] have ids: "map rn_id nodes = map read_id [0..<length ?ids]"
    and caps: "map rn_capability nodes = ?ids" and es: "es = data_edges_of (node_ids_of ?ids) (res_closure r)" by auto
  note look = node_of_capability [OF distinct caps ids]
  have run: "distinct order" "set order = set (map rn_id nodes)" "\<forall>(a, b) \<in> edge_relation (map rn_id nodes) es. before order a b"
    using topological_order_exact [of "map rn_id nodes" es] order ids distinct_read_ids [of "length ?ids"] by simp_all
  have exact: "(\<exists>i. DataEdge i a b f \<in> set es) \<longleftrightarrow> (\<exists>x \<in> set (res_closure r). bound_fact_type x = f
      \<and> (\<exists>n \<in> set nodes. rn_capability n = bound_producer x \<and> rn_id n = a)
      \<and> (\<exists>n \<in> set nodes. rn_capability n = bound_consumer x \<and> rn_id n = b))" for a b f
    unfolding es data_edges_of_iff look by blast
  have "\<exists>i a b f. e = DataEdge i a b f \<and> before order a b" if e: "e \<in> set es" for e
  proof -
    from data_edges_of_mem [OF e [unfolded es]] obtain i a b f where edge: "e = DataEdge i a b f" by blast
    with e exact have "a \<in> set (map rn_id nodes)" "b \<in> set (map rn_id nodes)" by force+
    with edge e have "(a, b) \<in> edge_relation (map rn_id nodes) es" unfolding edge_relation_def by force
    with run(3) edge show ?thesis by blast
  qed
  moreover have "list_all2 (\<lambda>d out. output_fact_type out = desired_type d
      \<and> (\<exists>n \<in> set nodes. rn_capability n = desired_producer d \<and> rn_id n = output_producer out))
      (sort_key desired_type (res_desired r)) outputs"
    using outputs unfolding mapM_eq_Inr
    by (rule list_all2_mono) (auto simp: goal_output_of_def item_of_def result_simps look split: option.splits)
  ultimately show ?thesis
    unfolding plan list_all_iff using ids run(1,2) goal exact data_edge_ids es by (simp add: desired_types_of_def)
qed

section \<open>Authored dependencies\<close>

lemma compiled_data_edges:
  assumes "compile sha256_hex draft r pinned docs snapshot who scope = Some (Inr p)"
  shows "map rn_capability (rp_nodes (cp_read_plan p)) = planned_ids_of r
    \<and> (\<forall>e \<in> set (rp_edges (cp_read_plan p)). \<exists>i a b f. e = DataEdge i a b f)"
  using assms
proof (rule compile_stages)
  fix raw cards nodes order goal es outputs analysis
  assume nodes: "author_nodes (planned_ids_of r) (dict_of (map (\<lambda>c. (card_id c, c)) cards)) raw
       (supplied_values r draft) (res_closure r) = Inr (nodes, node_ids_of (planned_ids_of r), es)"
    and p: "p = assemble sha256_hex draft r pinned snapshot who scope nodes es order goal outputs analysis"
  from author_nodes_Inr [OF nodes] have "map rn_capability nodes = planned_ids_of r"
    "es = data_edges_of (node_ids_of (planned_ids_of r)) (res_closure r)" by (simp_all add: planned_ids_of_def)
  moreover have "\<exists>i a b f. e = DataEdge i a b f" if "e \<in> set (data_edges_of node_by_cap bs)" for e node_by_cap bs
    using data_edges_of_mem [OF that] by blast
  ultimately show ?thesis by (simp add: p assemble_def Let_def)
qed

lemma plan_graph_of_Some:
  assumes "plan_graph_of rp = Some plan"
  shows "plan_edges plan = rp_edges rp \<and> map node_capability (plan_nodes plan) = map rn_capability (rp_nodes rp)"
proof -
  from assms obtain nodes where nodes: "those (map plan_node_of (rp_nodes rp)) = Some nodes" "plan_nodes plan = nodes"
    "plan_edges plan = rp_edges rp" by (auto simp: plan_graph_of_def split: option.splits)
  have "map node_capability ns = map rn_capability rs" if "those (map plan_node_of rs) = Some ns" for rs ns
    using that
  proof (induction rs arbitrary: ns)
    case (Cons x xs)
    then obtain y ys where "plan_node_of x = Some y" "those (map plan_node_of xs) = Some ys" "ns = y # ys"
      by (auto split: option.splits)
    moreover from this(1) have "node_capability y = rn_capability x" by (auto simp: plan_node_of_def split: json.splits)
    ultimately show ?case using Cons.IH by simp
  qed simp
  with nodes show ?thesis by simp
qed

text \<open>
  C38: the compiler authors no edge for a dependency the registry authors: whenever a planned capability
  depends on another by an authored relation, the validator rejects the compiled plan, whatever the rest.
\<close>

theorem compiled_plan_misses_dependencies:
  assumes "compile sha256_hex draft r pinned docs snapshot who scope = Some (Inr p)"
    and "plan_graph_of (cp_read_plan p) = Some plan"
    and "e \<in> set (authored_dependency_edges g)" and "source_id e \<in> set (planned_ids_of r)"
    and "\<And>i cap. map_of (capability_table g) i = Some cap \<Longrightarrow> capability_id cap = i"
    and "validate_plan_graph_v2 g snapshot goal shape_issues plan = Some (Inr report)"
  shows "\<not> report_valid report"
proof
  assume "report_valid report"
  then have ok: "plan_correct g snapshot goal plan"
    using validate_plan_graph_v2_characterised [of g snapshot goal shape_issues plan] assms(6) by auto
  then have nodes: "nodes_ok g plan" and edges: "edges_ok g plan" by (auto simp: plan_correct_def)
  note plan = plan_graph_of_Some [OF assms(2)] and compiled = compiled_data_edges [OF assms(1)]
  have "source_id e \<in> set (map node_capability (plan_nodes plan))" using plan compiled assms(4) by simp
  then obtain node where node: "node \<in> set (plan_nodes plan)" "node_capability node = source_id e" by auto
  with nodes obtain cap where "map_of (capability_table g) (source_id e) = Some cap" by (auto simp: nodes_ok_def)
  with node assms(5) have dependent: "plan_entry g plan (node_id node) node cap" "capability_id cap = source_id e"
    by (simp_all add: plan_entry_def)
  with edges assms(3) obtain i pn pc where "plan_entry g plan i pn pc" "capability_id pc = target_id e"
    unfolding edges_ok_def prerequisites_present_def by blast
  with dependent assms(3) have "(i, node_id node) \<in> required_dependencies g plan"
    unfolding required_dependencies_def by blast
  moreover have "dependency_keys plan = []" using plan compiled by (force simp: dependency_keys_def)
  ultimately show False using edges by (simp add: edges_ok_def)
qed

section \<open>From a draft to a validated plan\<close>

definition with_relations :: "json list \<Rightarrow> source_documents \<Rightarrow> source_documents" where
  "with_relations rels docs = docs\<lparr>relations_doc := JObj [(''version'', JInt 2), (''relations'', JList rels)]\<rparr>"

definition demo_graph_of :: "source_documents \<Rightarrow> typed_graph" where
  "demo_graph_of docs = projr (rbind (compile_graph docs) typed_graph_of)"

definition demo_compile :: "source_documents \<Rightarrow> string \<Rightarrow> compiled_plan result option" where
  "demo_compile docs f =
     (case resolve id (demo_request_draft [f]) demo_pinned docs demo_registry_snapshot of
        Some (Inr r) \<Rightarrow> compile demo_digest (demo_request_draft [f]) r demo_pinned docs demo_registry_snapshot [] []
      | _ \<Rightarrow> None)"

definition demo_report :: "source_documents \<Rightarrow> string \<Rightarrow> validation_report" where
  "demo_report docs f =
     (let p = projr (the (demo_compile docs f)) in
      projr (the (validate_plan_graph_v2 (demo_graph_of docs) demo_registry_snapshot (cp_goal p) []
        (the (plan_graph_of (cp_read_plan p))))))"

lemma demo_compiles: "demo_report (with_relations [] demo_readers) ''Stk'' = \<lparr>report_valid = True, report_issues = []\<rparr>"
  by code_simp

definition demo_compiled :: compiled_plan where
  "demo_compiled = projr (the (demo_compile (with_relations [] demo_readers) ''Stk''))"

lemma demo_compile_Inr:
  "compile demo_digest (demo_request_draft [''Stk'']) demo_resolution demo_pinned (with_relations [] demo_readers)
     demo_registry_snapshot [] [] = Some (Inr demo_compiled)"
  by code_simp

lemma compiled_plan_read_only_witness:
  "map rn_capability (rp_nodes (cp_read_plan demo_compiled)) = planned_ids_of demo_resolution"
  using compiled_plan_read_only [OF demo_compile_Inr] by blast

lemma compiled_plan_schedulable_witness:
  "\<exists>i. DataEdge i ''read-0'' ''read-1'' ''Mat'' \<in> set (rp_edges (cp_read_plan demo_compiled))"
proof -
  have "ClosureBinding ''Stock'' ''uom'' ''Info'' ''Mat'' ''unit'' \<in> set (res_closure demo_resolution)" by code_simp
  moreover have "list_ex (\<lambda>n. rn_capability n = ''Info'' \<and> rn_id n = ''read-0'') (rp_nodes (cp_read_plan demo_compiled))"
    by code_simp
  moreover have "list_ex (\<lambda>n. rn_capability n = ''Stock'' \<and> rn_id n = ''read-1'') (rp_nodes (cp_read_plan demo_compiled))"
    by code_simp
  ultimately show ?thesis
    using compiled_plan_schedulable [OF demo_compile_Inr] unfolding list_ex_iff by fastforce
qed

definition dependent_readers :: source_documents where
  "dependent_readers = with_relations [demo_relation ''Stock'' ''Info''] demo_readers"

definition dependent_compiled :: compiled_plan where
  "dependent_compiled = projr (the (demo_compile dependent_readers ''Stk''))"

lemma dependent_compile:
  "compile demo_digest (demo_request_draft [''Stk'']) demo_resolution demo_pinned dependent_readers
     demo_registry_snapshot [] [] = Some (Inr dependent_compiled)"
  by code_simp

lemma dependent_plan:
  "plan_graph_of (cp_read_plan dependent_compiled) \<noteq> None"
  by code_simp

lemma dependent_edge:
  "SemanticEdge ''dependsOn'' ''Stock'' ''Info'' \<in> set (authored_dependency_edges (demo_graph_of dependent_readers))"
  by code_simp

lemma dependent_planned: "''Stock'' \<in> set (planned_ids_of demo_resolution)"
  by code_simp

lemma dependent_keys: "map (\<lambda>(i, cap). (i, capability_id cap)) (capability_table (demo_graph_of dependent_readers))
    = [(''Stock'', ''Stock''), (''Info'', ''Info'')]"
  by code_simp

lemma compiled_plan_misses_dependencies_witness:
  "\<exists>report. validate_plan_graph_v2 (demo_graph_of dependent_readers) demo_registry_snapshot (cp_goal dependent_compiled) []
      (the (plan_graph_of (cp_read_plan dependent_compiled))) = Some (Inr report) \<and> \<not> report_valid report"
proof -
  obtain report where report: "validate_plan_graph_v2 (demo_graph_of dependent_readers) demo_registry_snapshot
      (cp_goal dependent_compiled) [] (the (plan_graph_of (cp_read_plan dependent_compiled))) = Some (Inr report)"
    using validate_plan_graph_v2_characterised by blast
  have keys: "capability_id cap = i" if "map_of (capability_table (demo_graph_of dependent_readers)) i = Some cap" for i cap
  proof -
    from map_of_SomeD [OF that] have "(i, capability_id cap) \<in> set (map (\<lambda>(i, cap). (i, capability_id cap))
        (capability_table (demo_graph_of dependent_readers)))" by force
    then show ?thesis unfolding dependent_keys by auto
  qed
  have "plan_graph_of (cp_read_plan dependent_compiled) = Some (the (plan_graph_of (cp_read_plan dependent_compiled)))"
    using dependent_plan by simp
  moreover have "source_id (SemanticEdge ''dependsOn'' ''Stock'' ''Info'') \<in> set (planned_ids_of demo_resolution)"
    using dependent_planned by simp
  ultimately have "\<not> report_valid report"
    using compiled_plan_misses_dependencies [OF dependent_compile _ dependent_edge _ keys report] by blast
  with report show ?thesis by blast
qed

section \<open>Complete resolutions that do not become plans\<close>

text \<open>
  A consumer bound to itself, as in \<open>resolver_binds_consumer_to_itself\<close>, is compiled into an edge from
  its node to itself: the compiler fails with a cycle the registry does not have.
\<close>

lemma self_binding_fails_to_compile:
  "demo_compile self_bound_documents ''Mat'' = Some (Inl (compiler_failure ''cycle in read plan data edges''))"
  by code_simp

text \<open>
  The resolver asks for the missing values of the requested facts' producers only.  A capability it pulls in
  for a derived input may lack a required value too: the resolution is complete, the plan compiles, and the
  validator rejects it.
\<close>

definition pulled_documents :: source_documents where
  "pulled_documents = with_relations [] (demo_documents
     [reader ''Stock'' [demo_input ''uom'' ''Unit''] [fact_output ''qty'' ''Stk''],
      reader ''Info'' [key_input ''plant''] [demo_output ''unit'' ''Unit'']])"

lemma pulled_capability_lacks_value:
  "map issue_code (report_issues (demo_report pulled_documents ''Stk'')) = [''PARAMETER_SOURCE_MISSING'']"
  by code_simp

end
