(* ===== verification/Plan_Authoring_Correctness.thy ===== *)
theory Plan_Authoring_Correctness
  imports Plan_Authoring Compiler_Correctness
begin

text \<open>
  What the version 2 compiler guarantees: Kahn's order, the structure of the plan it authors, gaps for all
  it left out, and that a plan it reports without the flag for an invalid graph is a correct plan.
\<close>

section \<open>Kahn's algorithm\<close>

text \<open>
  One pass over the successors of a node takes from each as many degrees as it occurs, and makes ready
  those that had no more.
\<close>

lemma relax_spec:
  assumes "\<And>i. i \<in> set ns \<Longrightarrow> \<exists>d. map_of deg i = Some d \<and> int (count_list ns i) \<le> d"
  shows "map_of (fst (relax ns (deg, ready))) i = map_option (\<lambda>d. d - int (count_list ns i)) (map_of deg i)
    \<and> (\<exists>new. snd (relax ns (deg, ready)) = ready @ new \<and> distinct new
         \<and> set new = {i \<in> set ns. map_of deg i = Some (int (count_list ns i))})"
  using assms
proof (induction ns arbitrary: deg ready)
  case Nil
  then show ?case by (cases "map_of deg i") auto
next
  case (Cons n ns)
  from Cons.prems [of n] obtain d where d: "map_of deg n = Some d" "1 + int (count_list ns n) \<le> d" by auto
  let ?deg = "AList.update n (d - 1) deg" and ?ready = "if d - 1 = 0 then ready @ [n] else ready"
  have deg: "map_of ?deg j = (if j = n then Some (d - 1) else map_of deg j)" for j by (simp add: update_conv)
  have prems: "\<exists>d'. map_of ?deg j = Some d' \<and> int (count_list ns j) \<le> d'" if "j \<in> set ns" for j
    using that Cons.prems [of j] d by (cases "j = n") (auto simp: deg)
  from Cons.IH [OF prems, of ?ready] obtain new where
    IH: "map_of (fst (relax ns (?deg, ?ready))) i = map_option (\<lambda>d. d - int (count_list ns i)) (map_of ?deg i)"
    "snd (relax ns (?deg, ?ready)) = ?ready @ new" "distinct new"
    "set new = {i \<in> set ns. map_of ?deg i = Some (int (count_list ns i))}" by blast
  have none: "n \<notin> set ns" if "d = 1" using d that count_list_0_iff [of ns n] by simp
  have "set new \<union> (if d = 1 then {n} else {}) = {i \<in> set (n # ns). map_of deg i = Some (int (count_list (n # ns) i))}"
  proof (intro set_eqI iffI)
    fix j
    assume "j \<in> set new \<union> (if d = 1 then {n} else {})"
    then show "j \<in> {i \<in> set (n # ns). map_of deg i = Some (int (count_list (n # ns) i))}"
      using d none by (auto simp: IH(4) deg count_list_0_iff split: if_splits)
  next
    fix j
    assume j: "j \<in> {i \<in> set (n # ns). map_of deg i = Some (int (count_list (n # ns) i))}"
    show "j \<in> set new \<union> (if d = 1 then {n} else {})"
    proof (cases "j = n")
      case True
      with j d have "d = 1 + int (count_list ns n)" by simp
      with True show ?thesis using count_list_0_iff [of ns n] by (auto simp: IH(4) update_conv)
    next
      case False
      with j show ?thesis by (auto simp: IH(4) deg)
    qed
  qed
  moreover have "distinct (if d = 1 then n # new else new)" using IH(3,4) none by auto
  moreover have "snd (relax (n # ns) (deg, ready)) = ready @ (if d = 1 then n # new else new)"
    using IH(2) by (simp add: d)
  ultimately have "\<exists>new. snd (relax (n # ns) (deg, ready)) = ready @ new \<and> distinct new
      \<and> set new = {i \<in> set (n # ns). map_of deg i = Some (int (count_list (n # ns) i))}"
    by (intro exI [of _ "if d = 1 then n # new else new"]) (auto split: if_splits)
  moreover have "map_of (fst (relax (n # ns) (deg, ready))) i = map_option (\<lambda>d. d - int (count_list (n # ns) i)) (map_of deg i)"
    using IH(1) by (simp add: d deg)
  ultimately show ?case by blast
qed

text \<open>The edges into a node whose source is not yet in the order.\<close>

definition open_edges :: "(string \<times> string) list \<Rightarrow> string list \<Rightarrow> string \<Rightarrow> nat" where
  "open_edges pairs order i = length (filter (\<lambda>(a, b). b = i \<and> a \<notin> set order) pairs)"

lemma open_edges_0: "open_edges pairs order i = 0 \<longleftrightarrow> (\<forall>a. (a, i) \<in> set pairs \<longrightarrow> a \<in> set order)"
  by (auto simp: open_edges_def filter_empty_conv)

lemma open_edges_snoc:
  "n \<notin> set order \<Longrightarrow> open_edges pairs order i = open_edges pairs (order @ [n]) i + count_list (successors_of pairs n) i"
  by (induction pairs) (auto simp: open_edges_def successors_of_def)

definition kahn_ok :: "string list \<Rightarrow> (string \<times> string) list \<Rightarrow> degrees \<Rightarrow> string list \<Rightarrow> string list \<Rightarrow> bool" where
  "kahn_ok ids pairs deg ready order \<longleftrightarrow>
     distinct (order @ ready) \<and> set (order @ ready) \<subseteq> set ids
     \<and> (\<forall>i \<in> set ids. map_of deg i = Some (int (open_edges pairs order i)))
     \<and> (\<forall>i \<in> set ids. i \<in> set (order @ ready) \<longleftrightarrow> open_edges pairs order i = 0)
     \<and> (\<forall>(a, b) \<in> set pairs. b \<in> set order \<longrightarrow> before order a b)"

lemma before_snoc: "before order a b \<Longrightarrow> before (order @ [n]) a b"
  unfolding before_def
proof (elim exE conjE)
  fix i j
  assume "i < j" "j < length order" "order ! i = a" "order ! j = b"
  then show "\<exists>i j. i < j \<and> j < length (order @ [n]) \<and> (order @ [n]) ! i = a \<and> (order @ [n]) ! j = b"
    by (intro exI [of _ i] exI [of _ j]) (simp add: nth_append)
qed

lemma before_last: "a \<in> set order \<Longrightarrow> before (order @ [n]) a n"
  unfolding before_def in_set_conv_nth
proof (elim exE conjE)
  fix i
  assume "i < length order" "order ! i = a"
  then show "\<exists>i j. i < j \<and> j < length (order @ [n]) \<and> (order @ [n]) ! i = a \<and> (order @ [n]) ! j = n"
    by (intro exI [of _ i] exI [of _ "length order"]) (simp add: nth_append)
qed

lemma kahn_ok_step:
  assumes ok: "kahn_ok ids pairs deg (n # ready) order" and inner: "set pairs \<subseteq> set ids \<times> set ids"
    and r: "relax (successors_of pairs n) (deg, ready) = (deg', ready')"
  shows "kahn_ok ids pairs deg' (sort ready') (order @ [n])"
proof -
  let ?succ = "successors_of pairs n"
  have n: "n \<in> set ids" "n \<notin> set order" "open_edges pairs order n = 0" using ok by (auto simp: kahn_ok_def)
  have degs: "map_of deg i = Some (int (open_edges pairs order i))" if "i \<in> set ids" for i
    using ok that by (simp add: kahn_ok_def)
  note step = open_edges_snoc [OF n(2), of pairs]
  have succ: "i \<in> set ids" if "i \<in> set ?succ" for i using that inner by (auto simp: successors_of_def)
  have le: "\<exists>d. map_of deg i = Some d \<and> int (count_list ?succ i) \<le> d" if "i \<in> set ?succ" for i
    using degs [OF succ [OF that]] step [of i] by auto
  have spec: "map_of deg' i = map_option (\<lambda>d. d - int (count_list ?succ i)) (map_of deg i)
      \<and> (\<exists>new. ready' = ready @ new \<and> distinct new \<and> set new = {i \<in> set ?succ. map_of deg i = Some (int (count_list ?succ i))})" for i
    using relax_spec [OF le, where ready = ready and i = i] by (simp add: r)
  then have deg': "map_of deg' i = map_option (\<lambda>d. d - int (count_list ?succ i)) (map_of deg i)" for i by blast
  from spec obtain new where new: "ready' = ready @ new" "distinct new"
    "set new = {i \<in> set ?succ. map_of deg i = Some (int (count_list ?succ i))}" by blast
  have new_iff: "i \<in> set new \<longleftrightarrow> i \<in> set ids \<and> open_edges pairs order i \<noteq> 0 \<and> open_edges pairs (order @ [n]) i = 0" for i
  proof
    assume "i \<in> set new"
    then have i: "i \<in> set ?succ" "map_of deg i = Some (int (count_list ?succ i))" by (simp_all add: new(3))
    with degs [OF succ] have "open_edges pairs order i = count_list ?succ i" by simp
    with step [of i] i succ show "i \<in> set ids \<and> open_edges pairs order i \<noteq> 0 \<and> open_edges pairs (order @ [n]) i = 0"
      using count_list_0_iff [of ?succ i] by simp
  next
    assume a: "i \<in> set ids \<and> open_edges pairs order i \<noteq> 0 \<and> open_edges pairs (order @ [n]) i = 0"
    with step [of i] have "count_list ?succ i = open_edges pairs order i" "i \<in> set ?succ"
      using count_list_0_iff [of ?succ i] by auto
    with a degs show "i \<in> set new" by (simp add: new(3))
  qed
  have members: "i \<in> set (order @ n # ready) \<longleftrightarrow> open_edges pairs order i = 0" if "i \<in> set ids" for i
    using ok that unfolding kahn_ok_def by blast
  have fresh: "i \<notin> set (order @ n # ready)" if "i \<in> set new" for i
  proof -
    from that have i: "i \<in> set ids" "open_edges pairs order i \<noteq> 0" unfolding new_iff by blast+
    show ?thesis unfolding members [OF i(1)] by (rule i(2))
  qed
  have "distinct (order @ n # ready)" using ok by (simp add: kahn_ok_def)
  with fresh new(2) have "distinct ((order @ [n]) @ sort ready')" by (auto simp: new(1))
  moreover have "set ((order @ [n]) @ sort ready') \<subseteq> set ids" using ok by (auto simp: kahn_ok_def new(1) new_iff)
  moreover have "map_of deg' i = Some (int (open_edges pairs (order @ [n]) i))" if "i \<in> set ids" for i
    using degs [OF that] step [of i] by (simp add: deg')
  moreover have "i \<in> set ((order @ [n]) @ sort ready') \<longleftrightarrow> open_edges pairs (order @ [n]) i = 0" if "i \<in> set ids" for i
    using members [OF that] step [of i] that by (auto simp: new(1) new_iff)
  moreover have "before (order @ [n]) a b" if ab: "(a, b) \<in> set pairs" "b \<in> set (order @ [n])" for a b
  proof (cases "b = n")
    case True
    with n(3) ab(1) have "a \<in> set order" by (simp add: open_edges_0)
    with True show ?thesis by (simp add: before_last)
  next
    case False
    with ab ok have "before order a b" by (auto simp: kahn_ok_def)
    then show ?thesis by (rule before_snoc)
  qed
  ultimately show ?thesis by (auto simp: kahn_ok_def)
qed

lemma kahn_loop_ok:
  assumes "kahn_ok ids pairs deg ready order" and "set pairs \<subseteq> set ids \<times> set ids"
  shows "\<exists>deg'. kahn_ok ids pairs deg' [] (kahn_loop pairs deg ready order)"
  using assms
proof (induction pairs deg ready order rule: kahn_loop.induct)
  case (2 pairs deg n ready order)
  from kahn_ok_step [OF 2(2,3) surjective_pairing] 2(1,3) show ?case by simp
qed auto

text \<open>If an acyclic graph has a node left, a minimal one of those has no open edge.\<close>

lemma kahn_complete:
  assumes ok: "kahn_ok ids pairs deg [] order" and inner: "set pairs \<subseteq> set ids \<times> set ids" and "acyclic (set pairs)"
  shows "set order = set ids"
proof (rule ccontr)
  assume "set order \<noteq> set ids"
  with ok obtain u where u: "u \<in> set ids - set order" by (auto simp: kahn_ok_def)
  have "wf (set pairs)" using assms(3) by (intro finite_acyclic_wf) simp_all
  from wfE_min [OF this u] obtain z where z: "z \<in> set ids - set order"
    and least: "\<And>y. (y, z) \<in> set pairs \<Longrightarrow> y \<notin> set ids - set order" by metis
  from least inner have "open_edges pairs order z = 0" by (auto simp: open_edges_0)
  with ok z show False by (auto simp: kahn_ok_def)
qed

lemma kahn_order_sound:
  assumes "distinct ids"
  shows "distinct (kahn_order ids es) \<and> set (kahn_order ids es) = set ids
    \<and> (acyclic (set (inner_edges ids es)) \<longrightarrow> (\<forall>(a, b) \<in> set (inner_edges ids es). before (kahn_order ids es) a b))"
proof (cases "es = []")
  case True
  with assms show ?thesis by (simp add: kahn_order_def inner_edges_def)
next
  case False
  let ?pairs = "inner_edges ids es" and ?deg = "initial_degrees ids (inner_edges ids es)"
  let ?ready = "sort (filter (\<lambda>i. map_of ?deg i = Some 0) ids)"
  let ?result = "kahn_loop ?pairs ?deg ?ready []"
  have inner: "set ?pairs \<subseteq> set ids \<times> set ids" by (auto simp: inner_edges_def)
  have degs: "map_of ?deg i = Some (int (open_edges ?pairs [] i))" if "i \<in> set ids" for i
    using that by (simp add: initial_degrees_def open_edges_def map_of_map_restrict case_prod_beta)
  then have "kahn_ok ids ?pairs ?deg ?ready []" using assms by (auto simp: kahn_ok_def)
  from kahn_loop_ok [OF this inner] obtain deg' where ok: "kahn_ok ids ?pairs deg' [] ?result" by blast
  then have result: "distinct ?result" "set ?result \<subseteq> set ids" by (simp_all add: kahn_ok_def)
  have order: "kahn_order ids es = ?result @ (if length ?result < length ids then sort (filter (\<lambda>i. i \<notin> set ?result) ids) else [])"
    using False by (simp add: kahn_order_def Let_def)
  have covers: "set ?result = set ids" if "\<not> length ?result < length ids"
    using that result assms by (metis card_subset_eq card_mono distinct_card finite_set le_antisym not_less)
  have "distinct (kahn_order ids es)" using result(1) assms by (auto simp: order)
  moreover have "set (kahn_order ids es) = set ids" using result(2) covers by (auto simp: order)
  moreover have "before (kahn_order ids es) a b" if "acyclic (set ?pairs)" and ab: "(a, b) \<in> set ?pairs" for a b
  proof -
    have all: "set ?result = set ids" by (rule kahn_complete [OF ok inner that(1)])
    then have "\<not> length ?result < length ids" using result(1) assms by (metis distinct_card less_irrefl)
    then have "kahn_order ids es = ?result" by (simp add: order)
    moreover have "b \<in> set ?result" using ab inner all by auto
    ultimately show ?thesis using ok ab by (auto simp: kahn_ok_def)
  qed
  ultimately show ?thesis by blast
qed

text \<open>
  C18: the topological order of a drafted plan always exists and lists every node once; it puts the
  source of every edge between its nodes before the target exactly when these edges have no cycle.
\<close>

theorem kahn_order_exact:
  assumes "distinct ids"
  shows "distinct (kahn_order ids es) \<and> set (kahn_order ids es) = set ids
    \<and> ((\<forall>(a, b) \<in> set (inner_edges ids es). before (kahn_order ids es) a b) \<longleftrightarrow> acyclic (set (inner_edges ids es)))"
  using kahn_order_sound [OF assms, of es] before_acyclic [of "kahn_order ids es" "set (inner_edges ids es)"] by blast

section \<open>Authoring the nodes\<close>

definition node_named :: "read_node \<Rightarrow> capability_card \<Rightarrow> bool" where
  "node_named n c \<longleftrightarrow> rn_capability n = card_id c \<and> rn_id n = node_id_for (card_id c)"

text \<open>The nodes, one per capability, each of the first producer of a fact; and the node of each fact.\<close>

definition authored ::
    "(capability_card \<Rightarrow> string \<Rightarrow> read_node result) \<Rightarrow> (string \<times> capability_card list) list \<Rightarrow> authoring \<Rightarrow> bool" where
  "authored build producers s \<longleftrightarrow>
     map (\<lambda>n. (rn_capability n, rn_id n)) (au_nodes s) = au_by_capability s \<and> distinct (map fst (au_by_capability s))
     \<and> (\<forall>n \<in> set (au_nodes s). \<exists>c f rest. group_get producers f = c # rest \<and> node_named n c \<and> build c (rn_id n) = Inr n)
     \<and> distinct (map fst (au_by_fact s))
     \<and> (\<forall>(f, i) \<in> set (au_by_fact s). \<exists>c rest n. group_get producers f = c # rest \<and> n \<in> set (au_nodes s)
          \<and> node_named n c \<and> i = rn_id n)"

lemma authored_start: "authored build producers authoring_start"
  by (simp add: authored_def authoring_start_def)

lemma update_mem: "(k', v') \<in> set (AList.update k v d) \<Longrightarrow> (k', v') = (k, v) \<or> (k', v') \<in> set d"
  by (induction d) (auto split: if_splits)

lemma author_fact_ok:
  assumes names: "\<And>c i n. build c i = Inr n \<Longrightarrow> rn_id n = i \<and> rn_capability n = card_id c"
    and ok: "authored build producers s" and s': "author_fact build producers f s = Inr s'"
  shows "authored build producers s' \<and>
    fst ` set (au_by_fact s') = fst ` set (au_by_fact s) \<union> (if group_get producers f = [] then {} else {f})"
proof (cases "group_get producers f")
  case Nil
  with ok s' show ?thesis by (simp add: author_fact_def)
next
  case (Cons c rest)
  let ?facts = "AList.update f (node_id_for (card_id c)) (au_by_fact s)"
  have keys: "fst ` set ?facts = fst ` set (au_by_fact s) \<union> {f}" by (simp add: dom_update)
  have distinct: "distinct (map fst ?facts)" using ok by (simp add: authored_def distinct_update)
  show ?thesis
  proof (cases "map_of (au_by_capability s) (card_id c)")
    case (Some i)
    have "map_of (map (\<lambda>n. (rn_capability n, rn_id n)) (au_nodes s)) (card_id c) = Some i" using ok Some by (simp add: authored_def)
    from map_of_SomeD [OF this] obtain n where n: "n \<in> set (au_nodes s)" "rn_capability n = card_id c" "rn_id n = i" by auto
    with ok have named: "node_named n c" by (fastforce simp: authored_def node_named_def)
    with n have i: "i = node_id_for (card_id c)" by (simp add: node_named_def)
    have s'_eq: "s' = s\<lparr>au_by_fact := ?facts\<rparr>" using s' by (simp add: author_fact_def Cons Some i)
    have "\<exists>c rest n. group_get producers g = c # rest \<and> n \<in> set (au_nodes s) \<and> node_named n c \<and> j = rn_id n"
      if "(g, j) \<in> set ?facts" for g j
      using update_mem [OF that] ok Cons named n i by (fastforce simp: authored_def)
    with ok keys distinct show ?thesis by (auto simp: s'_eq authored_def Cons)
  next
    case None
    from s' obtain node where node: "build c (node_id_for (card_id c)) = Inr node" and s'_eq:
      "s' = \<lparr>au_nodes = au_nodes s @ [node], au_by_capability = au_by_capability s @ [(card_id c, node_id_for (card_id c))],
             au_by_fact = ?facts\<rparr>"
      by (auto simp: author_fact_def Cons None Let_def result_simps)
    from names [OF node] have named: "node_named node c" "build c (rn_id node) = Inr node" using node by (simp_all add: node_named_def)
    from None have "card_id c \<notin> fst ` set (au_by_capability s)" by (simp add: map_of_eq_None_iff)
    moreover have "\<exists>c rest n. group_get producers g = c # rest \<and> n \<in> set (au_nodes s @ [node]) \<and> node_named n c \<and> j = rn_id n"
      if "(g, j) \<in> set ?facts" for g j
    proof (cases "(g, j) = (f, node_id_for (card_id c))")
      case True
      with Cons named names [OF node] show ?thesis by (intro exI [of _ c] exI [of _ rest] exI [of _ node]) simp
    next
      case False
      with update_mem [OF that] ok show ?thesis by (fastforce simp: authored_def)
    qed
    ultimately show ?thesis using ok keys distinct named Cons names [OF node] node
      by (auto simp: s'_eq authored_def)
  qed
qed

lemma author_facts_ok:
  assumes names: "\<And>c i n. build c i = Inr n \<Longrightarrow> rn_id n = i \<and> rn_capability n = card_id c"
    and "authored build producers s" and "author_facts build producers fs s = Inr s'"
  shows "authored build producers s' \<and>
    fst ` set (au_by_fact s') = fst ` set (au_by_fact s) \<union> {f \<in> set fs. group_get producers f \<noteq> []}"
  using assms(2,3)
proof (induction fs arbitrary: s)
  case (Cons f fs)
  from Cons.prems(2) obtain s1 where s1: "author_fact build producers f s = Inr s1" "author_facts build producers fs s1 = Inr s'"
    by (auto simp: result_simps)
  from author_fact_ok [OF names Cons.prems(1) s1(1)] Cons.IH [OF _ s1(2)] show ?case by auto
qed simp

lemma node_with_bindings_Inr:
  "node_with_bindings c i raw bs = Inr n \<Longrightarrow>
     rn_id n = i \<and> rn_capability n = card_id c \<and> rn_bindings n = bs \<and> rn_produces n = sort (card_produces c)"
  by (auto simp: node_with_bindings_def result_simps)

lemma authored_distinct: "authored build producers s \<Longrightarrow> distinct (map rn_id (au_nodes s))"
proof -
  assume ok: "authored build producers s"
  then have "map rn_id (au_nodes s) = map node_id_for (map rn_capability (au_nodes s))"
    by (auto simp: authored_def node_named_def)
  moreover from ok have "map rn_capability (au_nodes s) = map fst (au_by_capability s)"
    by (auto simp: authored_def comp_def dest!: arg_cong [of _ _ "map fst"])
  with ok have "distinct (map rn_capability (au_nodes s))" by (simp only: authored_def)
  moreover have "inj node_id_for" by (auto simp: inj_def node_id_for_def)
  ultimately show ?thesis by (metis distinct_map inj_on_subset subset_UNIV)
qed

section \<open>Sources and data edges\<close>

text \<open>A node that got more bindings, all of a kind.\<close>

definition grown :: "(parameter_binding \<Rightarrow> bool) \<Rightarrow> read_node \<Rightarrow> read_node \<Rightarrow> bool" where
  "grown P n n' \<longleftrightarrow> (\<exists>bs. n' = n\<lparr>rn_bindings := rn_bindings n @ bs\<rparr> \<and> list_all P bs)"

lemma grown_refl [simp]: "grown P n n"
  by (auto simp: grown_def intro!: exI [of _ "[]"])

lemma grown_trans: "grown P a b \<Longrightarrow> grown P b c \<Longrightarrow> grown P a c"
  by (fastforce simp: grown_def)

lemma grown_same:
  assumes "grown P n n'"
  shows "rn_id n' = rn_id n" "rn_capability n' = rn_capability n" "rn_produces n' = rn_produces n" "rn_kind n' = rn_kind n"
    "rn_side_effect n' = rn_side_effect n" "rn_requires_approval n' = rn_requires_approval n"
    "rn_approval_policy n' = rn_approval_policy n"
  using assms by (auto simp: grown_def)

lemma grown_nodes:
  assumes "list_all2 (grown P) ns ns'"
  shows "map rn_id ns' = map rn_id ns" "map rn_capability ns' = map rn_capability ns"
  using assms by (induction rule: list_all2_induct) (auto simp: grown_same)

lemma list_all2_grown_trans:
  assumes "list_all2 (grown P) as bs" and "list_all2 (grown P) bs cs"
  shows "list_all2 (grown P) as cs"
  by (rule list_all2_trans [OF _ assms]) (rule grown_trans)

text \<open>The data keys of the fact sources of a list of bindings of a node.\<close>

definition source_key :: "string \<Rightarrow> parameter_binding \<Rightarrow> data_key list" where
  "source_key i b = (case binding_source b of FactField p f _ \<Rightarrow> [(p, i, f)] | _ \<Rightarrow> [])"

definition source_keys :: "string \<Rightarrow> parameter_binding list \<Rightarrow> data_key set" where
  "source_keys i bs = (\<Union>b \<in> set bs. set (source_key i b))"

definition node_source_keys :: "read_node list \<Rightarrow> data_key set" where
  "node_source_keys nodes = (\<Union>n \<in> set nodes. source_keys (rn_id n) (rn_bindings n))"

lemma source_keys_simps [simp]:
  "source_keys i [] = {}" "source_keys i (b # bs) = set (source_key i b) \<union> source_keys i bs"
  "source_keys i (bs @ bs') = source_keys i bs \<union> source_keys i bs'"
  by (auto simp: source_keys_def)

lemma user_supplied_no_key: "user_supplied (binding_source b) \<Longrightarrow> source_key i b = []"
  by (auto simp: user_supplied_def source_key_def split: parameter_source.splits)

text \<open>Data edges in the order they were authored: numbered, one per key.\<close>

definition numbered_edges :: "plan_edge list \<Rightarrow> bool" where
  "numbered_edges es \<longleftrightarrow>
     map edge_id es = map (\<lambda>k. ''edge.data.'' @ string_of_nat k) [0..<length es]
     \<and> distinct (map edge_data_key es) \<and> None \<notin> set (map edge_data_key es)"

definition edge_keys :: "plan_edge list \<Rightarrow> data_key set" where
  "edge_keys es = {k. Some k \<in> set (map edge_data_key es)}"

lemma add_data_edge_ok:
  assumes "numbered_edges es"
  shows "numbered_edges (add_data_edge a b f es) \<and> edge_keys (add_data_edge a b f es) = insert (a, b, f) (edge_keys es)"
  using assms by (auto simp: add_data_edge_def numbered_edges_def edge_keys_def edge_data_key_def)

text \<open>A source the wiring pass authors for an input of a node.\<close>

definition wired_binding ::
    "(string \<times> string) list \<Rightarrow> (string \<times> string) list \<Rightarrow> read_node \<Rightarrow> input_descriptor list \<Rightarrow> parameter_binding \<Rightarrow> bool" where
  "wired_binding by_fact diagnosed node inps b \<longleftrightarrow>
     (\<exists>inp \<in> set inps. \<exists>f p field. wired_producer by_fact diagnosed node inp = Some (f, p)
        \<and> b = \<lparr>parameter_name = desc_name inp, binding_source = FactField p f field\<rparr>)"

lemma wire_inputs_ok:
  assumes "wire_inputs nodes raw by_fact diagnosed node inps (bs, es) = Inr (bs', es')" and "numbered_edges es"
  shows "numbered_edges es' \<and> (\<exists>new. bs' = bs @ new \<and> list_all (wired_binding by_fact diagnosed node inps) new
    \<and> edge_keys es' = edge_keys es \<union> source_keys (rn_id node) new)"
  using assms
proof (induction nodes raw by_fact diagnosed node inps "(bs, es)" arbitrary: bs es rule: wire_inputs.induct)
  case (2 nodes raw by_fact diagnosed node inp inps bs es)
  have mono: "list_all (wired_binding by_fact diagnosed node inps) new \<Longrightarrow> list_all (wired_binding by_fact diagnosed node (inp # inps)) new"
    for new by (auto simp: wired_binding_def list_all_iff)
  show ?case
  proof (cases "wired_producer by_fact diagnosed node inp")
    case None
    with 2 mono show ?thesis by auto
  next
    case (Some fp)
    then obtain f p where fp: "wired_producer by_fact diagnosed node inp = Some (f, p)" by (cases fp) auto
    with 2(3) obtain cap field where steps: "node_capability_of nodes p = Inr cap"
      "fact_field_for_input (raw_of raw cap) f (desc_semantic_type inp) (desc_binding_kind inp) = Inr field"
      "wire_inputs nodes raw by_fact diagnosed node inps
         (bs @ [\<lparr>parameter_name = desc_name inp, binding_source = FactField p f field\<rparr>], add_data_edge p (rn_id node) f es) = Inr (bs', es')"
      by (auto simp: result_simps)
    let ?b = "\<lparr>parameter_name = desc_name inp, binding_source = FactField p f field\<rparr>"
    note added = add_data_edge_ok [OF 2(4), of p "rn_id node" f]
    obtain new where new: "numbered_edges es'" "bs' = (bs @ [?b]) @ new" "list_all (wired_binding by_fact diagnosed node inps) new"
      "edge_keys es' = edge_keys (add_data_edge p (rn_id node) f es) \<union> source_keys (rn_id node) new"
      using 2(2) [OF fp refl steps(3)] added by blast
    have "wired_binding by_fact diagnosed node (inp # inps) ?b" using fp by (auto simp: wired_binding_def)
    with new mono added show ?thesis
      by (intro conjI exI [of _ "?b # new"]) (auto simp: source_key_def)
  qed
qed (auto intro!: exI [of _ "[]"])

text \<open>What the wiring pass makes of a node.\<close>

definition wired_node ::
    "(string \<times> capability_card) list \<Rightarrow> (string \<times> string) list \<Rightarrow> (string \<times> string) list \<Rightarrow> read_node \<Rightarrow> read_node \<Rightarrow> bool" where
  "wired_node by_id by_fact diagnosed n n' \<longleftrightarrow>
     grown (\<lambda>b. \<exists>c. map_of by_id (rn_capability n) = Some c \<and> wired_binding by_fact diagnosed n (card_inputs c) b) n n'"

definition no_fact_sources :: "read_node \<Rightarrow> bool" where
  "no_fact_sources n \<longleftrightarrow> list_all (\<lambda>b. user_supplied (binding_source b)) (rn_bindings n)"

lemma no_fact_sources_keys: "no_fact_sources n \<Longrightarrow> source_keys i (rn_bindings n) = {}"
  by (auto simp: no_fact_sources_def source_keys_def list_all_iff user_supplied_no_key)

lemma wire_nodes_ok:
  assumes "wire_nodes nodes by_id raw by_fact diagnosed ns (wired, es) = Inr (wired', es')" and "numbered_edges es"
    and "list_all no_fact_sources ns"
  shows "numbered_edges es' \<and> (\<exists>new. wired' = wired @ new \<and> list_all2 (wired_node by_id by_fact diagnosed) ns new
    \<and> edge_keys es' = edge_keys es \<union> node_source_keys new)"
  using assms
proof (induction ns arbitrary: wired es)
  case Nil
  then show ?case by (auto simp: node_source_keys_def)
next
  case (Cons n ns)
  show ?case
  proof (cases "map_of by_id (rn_capability n)")
    case None
    with Cons obtain new where new: "numbered_edges es'" "wired' = (wired @ [n]) @ new"
      "list_all2 (wired_node by_id by_fact diagnosed) ns new" "edge_keys es' = edge_keys es \<union> node_source_keys new" by force
    moreover have "source_keys (rn_id n) (rn_bindings n) = {}" using Cons.prems(3) by (simp add: no_fact_sources_keys)
    moreover have "wired_node by_id by_fact diagnosed n n" by (simp add: wired_node_def)
    ultimately show ?thesis
      by (intro conjI exI [of _ "n # new"]) (auto simp: node_source_keys_def)
  next
    case (Some c)
    with Cons.prems(1) obtain bs es1 where bs: "wire_inputs nodes raw by_fact diagnosed n (card_inputs c) ([], es) = Inr (bs, es1)"
      and rest: "wire_nodes nodes by_id raw by_fact diagnosed ns (wired @ [n\<lparr>rn_bindings := rn_bindings n @ bs\<rparr>], es1) = Inr (wired', es')"
      by (auto simp: result_simps)
    from wire_inputs_ok [OF bs Cons.prems(2)] have es1: "numbered_edges es1"
      "list_all (wired_binding by_fact diagnosed n (card_inputs c)) bs" "edge_keys es1 = edge_keys es \<union> source_keys (rn_id n) bs" by auto
    from Cons.IH [OF rest es1(1)] Cons.prems(3) obtain new where new: "numbered_edges es'"
      "wired' = (wired @ [n\<lparr>rn_bindings := rn_bindings n @ bs\<rparr>]) @ new" "list_all2 (wired_node by_id by_fact diagnosed) ns new"
      "edge_keys es' = edge_keys es1 \<union> node_source_keys new" by auto
    have "wired_node by_id by_fact diagnosed n (n\<lparr>rn_bindings := rn_bindings n @ bs\<rparr>)"
      using es1(2) Some by (auto simp: wired_node_def grown_def)
    moreover have "source_keys (rn_id n) (rn_bindings n) = {}" using Cons.prems(3) by (simp add: no_fact_sources_keys)
    ultimately show ?thesis using new es1(3)
      by (intro conjI exI [of _ "n\<lparr>rn_bindings := rn_bindings n @ bs\<rparr> # new"]) (auto simp: node_source_keys_def)
  qed
qed

lemma wired_node_key:
  assumes "wired_node by_id by_fact diagnosed n n'" and "no_fact_sources n" and "(p, i, f) \<in> source_keys (rn_id n') (rn_bindings n')"
  shows "i = rn_id n \<and> map_of by_fact f = Some p \<and> p \<noteq> i"
proof -
  from assms(1) obtain bs where bs: "n' = n\<lparr>rn_bindings := rn_bindings n @ bs\<rparr>"
    "\<forall>b \<in> set bs. \<exists>c :: capability_card. wired_binding by_fact diagnosed n (card_inputs c) b" unfolding wired_node_def grown_def list_all_iff by blast
  with assms(2,3) have "(p, i, f) \<in> source_keys (rn_id n) bs" by (simp add: no_fact_sources_keys)
  then obtain b where b: "b \<in> set bs" "(p, i, f) \<in> set (source_key (rn_id n) b)" by (auto simp: source_keys_def)
  with bs(2) obtain c :: capability_card and inp g q field where w: "inp \<in> set (card_inputs c)" "wired_producer by_fact diagnosed n inp = Some (g, q)"
    "b = \<lparr>parameter_name = desc_name inp, binding_source = FactField q g field\<rparr>"
    unfolding wired_binding_def by blast
  with b(2) have "p = q" "f = g" "i = rn_id n" by (simp_all add: source_key_def)
  with w(2) show ?thesis by (auto simp: wired_producer_def split: option.splits if_splits)
qed

section \<open>Propagated keys\<close>

definition supplied_binding :: "parameter_binding \<Rightarrow> bool" where
  "supplied_binding b \<longleftrightarrow> user_supplied (binding_source b)"

lemma setdefault_values:
  "(k, v) \<in> set (fold (\<lambda>(k, v). setdefault k v) kvs d) \<Longrightarrow> (k, v) \<in> set d \<union> set kvs"
proof (induction kvs arbitrary: d)
  case (Cons e kvs)
  obtain k' v' where e: "e = (k', v')" by (cases e)
  from Cons.prems have "(k, v) \<in> set (fold (\<lambda>(k, v). setdefault k v) kvs (setdefault k' v' d))" by (simp add: e)
  from Cons.IH [OF this] show ?case by (auto simp: e setdefault_def split: if_splits)
qed simp

lemma supplied_sources_user: "map_of (supplied_sources cc consumer) t = Some src \<Longrightarrow> user_supplied src"
  by (drule map_of_SomeD, unfold supplied_sources_def Let_def, drule setdefault_values) (auto split: if_splits option.splits)

lemma propagated_supplied:
  "list_all supplied_binding (propagated_bindings pc producer keyed_by (supplied_sources cc consumer))"
  by (auto simp: propagated_bindings_def list_all_iff supplied_binding_def split: if_splits option.splits dest: supplied_sources_user [OF sym])

lemma append_bindings_grown: "list_all P bs \<Longrightarrow> list_all2 (grown P) nodes (append_bindings i bs nodes)"
  by (auto simp: append_bindings_def list_all2_conv_all_nth grown_def intro: exI [of _ "[]"])

lemma propagate_edge_ok:
  "propagate_edge by_id docs e nodes = Inr nodes' \<Longrightarrow> list_all2 (grown supplied_binding) nodes nodes'"
  by (auto simp: propagate_edge_def result_simps list.rel_refl append_bindings_grown propagated_supplied
      split: option.splits plan_edge.splits if_splits)

lemma propagate_keys_ok:
  "propagate_keys_to_pulled_producers by_id docs es nodes = Inr nodes' \<Longrightarrow> list_all2 (grown supplied_binding) nodes nodes'"
proof (induction es arbitrary: nodes)
  case (Cons e es)
  then obtain ns where "propagate_edge by_id docs e nodes = Inr ns" "propagate_keys_to_pulled_producers by_id docs es ns = Inr nodes'"
    by (auto simp: result_simps)
  with Cons.IH propagate_edge_ok list_all2_grown_trans show ?case by blast
qed (simp add: list.rel_refl)

lemma grown_supplied_keys:
  assumes "grown supplied_binding n n'"
  shows "source_keys (rn_id n') (rn_bindings n') = source_keys (rn_id n) (rn_bindings n)"
proof -
  from assms obtain bs where "n' = n\<lparr>rn_bindings := rn_bindings n @ bs\<rparr>" "list_all supplied_binding bs" by (auto simp: grown_def)
  then show ?thesis by (auto simp: source_keys_def list_all_iff supplied_binding_def user_supplied_no_key)
qed

lemma grown_supplied_node_keys: "list_all2 (grown supplied_binding) ns ns' \<Longrightarrow> node_source_keys ns' = node_source_keys ns"
proof (induction rule: list_all2_induct)
  case (Cons n ns n' ns')
  then show ?case using grown_supplied_keys [of n n'] by (simp add: node_source_keys_def)
qed simp

section \<open>Dependency edges\<close>

lemma map_of_value: "map_of d k = Some v \<Longrightarrow> v \<in> snd ` set d"
  by (force dest: map_of_SomeD)

lemma dependency_pair_mem:
  assumes pairs: "dependency_pair cap_to_node relation = Inr pairs" and "(a, b) \<in> set pairs"
  shows "a \<in> snd ` set cap_to_node \<and> b \<in> snd ` set cap_to_node"
proof -
  let ?pair = "case (jget relation ''capabilityId'', jget relation ''dependsOnCapabilityId'') of
      (JStr d, JStr p) \<Rightarrow>
        (case (map_of cap_to_node p, map_of cap_to_node d) of (Some a, Some b) \<Rightarrow> Inr [(a, b)] | _ \<Rightarrow> Inr [])
    | _ \<Rightarrow> (Inr [] :: (string \<times> string) list result)"
  from pairs have "pairs = [] \<or> ?pair = Inr pairs"
    unfolding dependency_pair_def rbind_eq_Inr Let_def by (auto simp: result_simps split: if_splits)
  with assms(2) show ?thesis by (auto split: json.splits option.splits dest: map_of_value)
qed

definition dependency_edge_list :: "nat \<Rightarrow> (string \<times> string) list \<Rightarrow> plan_edge list" where
  "dependency_edge_list k pairs =
     map (\<lambda>(j, a, b). DependencyEdge (''edge.dep.'' @ string_of_nat (k + j)) a b) (enumerate_list pairs)"

lemma dependency_edges_ok:
  assumes "dependency_edges_of docs nodes k = Inr es"
  shows "\<exists>pairs. es = dependency_edge_list k pairs \<and> set pairs \<subseteq> set (map rn_id nodes) \<times> set (map rn_id nodes)"
proof -
  let ?nodes = "dict_of (map (\<lambda>n. (rn_capability n, rn_id n)) nodes)"
  from assms obtain relations pairs where pairs: "collectM (dependency_pair ?nodes) relations = Inr pairs" and es: "es = dependency_edge_list k pairs"
    by (auto simp: dependency_edges_of_def Let_def result_simps dependency_edge_list_def)
  have ends: "a \<in> snd ` set ?nodes \<and> b \<in> snd ` set ?nodes" if "(a, b) \<in> set pairs" for a b
    using collectM_member [OF pairs, of "(a, b)"] that dependency_pair_mem by blast
  have ids: "snd ` set ?nodes \<subseteq> set (map rn_id nodes)"
  proof
    fix i
    assume "i \<in> snd ` set ?nodes"
    then obtain c where "(c, i) \<in> set ?nodes" by auto
    then have "(c, i) \<in> set (map (\<lambda>n. (rn_capability n, rn_id n)) nodes)" by (rule dict_of_values)
    then show "i \<in> set (map rn_id nodes)" by auto
  qed
  have "set pairs \<subseteq> set (map rn_id nodes) \<times> set (map rn_id nodes)"
  proof (rule subrelI)
    fix a b
    assume "(a, b) \<in> set pairs"
    from ends [OF this] ids show "(a, b) \<in> set (map rn_id nodes) \<times> set (map rn_id nodes)" by (simp only: mem_Sigma_iff subsetD)
  qed
  with es show ?thesis by (intro exI [of _ pairs] conjI)
qed

lemma map_fst_enumerate: "map (\<lambda>ix. h (fst ix)) (enumerate_list xs) = map h [0..<length xs]"
proof -
  have "map fst (enumerate_list xs) = [0..<length xs]" by (simp add: enumerate_list_def)
  then have "map h (map fst (enumerate_list xs)) = map h [0..<length xs]" by simp
  then show ?thesis by (simp add: comp_def)
qed

lemma dependency_edge_ids: "map edge_id (dependency_edge_list k pairs) = map (\<lambda>j. ''edge.dep.'' @ string_of_nat (k + j)) [0..<length pairs]"
  using map_fst_enumerate [of "\<lambda>j. ''edge.dep.'' @ string_of_nat (k + j)" pairs]
  by (simp add: dependency_edge_list_def comp_def case_prod_beta)

section \<open>Partitions\<close>

lemma node_of_id_Some:
  assumes "distinct (map rn_id nodes)"
  shows "node_of_id nodes i = Some n \<longleftrightarrow> n \<in> set nodes \<and> rn_id n = i"
proof
  assume "node_of_id nodes i = Some n"
  then show "n \<in> set nodes \<and> rn_id n = i" by (auto simp: node_of_id_def find_Some_iff) (metis length_rev nth_mem set_rev)
next
  assume n: "n \<in> set nodes \<and> rn_id n = i"
  then obtain m where m: "node_of_id nodes i = Some m"
    by (cases "node_of_id nodes i") (auto simp: node_of_id_def find_None_iff)
  then have "m \<in> set nodes" "rn_id m = i" by (auto simp: node_of_id_def find_Some_iff) (metis length_rev nth_mem set_rev)
  with n assms have "m = n" by (auto simp: distinct_map dest: inj_onD)
  with m show "node_of_id nodes i = Some n" by simp
qed

definition reads :: "read_node list \<Rightarrow> (string \<times> json) list \<Rightarrow> string \<Rightarrow> bool" where
  "reads nodes raw i \<longleftrightarrow> (\<exists>n. node_of_id nodes i = Some n \<and> raw_read_only (raw_of raw (rn_capability n)) = Inr True)"

lemma partition_nodes_ok:
  "partition_nodes nodes raw order = Inr (rs, as) \<Longrightarrow>
     rs = filter (\<lambda>i. node_of_id nodes i \<noteq> None \<and> reads nodes raw i) order
     \<and> as = filter (\<lambda>i. node_of_id nodes i \<noteq> None \<and> \<not> reads nodes raw i) order"
proof (induction order arbitrary: rs as)
  case (Cons i order)
  show ?case
  proof (cases "node_of_id nodes i")
    case None
    with Cons show ?thesis by simp
  next
    case (Some n)
    with Cons.prems obtain b rs' as' where b: "raw_read_only (raw_of raw (rn_capability n)) = Inr b"
      and rest: "partition_nodes nodes raw order = Inr (rs', as')" and "(rs, as) = (if b then (i # rs', as') else (rs', i # as'))"
      by (auto simp: result_simps)
    with Cons.IH [OF rest] Some show ?thesis by (auto simp: reads_def split: if_splits)
  qed
qed simp

lemma raw_read_only_True:
  "raw_read_only raw = Inr True \<Longrightarrow>
     jget_default raw ''kind'' (JStr ''Function'') = JStr ''Function''
     \<and> jget (jget_default raw ''governance'' (JObj [])) ''sideEffect'' = JStr ''none''
     \<and> jget (jget_default raw ''governance'' (JObj [])) ''requiresApproval'' = JBool False
     \<and> jget (jget_default raw ''governance'' (JObj [])) ''approvalPolicy'' = JStr ''not_required''"
  by (auto simp: raw_read_only_def Let_def result_simps jitem_def split: if_splits json.splits option.splits)

section \<open>Goal outputs\<close>

lemma index_producers_get:
  assumes "\<And>c. c \<in> set cards \<Longrightarrow> distinct (card_produces c)"
  shows "group_get (index_producers_by_fact_type cards) f = sort_key card_id (filter (\<lambda>c. f \<in> set (card_produces c)) cards)"
  using producers_by_fact_get [OF assms] by (simp add: index_producers_by_fact_type_def producers_by_fact_def)

lemma length_producers:
  assumes "\<And>c. c \<in> set cards \<Longrightarrow> distinct (card_produces c)"
  shows "length (group_get (index_producers_by_fact_type cards) f) = length (filter (\<lambda>c. f \<in> set (card_produces c)) cards)"
  by (simp add: index_producers_get [OF assms])

lemma ambiguous_fact_types_None:
  assumes "f \<in> set (desired_fact_types goal)"
  shows "map_of (ambiguous_producer_fact_types goal cards) f = None \<longleftrightarrow>
     length (group_get (index_producers_by_fact_type cards) f) \<le> 1"
  using assms
  by (auto simp: ambiguous_producer_fact_types_def Let_def map_of_eq_None_iff keys_dict_of image_iff split: if_splits)

lemma unambiguous_facts_mem:
  "f \<in> set (unambiguous_facts goal cards) \<longleftrightarrow>
     f \<in> set (desired_fact_types goal) \<and> length (group_get (index_producers_by_fact_type cards) f) \<le> 1"
  by (auto simp: unambiguous_facts_def ambiguous_fact_types_None)

section \<open>The plan\<close>

definition edge_pairs :: "plan_edge list \<Rightarrow> (string \<times> string) set" where
  "edge_pairs es = (\<lambda>e. (from_node e, to_node e)) ` set es"

definition sole_producer :: "capability_card list \<Rightarrow> string \<Rightarrow> bool" where
  "sole_producer cards f \<longleftrightarrow> length (filter (\<lambda>c. f \<in> set (card_produces c)) cards) = 1"

text \<open>
  What the structure of an authored plan promises, said of the nodes, edges, order, outputs and partitions
  and not of how they were made.
\<close>

definition edges_authored :: "drafted_plan_v2 \<Rightarrow> bool" where
  "edges_authored p \<longleftrightarrow>
     distinct (map edge_id (dp_edges p))
     \<and> edge_pairs (dp_edges p) \<subseteq> set (map rn_id (dp_nodes p)) \<times> set (map rn_id (dp_nodes p))
     \<and> distinct (List.map_filter edge_data_key (dp_edges p))
     \<and> set (List.map_filter edge_data_key (dp_edges p)) = node_source_keys (dp_nodes p)"

definition order_authored :: "drafted_plan_v2 \<Rightarrow> bool" where
  "order_authored p \<longleftrightarrow>
     distinct (dp_order p) \<and> set (dp_order p) = set (map rn_id (dp_nodes p))
     \<and> ((\<forall>(a, b) \<in> edge_pairs (dp_edges p). before (dp_order p) a b) \<longleftrightarrow> acyclic (edge_pairs (dp_edges p)))"

definition outputs_authored :: "capability_card list \<Rightarrow> planner_goal \<Rightarrow> drafted_plan_v2 \<Rightarrow> bool" where
  "outputs_authored cards goal p \<longleftrightarrow>
     distinct (map output_fact_type (dp_outputs p))
     \<and> set (map output_fact_type (dp_outputs p)) = {f \<in> set (desired_fact_types goal). sole_producer cards f}
     \<and> (\<forall>out \<in> set (dp_outputs p). \<exists>n \<in> set (dp_nodes p).
          rn_id n = output_producer out \<and> output_fact_type out \<in> set (rn_produces n))"

definition partitions_authored :: "(string \<times> json) list \<Rightarrow> drafted_plan_v2 \<Rightarrow> bool" where
  "partitions_authored raw p \<longleftrightarrow>
     set (dp_read p) \<union> set (dp_action p) = set (map rn_id (dp_nodes p)) \<and> set (dp_read p) \<inter> set (dp_action p) = {}
     \<and> (\<forall>n \<in> set (dp_nodes p). rn_id n \<in> set (dp_read p) \<longleftrightarrow> raw_read_only (raw_of raw (rn_capability n)) = Inr True)"

lemma numbered_edges_Nil [simp]: "numbered_edges []" "edge_keys [] = {}"
  by (simp_all add: numbered_edges_def edge_keys_def)

lemma map_filter_total: "None \<notin> set (map f xs) \<Longrightarrow> map f xs = map Some (List.map_filter f xs)"
  by (induction xs) (auto simp: List.map_filter_simps split: option.splits)

lemma numbered_edges_keys:
  assumes "numbered_edges es"
  shows "distinct (List.map_filter edge_data_key es)" "set (List.map_filter edge_data_key es) = edge_keys es"
proof -
  have some: "map edge_data_key es = map Some (List.map_filter edge_data_key es)"
    using assms by (intro map_filter_total) (simp add: numbered_edges_def)
  then show "set (List.map_filter edge_data_key es) = edge_keys es" by (auto simp: edge_keys_def)
  from some assms show "distinct (List.map_filter edge_data_key es)"
    by (simp add: numbered_edges_def distinct_map)
qed

lemma edge_data_key_Some: "edge_data_key e = Some k \<Longrightarrow> \<exists>f. k = (from_node e, to_node e, f)"
  by (cases e) (auto simp: edge_data_key_def)

lemma numbered_edges_pairs:
  assumes "numbered_edges es" and "e \<in> set es"
  obtains f where "(from_node e, to_node e, f) \<in> edge_keys es"
proof -
  from assms have none: "None \<notin> set (map edge_data_key es)" by (simp add: numbered_edges_def)
  from assms(2) have "edge_data_key e \<in> set (map edge_data_key es)" by simp
  with none obtain k where k: "edge_data_key e = Some k" by (metis not_None_eq)
  then obtain f where "k = (from_node e, to_node e, f)" using edge_data_key_Some by blast
  with k assms(2) have "(from_node e, to_node e, f) \<in> edge_keys es"
    unfolding edge_keys_def by (metis (no_types, lifting) imageI image_set in_set_conv_nth list.set_map mem_Collect_eq)
  then show ?thesis by (rule that)
qed

lemma dependency_list_keys: "List.map_filter edge_data_key (dependency_edge_list k pairs) = []"
  by (auto simp: dependency_edge_list_def List.map_filter_def edge_data_key_def filter_empty_conv)

lemma edge_pairs_dependency: "edge_pairs (dependency_edge_list k pairs) = set pairs"
proof -
  have "map (\<lambda>e. (from_node e, to_node e)) (dependency_edge_list k pairs) = map (\<lambda>ip. snd ip) (enumerate_list pairs)"
    by (simp add: dependency_edge_list_def case_prod_beta)
  then have "map (\<lambda>e. (from_node e, to_node e)) (dependency_edge_list k pairs) = pairs"
    using map_snd_enumerate [of "\<lambda>x. x" pairs] by simp
  then show ?thesis unfolding edge_pairs_def set_map [symmetric] by simp
qed

lemma inner_edges_all:
  assumes "edge_pairs es \<subseteq> set ids \<times> set ids"
  shows "set (inner_edges ids es) = edge_pairs es"
  using assms by (fastforce simp: inner_edges_def edge_pairs_def)

lemma edge_ids_distinct:
  assumes "numbered_edges es"
  shows "distinct (map edge_id (es @ dependency_edge_list k pairs))"
proof -
  have "distinct (map (\<lambda>k. ''edge.data.'' @ string_of_nat k) [0..<length es])"
    "distinct (map (\<lambda>j. ''edge.dep.'' @ string_of_nat (k + j)) [0..<length pairs])"
    by (auto simp: distinct_map inj_on_def)
  then show ?thesis using assms by (auto simp: numbered_edges_def dependency_edge_ids)
qed

text \<open>The steps of a draft.\<close>

definition node_builder :: "planner_goal \<Rightarrow> (string \<times> json) list \<Rightarrow> escalation_handoff \<Rightarrow> capability_card \<Rightarrow> string \<Rightarrow> read_node result" where
  "node_builder goal raw handoff c i =
     build_node_v2 goal (parameters_of_capability handoff (card_id c)) c i (raw_of raw (card_id c))"

lemma node_builder_Inr:
  assumes "node_builder goal raw handoff c i = Inr n"
  shows "rn_id n = i" "rn_capability n = card_id c" "rn_produces n = sort (card_produces c)" "no_fact_sources n"
proof -
  from assms have n: "rn_id n = i \<and> rn_capability n = card_id c
      \<and> rn_bindings n = List.map_filter (binding_v2 goal (parameters_of_capability handoff (card_id c))) (card_inputs c)
      \<and> rn_produces n = sort (card_produces c)"
    unfolding node_builder_def build_node_v2_def by (rule node_with_bindings_Inr)
  have "user_supplied (binding_source b)" if "binding_v2 goal params inp = Some b" for params inp b
    using that by (auto simp: binding_v2_def constraint_binding_def user_supplied_def split: option.splits if_splits)
  with n show "rn_id n = i" "rn_capability n = card_id c" "rn_produces n = sort (card_produces c)" "no_fact_sources n"
    by (auto simp: no_fact_sources_def list_all_iff List.map_filter_def)
qed

lemma draft_plan_v2_Inr:
  assumes "draft_plan_v2 handoff snapshot docs = Inr (cards, goal, p, g)"
  obtains s wired data_edges where "discover_cards snapshot docs = Inr cards" and "goal = build_goal_v2 handoff cards"
    and "author_facts (node_builder goal (index_raw_capabilities docs) handoff) (index_producers_by_fact_type cards)
           (unambiguous_facts goal cards) authoring_start = Inr s"
    and "wire_nodes (au_nodes s) (cards_by_id cards) (index_raw_capabilities docs) (au_by_fact s)
           (diagnosed_consumer_inputs docs) (au_nodes s) ([], []) = Inr (wired, data_edges)"
    and "propagate_keys_to_pulled_producers (cards_by_id cards) docs data_edges wired = Inr (dp_nodes p)"
    and "\<exists>dependency_edges. dependency_edges_of docs (dp_nodes p) (length data_edges) = Inr dependency_edges
           \<and> dp_edges p = data_edges @ dependency_edges"
    and "dp_order p = kahn_order (map rn_id (dp_nodes p)) (dp_edges p)"
    and "partition_nodes (dp_nodes p) (index_raw_capabilities docs) (dp_order p) = Inr (dp_read p, dp_action p)"
    and "dp_outputs p = outputs_of_facts s" and "checked_graph docs = Inr g" and "handoff_snapshot handoff = snapshot_id snapshot"
    and "dp_snapshot p = snapshot_id snapshot" and "dp_goal p = goal_id goal" and "dp_mode p = execution_mode goal"
proof -
  let ?raw = "index_raw_capabilities docs"
  from assms have cards: "discover_cards snapshot docs = Inr cards" and goal: "goal = build_goal_v2 handoff cards"
    and p: "build_plan_graph_v2 goal snapshot cards ?raw handoff docs = Inr p" and g: "checked_graph docs = Inr g"
    and drift: "handoff_snapshot handoff = snapshot_id snapshot"
    by (auto simp: draft_plan_v2_def Let_def result_simps split: if_splits)
  from p obtain s where s: "author_nodes_v2 goal cards ?raw handoff = Inr s"
    and "rbind (wire_nodes (au_nodes s) (cards_by_id cards) ?raw (au_by_fact s) (diagnosed_consumer_inputs docs) (au_nodes s) ([], []))
       (\<lambda>(wired, data_edges). rbind (propagate_keys_to_pulled_producers (cards_by_id cards) docs data_edges wired) (\<lambda>nodes.
           rbind (dependency_edges_of docs nodes (length data_edges)) (\<lambda>dependency_edges.
             let es = data_edges @ dependency_edges; order = kahn_order (map rn_id nodes) es in
             rbind (partition_nodes nodes ?raw order) (\<lambda>(rs, as).
               Inr \<lparr>dp_id = plan_id_for goal, dp_goal = goal_id goal, dp_mode = execution_mode goal,
                    dp_snapshot = snapshot_id snapshot, dp_nodes = nodes, dp_edges = es, dp_order = order,
                    dp_outputs = outputs_of_facts s, dp_read = rs, dp_action = as\<rparr>)))) = Inr p"
    unfolding build_plan_graph_v2_def rbind_eq_Inr Let_def by blast
  note final = this(2)
  obtain wired data_edges where w: "wire_nodes (au_nodes s) (cards_by_id cards) ?raw (au_by_fact s)
      (diagnosed_consumer_inputs docs) (au_nodes s) ([], []) = Inr (wired, data_edges)"
    using final by (cases "wire_nodes (au_nodes s) (cards_by_id cards) ?raw (au_by_fact s)
      (diagnosed_consumer_inputs docs) (au_nodes s) ([], [])") auto
  obtain nodes where nodes: "propagate_keys_to_pulled_producers (cards_by_id cards) docs data_edges wired = Inr nodes"
    using final by (cases "propagate_keys_to_pulled_producers (cards_by_id cards) docs data_edges wired") (simp_all add: w)
  obtain deps where deps: "dependency_edges_of docs nodes (length data_edges) = Inr deps"
    using final by (cases "dependency_edges_of docs nodes (length data_edges)") (simp_all add: w nodes)
  let ?order = "kahn_order (map rn_id nodes) (data_edges @ deps)"
  obtain rs as where parts: "partition_nodes nodes ?raw ?order = Inr (rs, as)"
    using final by (cases "partition_nodes nodes ?raw ?order") (auto simp: w nodes deps Let_def)
  have p_eq: "p = \<lparr>dp_id = plan_id_for goal, dp_goal = goal_id goal, dp_mode = execution_mode goal,
                    dp_snapshot = snapshot_id snapshot, dp_nodes = nodes, dp_edges = data_edges @ deps,
                    dp_order = ?order, dp_outputs = outputs_of_facts s, dp_read = rs, dp_action = as\<rparr>"
    using final by (simp add: w nodes deps parts Let_def)
  from s have s': "author_facts (node_builder goal ?raw handoff) (index_producers_by_fact_type cards)
      (unambiguous_facts goal cards) authoring_start = Inr s"
    by (simp add: author_nodes_v2_def node_builder_def [abs_def])
  show ?thesis by (rule that [OF cards goal s' w]) (use nodes deps parts p_eq g drift in simp_all)
qed

lemma grown_node_list:
  assumes "list_all2 (grown P) ns ns'"
  shows "map (\<lambda>n. (rn_id n, rn_capability n, rn_produces n)) ns' = map (\<lambda>n. (rn_id n, rn_capability n, rn_produces n)) ns"
  using assms by (induction rule: list_all2_induct) (auto simp: grown_same)

lemma wired_node_list:
  assumes "list_all2 (wired_node by_id by_fact diagnosed) ns ns'"
  shows "map (\<lambda>n. (rn_id n, rn_capability n, rn_produces n)) ns' = map (\<lambda>n. (rn_id n, rn_capability n, rn_produces n)) ns"
  using assms by (induction rule: list_all2_induct) (auto simp: wired_node_def grown_same)

lemma wired_keys_mem:
  assumes "list_all2 (wired_node by_id by_fact diagnosed) ns ns'" and "list_all no_fact_sources ns"
    and "(p, i, f) \<in> node_source_keys ns'"
  shows "i \<in> set (map rn_id ns) \<and> map_of by_fact f = Some p \<and> p \<noteq> i"
proof -
  from assms(3) obtain k where k: "k < length ns'" "(p, i, f) \<in> source_keys (rn_id (ns' ! k)) (rn_bindings (ns' ! k))"
    by (auto simp: node_source_keys_def in_set_conv_nth)
  with assms(1,2) have "wired_node by_id by_fact diagnosed (ns ! k) (ns' ! k)" "no_fact_sources (ns ! k)" "k < length ns"
    by (auto simp: list_all2_conv_all_nth list_all_length)
  with wired_node_key [OF this(1,2) k(2)] show ?thesis by auto
qed

text \<open>What a draft is made of, before and after the wiring.\<close>

lemma drafted_nodes:
  assumes "draft_plan_v2 handoff snapshot docs = Inr (cards, goal, p, g)"
  obtains s data_edges pairs by_id diagnosed wired
  where "discover_cards snapshot docs = Inr cards" and "goal = build_goal_v2 handoff cards"
    and "authored (node_builder goal (index_raw_capabilities docs) handoff) (index_producers_by_fact_type cards) s"
    and "fst ` set (au_by_fact s) = {f \<in> set (unambiguous_facts goal cards). group_get (index_producers_by_fact_type cards) f \<noteq> []}"
    and "list_all no_fact_sources (au_nodes s)"
    and "by_id = cards_by_id cards" and "diagnosed = diagnosed_consumer_inputs docs"
    and "list_all2 (wired_node by_id (au_by_fact s) diagnosed) (au_nodes s) wired"
    and "list_all2 (grown supplied_binding) wired (dp_nodes p)"
    and "numbered_edges data_edges" and "edge_keys data_edges = node_source_keys (dp_nodes p)"
    and "dp_edges p = data_edges @ dependency_edge_list (length data_edges) pairs"
    and "set pairs \<subseteq> set (map rn_id (dp_nodes p)) \<times> set (map rn_id (dp_nodes p))"
    and "dp_order p = kahn_order (map rn_id (dp_nodes p)) (dp_edges p)"
    and "partition_nodes (dp_nodes p) (index_raw_capabilities docs) (dp_order p) = Inr (dp_read p, dp_action p)"
    and "dp_outputs p = outputs_of_facts s"
    and "map (\<lambda>n. (rn_id n, rn_capability n, rn_produces n)) (dp_nodes p) = map (\<lambda>n. (rn_id n, rn_capability n, rn_produces n)) (au_nodes s)"
proof -
  let ?build = "node_builder goal (index_raw_capabilities docs) handoff" and ?prod = "index_producers_by_fact_type cards"
  from draft_plan_v2_Inr [OF assms] obtain s wired data_edges dep where
    cards: "discover_cards snapshot docs = Inr cards" and goal: "goal = build_goal_v2 handoff cards"
    and s: "author_facts ?build ?prod (unambiguous_facts goal cards) authoring_start = Inr s"
    and w: "wire_nodes (au_nodes s) (cards_by_id cards) (index_raw_capabilities docs) (au_by_fact s)
           (diagnosed_consumer_inputs docs) (au_nodes s) ([], []) = Inr (wired, data_edges)"
    and pk: "propagate_keys_to_pulled_producers (cards_by_id cards) docs data_edges wired = Inr (dp_nodes p)"
    and dep: "dependency_edges_of docs (dp_nodes p) (length data_edges) = Inr dep" "dp_edges p = data_edges @ dep"
    and rest: "dp_order p = kahn_order (map rn_id (dp_nodes p)) (dp_edges p)"
      "partition_nodes (dp_nodes p) (index_raw_capabilities docs) (dp_order p) = Inr (dp_read p, dp_action p)"
      "dp_outputs p = outputs_of_facts s" by metis
  have names: "\<And>c i n. ?build c i = Inr n \<Longrightarrow> rn_id n = i \<and> rn_capability n = card_id c" by (simp add: node_builder_Inr)
  from author_facts_ok [OF names authored_start s]
  have authored: "authored ?build ?prod s" and keys: "fst ` set (au_by_fact s) = {f \<in> set (unambiguous_facts goal cards). group_get ?prod f \<noteq> []}"
    by (simp_all add: authoring_start_def)
  then have plain: "list_all no_fact_sources (au_nodes s)" using node_builder_Inr(4) by (fastforce simp: authored_def list_all_iff)
  from wire_nodes_ok [OF w _ plain] have e: "numbered_edges data_edges" "edge_keys data_edges = node_source_keys wired"
    and wired: "list_all2 (wired_node (cards_by_id cards) (au_by_fact s) (diagnosed_consumer_inputs docs)) (au_nodes s) wired" by auto
  note grown = propagate_keys_ok [OF pk]
  from e(2) grown_supplied_node_keys [OF grown] have k: "edge_keys data_edges = node_source_keys (dp_nodes p)" by simp
  from dependency_edges_ok [OF dep(1)] obtain pairs where pairs: "dep = dependency_edge_list (length data_edges) pairs"
    "set pairs \<subseteq> set (map rn_id (dp_nodes p)) \<times> set (map rn_id (dp_nodes p))" by blast
  have same: "map (\<lambda>n. (rn_id n, rn_capability n, rn_produces n)) (dp_nodes p) = map (\<lambda>n. (rn_id n, rn_capability n, rn_produces n)) (au_nodes s)"
    using grown_node_list [OF grown] wired_node_list [OF wired] by simp
  show ?thesis
    by (rule that [OF cards goal authored keys plain refl refl wired grown e(1) k _ pairs(2) rest same]) (simp add: dep pairs)
qed

lemma same_nodes:
  assumes "map (\<lambda>n. (rn_id n, rn_capability n, rn_produces n)) ns' = map (\<lambda>n. (rn_id n, rn_capability n, rn_produces n)) ns"
  shows "map rn_id ns' = map rn_id ns" "map rn_capability ns' = map rn_capability ns"
    and "n \<in> set ns \<Longrightarrow> \<exists>n' \<in> set ns'. rn_id n' = rn_id n \<and> rn_capability n' = rn_capability n \<and> rn_produces n' = rn_produces n"
    and "n' \<in> set ns' \<Longrightarrow> \<exists>n \<in> set ns. rn_id n' = rn_id n \<and> rn_capability n' = rn_capability n \<and> rn_produces n' = rn_produces n"
proof -
  from arg_cong [OF assms, of "map fst"] show "map rn_id ns' = map rn_id ns" by (simp add: comp_def)
  from arg_cong [OF assms, of "map (fst \<circ> snd)"] show "map rn_capability ns' = map rn_capability ns" by (simp add: comp_def)
  have eq: "(\<lambda>n. (rn_id n, rn_capability n, rn_produces n)) ` set ns' = (\<lambda>n. (rn_id n, rn_capability n, rn_produces n)) ` set ns"
    using arg_cong [OF assms, of set] by simp
  show "\<exists>n' \<in> set ns'. rn_id n' = rn_id n \<and> rn_capability n' = rn_capability n \<and> rn_produces n' = rn_produces n" if "n \<in> set ns"
  proof -
    have "(rn_id n, rn_capability n, rn_produces n) \<in> (\<lambda>n. (rn_id n, rn_capability n, rn_produces n)) ` set ns'"
      unfolding eq using that by (rule imageI)
    then show ?thesis by auto
  qed
  show "\<exists>n \<in> set ns. rn_id n' = rn_id n \<and> rn_capability n' = rn_capability n \<and> rn_produces n' = rn_produces n" if "n' \<in> set ns'"
  proof -
    have "(rn_id n', rn_capability n', rn_produces n') \<in> (\<lambda>n. (rn_id n, rn_capability n, rn_produces n)) ` set ns"
      unfolding eq [symmetric] using that by (rule imageI)
    then show ?thesis by auto
  qed
qed

lemma drafted_distinct:
  assumes "draft_plan_v2 handoff snapshot docs = Inr (cards, goal, p, g)"
  shows "distinct (map rn_id (dp_nodes p))"
proof -
  obtain s where s:
    "authored (node_builder goal (index_raw_capabilities docs) handoff) (index_producers_by_fact_type cards) s"
    "map (\<lambda>n. (rn_id n, rn_capability n, rn_produces n)) (dp_nodes p) = map (\<lambda>n. (rn_id n, rn_capability n, rn_produces n)) (au_nodes s)"
    by (rule drafted_nodes [OF assms]) (rule that, assumption+)
  show ?thesis unfolding same_nodes(1) [OF s(2)] by (rule authored_distinct [OF s(1)])
qed

lemma drafted_edges:
  assumes "draft_plan_v2 handoff snapshot docs = Inr (cards, goal, p, g)"
  shows "edges_authored p"
proof -
  obtain s data_edges pairs by_id diagnosed wired where
    authored: "authored (node_builder goal (index_raw_capabilities docs) handoff) (index_producers_by_fact_type cards) s"
    and plain: "list_all no_fact_sources (au_nodes s)"
    and w: "list_all2 (wired_node by_id (au_by_fact s) diagnosed) (au_nodes s) wired"
    and grown: "list_all2 (grown supplied_binding) wired (dp_nodes p)"
    and e: "numbered_edges data_edges" "edge_keys data_edges = node_source_keys (dp_nodes p)"
    and dp: "dp_edges p = data_edges @ dependency_edge_list (length data_edges) pairs"
    and pairs: "set pairs \<subseteq> set (map rn_id (dp_nodes p)) \<times> set (map rn_id (dp_nodes p))"
    and same: "map (\<lambda>n. (rn_id n, rn_capability n, rn_produces n)) (dp_nodes p) = map (\<lambda>n. (rn_id n, rn_capability n, rn_produces n)) (au_nodes s)"
    by (rule drafted_nodes [OF assms]) (rule that, assumption+)
  note ids = same_nodes(1) [OF same]
  have "node_source_keys (dp_nodes p) = node_source_keys wired" by (rule grown_supplied_node_keys [OF grown])
  with e(2) have keys: "edge_keys data_edges = node_source_keys wired" by simp
  have known: "from_node e \<in> set (map rn_id (au_nodes s)) \<and> to_node e \<in> set (map rn_id (au_nodes s))" if "e \<in> set data_edges" for e
  proof -
    from numbered_edges_pairs [OF e(1) that] obtain f where "(from_node e, to_node e, f) \<in> edge_keys data_edges" .
    with wired_keys_mem [OF w plain] have to: "to_node e \<in> set (map rn_id (au_nodes s))" and "map_of (au_by_fact s) f = Some (from_node e)"
      by (simp_all add: keys)
    then have "(f, from_node e) \<in> set (au_by_fact s)" by (simp add: map_of_SomeD)
    with authored have "from_node e \<in> set (map rn_id (au_nodes s))" by (fastforce simp: authored_def)
    with to show ?thesis by simp
  qed
  have "edge_pairs (dp_edges p) = edge_pairs data_edges \<union> set pairs"
    using edge_pairs_dependency [of "length data_edges" pairs] by (simp add: dp edge_pairs_def image_Un)
  with known pairs have "edge_pairs (dp_edges p) \<subseteq> set (map rn_id (dp_nodes p)) \<times> set (map rn_id (dp_nodes p))"
    by (auto simp: edge_pairs_def ids)
  moreover have "List.map_filter edge_data_key (dp_edges p) = List.map_filter edge_data_key data_edges"
    using dependency_list_keys [of "length data_edges" pairs] by (simp add: dp List.map_filter_def)
  ultimately show ?thesis
    using edge_ids_distinct [OF e(1)] numbered_edges_keys [OF e(1)] e(2) unfolding edges_authored_def dp by simp
qed

lemma drafted_order:
  assumes "draft_plan_v2 handoff snapshot docs = Inr (cards, goal, p, g)"
  shows "order_authored p"
proof -
  have order: "dp_order p = kahn_order (map rn_id (dp_nodes p)) (dp_edges p)" by (rule drafted_nodes [OF assms])
  note sound = kahn_order_sound [OF drafted_distinct [OF assms], of "dp_edges p"]
  have inner: "set (inner_edges (map rn_id (dp_nodes p)) (dp_edges p)) = edge_pairs (dp_edges p)"
    using drafted_edges [OF assms] by (intro inner_edges_all) (simp add: edges_authored_def)
  show ?thesis using sound before_acyclic [of "dp_order p" "edge_pairs (dp_edges p)"]
    unfolding order_authored_def inner order by blast
qed

lemma drafted_partitions:
  assumes "draft_plan_v2 handoff snapshot docs = Inr (cards, goal, p, g)"
  shows "partitions_authored (index_raw_capabilities docs) p"
proof -
  have parts: "partition_nodes (dp_nodes p) (index_raw_capabilities docs) (dp_order p) = Inr (dp_read p, dp_action p)"
    by (rule drafted_nodes [OF assms])
  note ids = drafted_distinct [OF assms]
  have order: "set (dp_order p) = rn_id ` set (dp_nodes p)" using drafted_order [OF assms] by (simp add: order_authored_def)
  have node: "node_of_id (dp_nodes p) (rn_id n) = Some n" if "n \<in> set (dp_nodes p)" for n
    using node_of_id_Some [OF ids] that by blast
  have reads: "reads (dp_nodes p) (index_raw_capabilities docs) (rn_id n)
      \<longleftrightarrow> raw_read_only (raw_of (index_raw_capabilities docs) (rn_capability n)) = Inr True" if "n \<in> set (dp_nodes p)" for n
    using node [OF that] by (simp add: reads_def)
  have known: "node_of_id (dp_nodes p) i \<noteq> None" if "i \<in> set (dp_order p)" for i
    using that node unfolding order by auto
  from partition_nodes_ok [OF parts] known have parts_eq:
    "dp_read p = filter (reads (dp_nodes p) (index_raw_capabilities docs)) (dp_order p)"
    "dp_action p = filter (\<lambda>i. \<not> reads (dp_nodes p) (index_raw_capabilities docs) i) (dp_order p)"
    by (auto intro: filter_cong)
  then show ?thesis using reads unfolding partitions_authored_def by (auto simp: order)
qed

lemma drafted_outputs:
  assumes "draft_plan_v2 handoff snapshot docs = Inr (cards, goal, p, g)" and unique: "distinct (map card_id cards)"
  shows "outputs_authored cards goal p"
proof -
  let ?build = "node_builder goal (index_raw_capabilities docs) handoff" and ?prod = "index_producers_by_fact_type cards"
  obtain s where cards: "discover_cards snapshot docs = Inr cards"
    and authored: "authored ?build ?prod s"
    and facts: "fst ` set (au_by_fact s) = {f \<in> set (unambiguous_facts goal cards). group_get ?prod f \<noteq> []}"
    and outputs: "dp_outputs p = outputs_of_facts s"
    and same: "map (\<lambda>n. (rn_id n, rn_capability n, rn_produces n)) (dp_nodes p) = map (\<lambda>n. (rn_id n, rn_capability n, rn_produces n)) (au_nodes s)"
    by (rule drafted_nodes [OF assms(1)]) (rule that, assumption+)
  have distinct: "\<And>c. c \<in> set cards \<Longrightarrow> distinct (card_produces c)"
    using discover_cards_mem [OF cards] by (metis card_of_def distinct_produces)
  have sole: "f \<in> set (unambiguous_facts goal cards) \<and> group_get ?prod f \<noteq> [] \<longleftrightarrow> f \<in> set (desired_fact_types goal) \<and> sole_producer cards f" for f
    using length_producers [of cards f, OF distinct]
    unfolding unambiguous_facts_mem sole_producer_def by (cases "group_get ?prod f") auto
  have types: "map output_fact_type (dp_outputs p) = map fst (au_by_fact s)" by (simp add: outputs outputs_of_facts_def comp_def case_prod_beta)
  have producer: "\<exists>n \<in> set (dp_nodes p). rn_id n = output_producer out \<and> output_fact_type out \<in> set (rn_produces n)"
    if "out \<in> set (dp_outputs p)" for out
  proof -
    from that have "(output_fact_type out, output_producer out) \<in> set (au_by_fact s)" by (auto simp: outputs outputs_of_facts_def)
    with authored obtain c rest n where c: "group_get ?prod (output_fact_type out) = c # rest" and n: "n \<in> set (au_nodes s)"
      "node_named n c" "output_producer out = rn_id n" by (fastforce simp: authored_def)
    from n(1) authored obtain d f r where d: "group_get ?prod f = d # r" "node_named n d" "?build d (rn_id n) = Inr n"
      by (auto simp: authored_def)
    have "c \<in> set (group_get ?prod (output_fact_type out))" "d \<in> set (group_get ?prod f)" by (simp_all add: c d(1))
    then have mem: "c \<in> set cards" "output_fact_type out \<in> set (card_produces c)" "d \<in> set cards"
      by (simp_all add: index_producers_get [OF distinct])
    with n(2) d(2) unique have "d = c" by (simp add: node_named_def distinct_map inj_on_def)
    with d(3) mem(2) have "output_fact_type out \<in> set (rn_produces n)" by (simp add: node_builder_Inr)
    with same_nodes(3) [OF same n(1)] n(3) show ?thesis by auto
  qed
  have "distinct (map fst (au_by_fact s))" using authored by (simp add: authored_def)
  moreover have "set (map output_fact_type (dp_outputs p)) = {f \<in> set (desired_fact_types goal). sole_producer cards f}"
    unfolding types using facts sole by auto
  ultimately show ?thesis using producer by (simp add: outputs_authored_def types)
qed

text \<open>
  C6: the plan the version 2 compiler drafts is well formed.  Its nodes and edges are named apart and the edges join its
  nodes; the data edges are those its fact sources ask for, one each; the order lists every node once and
  follows the edges exactly when they have no cycle; the outputs are the desired facts with one active
  producer, each of a node that produces it; and the two partitions split the nodes by whether the registry
  calls their capability read-only, whatever the registry says of the others.
\<close>

theorem drafted_plan_structure:
  assumes "draft_plan_v2 handoff snapshot docs = Inr (cards, goal, p, g)" and "distinct (map card_id cards)"
  shows "distinct (map rn_id (dp_nodes p)) \<and> edges_authored p \<and> order_authored p \<and> outputs_authored cards goal p
    \<and> partitions_authored (index_raw_capabilities docs) p"
  using drafted_distinct [OF assms(1)] drafted_edges [OF assms(1)] drafted_order [OF assms(1)]
    drafted_outputs [OF assms] drafted_partitions [OF assms(1)] by (intro conjI)

section \<open>What a plan leaves open\<close>

lemma ambiguous_gap:
  assumes "f \<in> set (desired_fact_types goal)" and "length (group_get (index_producers_by_fact_type cards) f) > 1"
  shows "\<exists>gap \<in> set (ambiguous_producer_gaps goal cards). gap_kind gap = ''ambiguous_producer'' \<and> (\<exists>text. gap_detail gap = f @ '': '' @ text)"
proof -
  have "map_of (ambiguous_producer_fact_types goal cards) f \<noteq> None" using assms by (simp add: ambiguous_fact_types_None)
  then obtain candidates where "(f, candidates) \<in> set (ambiguous_producer_fact_types goal cards)" by (auto dest: map_of_SomeD)
  then show ?thesis by (force simp: ambiguous_producer_gaps_def)
qed

lemma missing_parameter_gap:
  assumes "map_of (cards_by_id cards) (rn_capability n) = Some c" and "inp \<in> set (card_inputs c)" and "desc_required inp"
    and "desc_name inp \<notin> set (map parameter_name (rn_bindings n))"
  shows "\<lparr>gap_kind = ''missing_parameter'', gap_detail = card_id c @ ''.'' @ desc_name inp\<rparr> \<in> set (missing_parameter_gaps cards n)"
  using assms by (auto simp: missing_parameter_gaps_def intro!: bexI [of _ inp])

lemma map_of_cards_by_id:
  assumes "distinct (map card_id cards)" and "c \<in> set cards"
  shows "map_of (cards_by_id cards) (card_id c) = Some c"
proof -
  let ?kvs = "map (\<lambda>c. (card_id c, c)) cards"
  have keys: "map fst ?kvs = map card_id cards" by simp
  have "distinct (map fst (rev ?kvs))" using assms(1) keys by (metis distinct_rev rev_map)
  moreover have "(card_id c, c) \<in> set (rev ?kvs)" using assms(2) by auto
  ultimately show ?thesis unfolding cards_by_id_def map_of_dict_of by (rule map_of_is_SomeI)
qed

lemma drafted_card:
  assumes "draft_plan_v2 handoff snapshot docs = Inr (cards, goal, p, g)" and "n \<in> set (dp_nodes p)"
  shows "\<exists>c \<in> set cards. card_id c = rn_capability n"
proof -
  obtain s where cards: "discover_cards snapshot docs = Inr cards"
    and authored: "authored (node_builder goal (index_raw_capabilities docs) handoff) (index_producers_by_fact_type cards) s"
    and same: "map (\<lambda>n. (rn_id n, rn_capability n, rn_produces n)) (dp_nodes p) = map (\<lambda>n. (rn_id n, rn_capability n, rn_produces n)) (au_nodes s)"
    by (rule drafted_nodes [OF assms(1)]) (rule that, assumption+)
  have distinct: "\<And>c. c \<in> set cards \<Longrightarrow> distinct (card_produces c)"
    using discover_cards_mem [OF cards] by (metis card_of_def distinct_produces)
  from same_nodes(4) [OF same assms(2)] obtain m where m: "m \<in> set (au_nodes s)" "rn_capability n = rn_capability m" by auto
  with authored obtain c f rest where "group_get (index_producers_by_fact_type cards) f = c # rest" "rn_capability m = card_id c"
    by (auto simp: authored_def node_named_def)
  then have "c \<in> set (group_get (index_producers_by_fact_type cards) f)" by simp
  then have "c \<in> set cards" by (simp add: index_producers_get [OF distinct])
  with \<open>rn_capability m = card_id c\<close> m(2) show ?thesis by auto
qed

text \<open>
  C7: the version 2 compiler leaves nothing out in silence.  Every desired fact is an output of the plan, or a gap says
  that no active capability produces it, or that several do; every input a planned capability requires has
  a source in its node, or a gap names it; and a fact is called missing only when nothing produces it.
\<close>

theorem drafted_plan_accounts:
  assumes "draft_plan_v2 handoff snapshot docs = Inr (cards, goal, p, g)" and "distinct (map card_id cards)"
    and "gaps = plan_gaps_v2 goal cards docs (dp_nodes p)"
  shows "(\<forall>f \<in> set (desired_fact_types goal).
       f \<in> set (map output_fact_type (dp_outputs p))
       \<or> \<lparr>gap_kind = ''missing_capability'', gap_detail = f\<rparr> \<in> set gaps \<and> (\<forall>c \<in> set cards. f \<notin> set (card_produces c))
       \<or> (\<exists>gap \<in> set gaps. gap_kind gap = ''ambiguous_producer'' \<and> (\<exists>text. gap_detail gap = f @ '': '' @ text)))
    \<and> (\<forall>n \<in> set (dp_nodes p). \<exists>c \<in> set cards. card_id c = rn_capability n
       \<and> (\<forall>inp \<in> set (card_inputs c). desc_required inp \<longrightarrow>
            desc_name inp \<in> set (map parameter_name (rn_bindings n))
            \<or> \<lparr>gap_kind = ''missing_parameter'', gap_detail = card_id c @ ''.'' @ desc_name inp\<rparr> \<in> set gaps))
    \<and> (\<forall>f. \<lparr>gap_kind = ''missing_capability'', gap_detail = f\<rparr> \<in> set (missing_capability_gaps goal cards)
         \<longleftrightarrow> f \<in> set (desired_fact_types goal) \<and> (\<forall>c \<in> set cards. f \<notin> set (card_produces c)))"
proof (intro conjI ballI)
  show missing: "\<forall>f. \<lparr>gap_kind = ''missing_capability'', gap_detail = f\<rparr> \<in> set (missing_capability_gaps goal cards)
      \<longleftrightarrow> f \<in> set (desired_fact_types goal) \<and> (\<forall>c \<in> set cards. f \<notin> set (card_produces c))"
    by (auto simp: missing_capability_gaps_def split: if_splits)
  have cards: "discover_cards snapshot docs = Inr cards" by (rule drafted_nodes [OF assms(1)])
  have distinct: "\<And>c. c \<in> set cards \<Longrightarrow> distinct (card_produces c)"
    using discover_cards_mem [OF cards] by (metis card_of_def distinct_produces)
  fix f
  assume f: "f \<in> set (desired_fact_types goal)"
  consider "length (group_get (index_producers_by_fact_type cards) f) = 0" | "sole_producer cards f"
    | "length (group_get (index_producers_by_fact_type cards) f) > 1"
    using length_producers [of cards f, OF distinct] unfolding sole_producer_def by linarith
  then show "f \<in> set (map output_fact_type (dp_outputs p))
       \<or> \<lparr>gap_kind = ''missing_capability'', gap_detail = f\<rparr> \<in> set gaps \<and> (\<forall>c \<in> set cards. f \<notin> set (card_produces c))
       \<or> (\<exists>gap \<in> set gaps. gap_kind gap = ''ambiguous_producer'' \<and> (\<exists>text. gap_detail gap = f @ '': '' @ text))"
  proof cases
    case 1
    then have "\<forall>c \<in> set cards. f \<notin> set (card_produces c)"
      using length_producers [of cards f, OF distinct] by (simp add: filter_empty_conv)
    with f missing have "\<lparr>gap_kind = ''missing_capability'', gap_detail = f\<rparr> \<in> set gaps"
      by (simp add: assms(3) plan_gaps_v2_def compute_gaps_def)
    with \<open>\<forall>c \<in> set cards. f \<notin> set (card_produces c)\<close> show ?thesis by blast
  next
    case 2
    with drafted_outputs [OF assms(1,2)] f show ?thesis by (simp add: outputs_authored_def)
  next
    case 3
    from ambiguous_gap [OF f this] show ?thesis unfolding assms(3) plan_gaps_v2_def by auto
  qed
next
  fix n
  assume n: "n \<in> set (dp_nodes p)"
  from drafted_card [OF assms(1) n] obtain c where c: "c \<in> set cards" "card_id c = rn_capability n" by blast
  have by_id: "map_of (cards_by_id cards) (rn_capability n) = Some c"
    using map_of_cards_by_id [OF assms(2) c(1)] c(2) by simp
  have "\<lparr>gap_kind = ''missing_parameter'', gap_detail = card_id c @ ''.'' @ desc_name inp\<rparr> \<in> set gaps"
    if "inp \<in> set (card_inputs c)" "desc_required inp" "desc_name inp \<notin> set (map parameter_name (rn_bindings n))" for inp
    using missing_parameter_gap [OF by_id that] n by (auto simp: assms(3) plan_gaps_v2_def compute_gaps_def)
  with c show "\<exists>c \<in> set cards. card_id c = rn_capability n
       \<and> (\<forall>inp \<in> set (card_inputs c). desc_required inp \<longrightarrow>
            desc_name inp \<in> set (map parameter_name (rn_bindings n))
            \<or> \<lparr>gap_kind = ''missing_parameter'', gap_detail = card_id c @ ''.'' @ desc_name inp\<rparr> \<in> set gaps)" by blast
qed

section \<open>A handoff to evaluate on\<close>

definition stock_handoff :: escalation_handoff where
  "stock_handoff = \<lparr>handoff_reason = ''r'', matched_intents =
     [\<lparr>intent_capability = ''Stock'', intent_parameters = [(''material'', ''M1'')], intent_missing = []\<rparr>],
     utterance = ''u'', handoff_snapshot = ''s''\<rparr>"

definition stock_documents :: source_documents where
  "stock_documents = with_relations [demo_relation ''Stock'' ''Info''] demo_readers"

definition stock_draft :: "capability_card list \<times> planner_goal \<times> drafted_plan_v2 \<times> typed_graph" where
  "stock_draft = projr (draft_plan_v2 stock_handoff demo_registry_snapshot stock_documents)"

definition stock_plan :: drafted_plan_v2 where
  "stock_plan = fst (snd (snd stock_draft))"

lemma stock_drafted:
  "draft_plan_v2 stock_handoff demo_registry_snapshot stock_documents =
     Inr (fst stock_draft, fst (snd stock_draft), stock_plan, snd (snd (snd stock_draft)))"
  by code_simp

lemma stock_cards: "distinct (map card_id (fst stock_draft))"
  by code_simp

lemma kahn_order_exact_witness:
  "distinct (kahn_order [''b'', ''a''] [DependencyEdge ''e'' ''a'' ''b'']) \<and> set (kahn_order [''b'', ''a''] [DependencyEdge ''e'' ''a'' ''b'']) = {''a'', ''b''}"
  using kahn_order_exact [of "[''b'', ''a'']" "[DependencyEdge ''e'' ''a'' ''b'']"] by auto

lemma drafted_plan_structure_witness:
  "distinct (dp_order stock_plan) \<and> dp_order stock_plan = [''node.Info'', ''node.Stock'']"
proof -
  have "dp_order stock_plan = [''node.Info'', ''node.Stock'']" by code_simp
  with drafted_plan_structure [OF stock_drafted stock_cards] show ?thesis by (simp add: order_authored_def)
qed

lemma drafted_plan_accounts_witness:
  "list_all (\<lambda>f. f \<in> set (map output_fact_type (dp_outputs stock_plan))) (desired_fact_types (fst (snd stock_draft)))"
proof -
  let ?gaps = "plan_gaps_v2 (fst (snd stock_draft)) (fst stock_draft) stock_documents (dp_nodes stock_plan)"
  have "?gaps = []" by code_simp
  with drafted_plan_accounts [OF stock_drafted stock_cards, of ?gaps] show ?thesis by (simp add: list_all_iff)
qed

end
