(* ===== verification/Spec2Isabelle.thy ===== *)
theory Spec2Isabelle
  imports Contract_Validation Approval Plan_Authoring_Correctness
begin

text \<open>
  The planning core of the SAP Nexus agent: from the registry documents to a validated read plan, and the
  approval that stands before a write.  All paths below are under \<open>src/agent/sap_nexus_agent/\<close>.

  \<^bold>\<open>The program.\<close>  The registry is four YAML catalogs (capabilities, executor bindings, fact types,
  relations) and an optional list of semantic types.  \<open>semantic_planning/validation.py\<close> admits them: a
  schema stage converts each document to JSON and collects the errors of a JSON Schema library, then nine semantic
  checks look at ids, references, vocabulary, relations and cycles.  An admitted registry is compiled to an
  immutable graph (\<open>graph.py\<close>) and identified by a digest (\<open>snapshot.py\<close>).  The data dependencies between
  capabilities are not authored but derived (\<open>derivation.py\<close>).  Two paths lead from there to a plan.  A user's
  matched intents become a goal (\<open>planner/goal_spec.py\<close>), a version 1 dry run (\<open>planner/plan_compiler.py\<close>)
  or a version 2 plan with data and dependency edges (\<open>planner/plan_compiler_v2.py\<close>).  A draft of requested
  facts is resolved against the visible capabilities (\<open>ontology_planning/resolver.py\<close>) and compiled to a read
  plan and an analysis DAG (\<open>ontology_planning/compiler.py\<close>).  Either plan is checked by
  \<open>validation.py\<close> and \<open>validation_v2.py\<close>.  A capability that writes waits for an approval
  (\<open>approval.py\<close>).

  \<^bold>\<open>The theories\<close>, in the order they build on each other.

  \<^item> \<open>Prelude\<close>: exceptions as values (\<open>'a result\<close>), loops that may raise (\<open>mapM\<close>, \<open>collectM\<close>),
    dictionaries as association lists, \<open>sorted(set(...))\<close>.  \<open>Search\<close>: the two depth-first searches, one
    recursive with Python's recursion limit as its depth, one over an explicit stack as a partial function; the
    locale of their marks.  \<open>State_Machine\<close>: a locale of ranked step systems, with runs that must end.
  \<^item> \<open>Json\<close>: loaded values and the Python operations on them, exceptions included; equality across numeric
    types is \<open>py_eq\<close>.  \<open>Contracts\<close>, \<open>Snapshot\<close>: issues, reports, source documents, canonical JSON text and
    digests.
  \<^item> \<open>Derivation\<close>: the derived view; \<open>Contract_Validation\<close>: the semantic checks; \<open>Schema_Stage\<close>: the
    schema stage; \<open>Graph\<close>: the graph and its indexes; \<open>Contract_Build\<close>: \<open>build_semantic_contracts\<close>
    and the reachability of a goal.
  \<^item> \<open>Plan_Validation\<close>: every check of a plan after its shape; \<open>Plan_Shape\<close>: the shape stage and the
    validators on documents; \<open>Plan_Correctness\<close>: what they accept.
  \<^item> \<open>Planning_Contracts\<close>: drafts and their documents, bounds; \<open>Cards\<close>: capability cards;
    \<open>Resolver\<close>, \<open>Resolver_Correctness\<close>; \<open>Compiler\<close>, \<open>Dag_Marks\<close>, \<open>Compiler_Correctness\<close>.
  \<^item> \<open>Goal_Spec\<close>: the goal and its closure; \<open>Dry_Run\<close>: the version 1 compiler; \<open>Plan_Authoring\<close>,
    \<open>Plan_Authoring_Correctness\<close>: the version 2 compiler.
  \<^item> \<open>Approval\<close>: the approval record, its documents and its life cycle.

  \<^bold>\<open>What is shown.\<close>  The validator of version 2 plans always returns, and its verdict is an independent
  specification (C1), from which a valid plan is read-only (C2) and schedulable (C3); its cycle check decides
  acyclicity (C21).  Compiled plans are read-only in the registry, carry exactly the edges, outputs and goal of the
  resolution (C4, C5), and their order and analysis DAG are right and always found (C17, C19, C20); but they omit
  authored dependencies, which the validator demands (C38).  Plans of the version 2 compiler have the structure
  their bindings ask for and account for everything they leave out (C6, C7, C18); the closure of a goal is sound and
  complete (C8).  Complete resolutions are sound and closed (C9, C10), the closure ends (C15), and the order of
  iteration of a Python set does not matter (C16).  An accepted registry has passed every check (C13), a rejected one
  yields nothing but a report (C31); single checks are characterised exactly (C14, C29, C30), as are the schema stage
  (C34) and the conversion (C35), the derived view (C12, C27, C28), the reachability report (C32) and the producer
  index (C33).  Approvals follow one of five life cycles and end (C11, C23, C24, C25); hashes bind parameters (C22),
  digests ignore key order (C36), and records and drafts survive their documents (C26, C37).

  \<^bold>\<open>Parameters\<close> stand for what is not under \<open>src/\<close> or not computable: \<open>iter_errors\<close> is the JSON
  Schema library (from a schema's name and a document to its errors), \<open>sha256_hex\<close> the digest, \<open>int_of_text\<close>
  Python's \<open>int\<close> on texts, \<open>recursion_limit\<close> the interpreter's stack, \<open>set_order\<close> the iteration
  order of a set of texts, and clocks, uuids and the reading and writing of times are arguments of the operations of
  \<open>Approval\<close>.  Hypotheses on them are named where they are used: \<open>iterates\<close> (each element once) and the
  absence of a collision of the digest.

  \<^bold>\<open>Conventions.\<close>  Texts are their UTF-8 bytes, floats the text \<open>repr\<close> gives for them, dictionaries keep
  their insertion order.  Values that were frozen (lists as tuples, dictionaries as proxies) are read with the
  \<open>frozen_\<close> operations, others with the \<open>plain_\<close> ones; the difference shows in messages and in what can be
  hashed.  The schema stage reads \<open>source_value\<close>, which also has keys that are no texts, objects of other types
  and containers inside themselves; the later stages read \<open>json\<close>, since a document with such values has been
  rejected.  Capability entries of the graph are read into records at once (\<open>Graph.typed_graph_of\<close>): on an
  admitted registry this is what the code does entry by entry.  Loops that may not end are partial functions into
  \<open>option\<close>, with \<open>None\<close> for no end (\<open>close_loop\<close>, \<open>frames_loop\<close>), and shown to end; the visits
  of the analysis DAG take a depth, one more than the number of nodes, which C20 shows is never used up.

  \<^bold>\<open>Not modelled.\<close>  Reading and writing files, HTTP, prompts and replies of language models, command lines, the
  rendering of results and the evaluation harnesses; the gate on drafts before the resolver, the execution of a
  compiled plan and its operators on facts (\<open>ontology_planning/draft_validation.py\<close>, \<open>coordinator.py\<close>,
  \<open>analysis_runtime.py\<close>, \<open>operators.py\<close>), the context decision gate and the ranking of capabilities are left
  for later.
\<close>

end
